(* ===== verification/Prelude.thy ===== *)
theory Prelude
  imports Main "HOL-Library.Word" "HOL-Library.Sublist"
begin

text \<open>
  What every component shares: Rust's \<open>Result\<close> as a sum, the machine integers as words,
  and the operations of Rust's \<open>str\<close>, integer and \<open>Ipv4Addr\<close> library that the sources call.

  A Rust \<open>str\<close> is a sequence of UTF-8 bytes; it is modelled by \<open>string\<close>, whose characters are
  bytes, so \<open>length\<close> is Rust's \<open>len()\<close> and slicing is byte slicing. Positions and lengths
  are \<open>nat\<close>: they index a slice that is in memory, so they stay below \<open>isize::MAX\<close> and the few
  small additions the code makes to them cannot overflow \<open>usize\<close>.
\<close>

named_theorems split_simps \<open>facts about splitting strings\<close>
named_theorems trim_simps \<open>facts about trimming\<close>

section \<open>Results and machine integers\<close>

type_synonym u8 = "8 word"
type_synonym u16 = "16 word"
type_synonym u32 = "32 word"
type_synonym u64 = "64 word"
type_synonym bytes = "u8 list"

abbreviation Ok :: "'a \<Rightarrow> 'e + 'a" where "Ok \<equiv> Inr"
abbreviation Err :: "'e \<Rightarrow> 'e + 'a" where "Err \<equiv> Inl"

text \<open>The \<open>?\<close> operator: continue with the value, or return the error early.\<close>

fun rbind :: "'e + 'a \<Rightarrow> ('a \<Rightarrow> 'e + 'b) \<Rightarrow> 'e + 'b" where
  "rbind (Inl e) f = Inl e"
| "rbind (Inr a) f = f a"

text \<open>\<open>Option::ok_or\<close>, \<open>Result::ok\<close>, \<open>Result::is_ok\<close> and \<open>Result::map\<close>.\<close>

fun ok_or :: "'e \<Rightarrow> 'a option \<Rightarrow> 'e + 'a" where
  "ok_or e None = Inl e"
| "ok_or e (Some a) = Inr a"

fun res_ok :: "'e + 'a \<Rightarrow> 'a option" where
  "res_ok (Inl e) = None"
| "res_ok (Inr a) = Some a"

fun is_ok :: "'e + 'a \<Rightarrow> bool" where
  "is_ok (Inl e) = False"
| "is_ok (Inr a) = True"

fun map_res :: "('a \<Rightarrow> 'b) \<Rightarrow> 'e + 'a \<Rightarrow> 'e + 'b" where
  "map_res f (Inl e) = Inl e"
| "map_res f (Inr a) = Inr (f a)"

text \<open>\<open>Option::unwrap_or\<close> and \<open>Option::filter\<close>.\<close>

definition unwrap_or :: "'a option \<Rightarrow> 'a \<Rightarrow> 'a" where
  "unwrap_or x d = (case x of None \<Rightarrow> d | Some a \<Rightarrow> a)"

definition opt_filter :: "('a \<Rightarrow> bool) \<Rightarrow> 'a option \<Rightarrow> 'a option" where
  "opt_filter p x = (case x of None \<Rightarrow> None | Some a \<Rightarrow> if p a then Some a else None)"

text \<open>\<open>iter().map(f).collect::<Result<_, _>>()\<close>: the first error, else all the values.\<close>

fun collect_res :: "('a \<Rightarrow> 'e + 'b) \<Rightarrow> 'a list \<Rightarrow> 'e + 'b list" where
  "collect_res f [] = Inr []"
| "collect_res f (x # xs) = rbind (f x) (\<lambda>y. rbind (collect_res f xs) (\<lambda>ys. Inr (y # ys)))"

lemma rbind_Ok_iff: "rbind r f = Inr b \<longleftrightarrow> (\<exists>a. r = Inr a \<and> f a = Inr b)"
  by (cases r) auto

text \<open>With this as a congruence rule the simplifier leaves a continuation alone until its value is known.\<close>

lemma rbind_weak_cong: "r = r' \<Longrightarrow> rbind r f = rbind r' f"
  by simp

lemma rbind_Err_iff: "rbind r f = Inl e \<longleftrightarrow> r = Inl e \<or> (\<exists>a. r = Inr a \<and> f a = Inl e)"
  by (cases r) auto

lemma ok_or_Ok_iff [simp]: "ok_or e x = Inr a \<longleftrightarrow> x = Some a"
  by (cases x) auto

lemma ok_or_Err_iff [simp]: "ok_or e x = Inl e' \<longleftrightarrow> x = None \<and> e' = e"
  by (cases x) auto

lemma res_ok_Some_iff [simp]: "res_ok r = Some a \<longleftrightarrow> r = Inr a"
  by (cases r) auto

lemma res_ok_None_iff: "res_ok r = None \<longleftrightarrow> (\<exists>e. r = Inl e)"
  by (cases r) auto

lemma is_ok_iff: "is_ok r \<longleftrightarrow> (\<exists>a. r = Inr a)"
  by (cases r) auto

lemma unwrap_or_simps [simp]: "unwrap_or None d = d" "unwrap_or (Some a) d = a"
  by (simp_all add: unwrap_or_def)

lemma opt_filter_simps [simp]:
  "opt_filter p None = None" "opt_filter p (Some a) = (if p a then Some a else None)"
  by (simp_all add: opt_filter_def)

lemma map_res_Ok_iff: "map_res f r = Inr b \<longleftrightarrow> (\<exists>a. r = Inr a \<and> b = f a)"
  by (cases r) auto

text \<open>Rust's \<open>checked_add\<close>: \<open>None\<close> on overflow.\<close>

definition checked_add :: "'a::len word \<Rightarrow> 'a word \<Rightarrow> 'a word option" where
  "checked_add x y = (if unat x + unat y < 2 ^ LENGTH('a) then Some (x + y) else None)"

lemma checked_add_Some_iff:
  "checked_add x y = Some z \<longleftrightarrow> unat z = unat x + unat y"
  for x y z :: "'a::len word"
proof
  assume "checked_add x y = Some z"
  then show "unat z = unat x + unat y"
    by (auto simp: checked_add_def unat_word_ariths split: if_splits)
next
  assume sum: "unat z = unat x + unat y"
  have small: "unat x + unat y < 2 ^ LENGTH('a)"
  proof -
    have "unat z < 2 ^ LENGTH('a)" by (rule unsigned_less)
    then show ?thesis by (simp add: sum)
  qed
  have "z = x + y"
    by (rule word_unat_eq_iff [THEN iffD2]) (use small in \<open>simp add: sum unat_word_ariths\<close>)
  with small show "checked_add x y = Some z"
    by (simp add: checked_add_def)
qed

lemma checked_add_None_iff:
  "checked_add x y = None \<longleftrightarrow> 2 ^ LENGTH('a) \<le> unat x + unat y"
  for x y :: "'a::len word"
  by (auto simp: checked_add_def)

section \<open>Slices\<close>

text \<open>\<open>slice::get(i)\<close> and \<open>slice::get(a..b)\<close>: \<open>None\<close> out of bounds.\<close>

definition slice_get :: "'a list \<Rightarrow> nat \<Rightarrow> 'a option" where
  "slice_get xs i = (if i < length xs then Some (xs ! i) else None)"

definition slice_range :: "'a list \<Rightarrow> nat \<Rightarrow> nat \<Rightarrow> 'a list option" where
  "slice_range xs a b = (if a \<le> b \<and> b \<le> length xs then Some (take (b - a) (drop a xs)) else None)"

lemma slice_get_append: "slice_get (xs @ ys) (length xs + i) = slice_get ys i"
  by (simp add: slice_get_def nth_append)

lemma slice_get_Cons [simp]: "slice_get (x # xs) 0 = Some x" "slice_get (x # xs) (Suc i) = slice_get xs i"
  by (simp_all add: slice_get_def)

lemma slice_get_Nil [simp]: "slice_get [] i = None"
  by (simp add: slice_get_def)

lemma slice_range_append: "slice_range (xs @ ys) (length xs + i) (length xs + j) = slice_range ys i j"
  by (simp add: slice_range_def)

lemma slice_get_Some_iff: "slice_get xs i = Some x \<longleftrightarrow> i < length xs \<and> xs ! i = x"
  by (simp add: slice_get_def)

lemma slice_range_Some_iff:
  "slice_range xs a b = Some ys \<longleftrightarrow> a \<le> b \<and> b \<le> length xs \<and> ys = take (b - a) (drop a xs)"
  by (auto simp: slice_range_def)

section \<open>Characters and bytes\<close>

definition byte_of :: "char \<Rightarrow> u8" where
  "byte_of c = of_nat (of_char c)"

definition str_bytes :: "string \<Rightarrow> bytes" where
  "str_bytes s = map byte_of s"

definition char_code :: "char \<Rightarrow> nat" where
  "char_code c = of_char c"

lemma char_code_less: "char_code c < 256"
  by (simp add: char_code_def)

lemma char_code_inj [simp]: "char_code c = char_code d \<longleftrightarrow> c = d"
  by (simp add: char_code_def)

lemma char_code_char_of: "n < 256 \<Longrightarrow> char_code (char_of n) = n"
  by (simp add: char_code_def)

lemma char_of_char_code [simp]: "char_of (char_code c) = c"
  by (simp add: char_code_def)

lemma unat_byte_of: "unat (byte_of c) = char_code c"
  using char_code_less [of c] by (simp add: byte_of_def char_code_def unat_of_nat)

lemma byte_of_inj [simp]: "byte_of c = byte_of d \<longleftrightarrow> c = d"
  by (metis unat_byte_of char_code_inj)

lemma str_bytes_simps [simp]:
  "str_bytes [] = []" "str_bytes (c # s) = byte_of c # str_bytes s"
  "str_bytes (s @ t) = str_bytes s @ str_bytes t" "length (str_bytes s) = length s"
  by (simp_all add: str_bytes_def)

text \<open>\<open>u8::is_ascii_digit\<close>, \<open>is_ascii_lowercase\<close>, \<open>is_ascii_hexdigit\<close>, \<open>to_ascii_lowercase\<close>,
  \<open>to_ascii_uppercase\<close> on a byte of a string.\<close>

definition is_digit :: "char \<Rightarrow> bool" where
  "is_digit c \<longleftrightarrow> 48 \<le> char_code c \<and> char_code c \<le> 57"

definition is_lower :: "char \<Rightarrow> bool" where
  "is_lower c \<longleftrightarrow> 97 \<le> char_code c \<and> char_code c \<le> 122"

definition is_upper :: "char \<Rightarrow> bool" where
  "is_upper c \<longleftrightarrow> 65 \<le> char_code c \<and> char_code c \<le> 90"

definition is_hexdigit :: "char \<Rightarrow> bool" where
  "is_hexdigit c \<longleftrightarrow> is_digit c \<or> (97 \<le> char_code c \<and> char_code c \<le> 102)
     \<or> (65 \<le> char_code c \<and> char_code c \<le> 70)"

definition lower_char :: "char \<Rightarrow> char" where
  "lower_char c = (if is_upper c then char_of (char_code c + 32) else c)"

definition upper_char :: "char \<Rightarrow> char" where
  "upper_char c = (if is_lower c then char_of (char_code c - 32) else c)"

definition to_ascii_lowercase :: "string \<Rightarrow> string" where
  "to_ascii_lowercase s = map lower_char s"

definition to_ascii_uppercase :: "string \<Rightarrow> string" where
  "to_ascii_uppercase s = map upper_char s"

definition eq_ignore_ascii_case :: "string \<Rightarrow> string \<Rightarrow> bool" where
  "eq_ignore_ascii_case s t \<longleftrightarrow> to_ascii_lowercase s = to_ascii_lowercase t"

text \<open>The same on slices of bytes (\<open>[u8]::eq_ignore_ascii_case\<close>).\<close>

definition lower_u8 :: "u8 \<Rightarrow> u8" where
  "lower_u8 b = (if 65 \<le> unat b \<and> unat b \<le> 90 then b + 32 else b)"

definition bytes_eq_ignore_case :: "bytes \<Rightarrow> bytes \<Rightarrow> bool" where
  "bytes_eq_ignore_case s t \<longleftrightarrow> map lower_u8 s = map lower_u8 t"

lemma char_code_lower: "char_code (lower_char c) = (if is_upper c then char_code c + 32 else char_code c)"
  by (simp add: lower_char_def is_upper_def char_code_char_of)

lemma char_code_upper: "char_code (upper_char c) = (if is_lower c then char_code c - 32 else char_code c)"
  by (auto simp: upper_char_def is_lower_def char_code_char_of)

lemma lower_char_not_upper: "\<not> is_upper c \<Longrightarrow> lower_char c = c"
  by (simp add: lower_char_def)

lemma upper_char_not_lower: "\<not> is_lower c \<Longrightarrow> upper_char c = c"
  by (simp add: upper_char_def)

lemma not_is_upper_lower [simp]: "\<not> is_upper (lower_char c)"
  by (auto simp: is_upper_def char_code_lower split: if_splits)

lemma lower_char_idem [simp]: "lower_char (lower_char c) = lower_char c"
  by (simp add: lower_char_not_upper)

lemma lower_upper [simp]: "lower_char (upper_char c) = lower_char c"
  unfolding char_code_inj [symmetric]
  by (auto simp: char_code_lower char_code_upper is_upper_def is_lower_def)

lemma upper_lower [simp]: "upper_char (lower_char c) = upper_char c"
  unfolding char_code_inj [symmetric]
  by (auto simp: char_code_lower char_code_upper is_upper_def is_lower_def)

lemma byte_of_lower: "byte_of (lower_char c) = lower_u8 (byte_of c)"
proof (cases "is_upper c")
  case True
  then have "unat (lower_u8 (byte_of c)) = char_code c + 32"
    by (auto simp: lower_u8_def unat_byte_of is_upper_def unat_word_ariths)
  with True show ?thesis
    by (simp add: word_unat_eq_iff unat_byte_of char_code_lower)
next
  case False
  then have "\<not> (65 \<le> char_code c \<and> char_code c \<le> 90)"
    by (simp add: is_upper_def)
  moreover have "lower_char c = c"
    using False by (rule lower_char_not_upper)
  ultimately show ?thesis
    by (simp only: lower_u8_def unat_byte_of if_False)
qed

lemma str_bytes_eq_ignore_case:
  "bytes_eq_ignore_case (str_bytes s) (str_bytes t) \<longleftrightarrow> eq_ignore_ascii_case s t"
proof -
  have low: "map lower_u8 (str_bytes u) = str_bytes (to_ascii_lowercase u)" for u
    by (simp add: str_bytes_def to_ascii_lowercase_def byte_of_lower)
  have "inj byte_of"
    by (simp add: inj_def)
  then show ?thesis
    by (simp add: bytes_eq_ignore_case_def eq_ignore_ascii_case_def low)
       (simp add: str_bytes_def inj_map_eq_map)
qed

lemma to_ascii_lowercase_simps [simp]:
  "to_ascii_lowercase [] = []"
  "to_ascii_lowercase (c # s) = lower_char c # to_ascii_lowercase s"
  "to_ascii_lowercase (s @ t) = to_ascii_lowercase s @ to_ascii_lowercase t"
  "length (to_ascii_lowercase s) = length s"
  "to_ascii_lowercase (to_ascii_lowercase s) = to_ascii_lowercase s"
  by (simp_all add: to_ascii_lowercase_def)

lemma to_ascii_uppercase_simps [simp]:
  "length (to_ascii_uppercase s) = length s"
  "to_ascii_lowercase (to_ascii_uppercase s) = to_ascii_lowercase s"
  "to_ascii_uppercase (to_ascii_lowercase s) = to_ascii_uppercase s"
  by (simp_all add: to_ascii_uppercase_def to_ascii_lowercase_def)

lemma lower_char_eq_nonletter:
  assumes "\<not> is_lower d"
  shows "lower_char c = d \<longleftrightarrow> c = d \<and> \<not> is_upper d"
proof
  assume eq: "lower_char c = d"
  show "c = d \<and> \<not> is_upper d"
  proof (cases "is_upper c")
    case True
    then have "is_lower (lower_char c)"
      by (simp add: is_lower_def char_code_lower is_upper_def)
    with eq assms show ?thesis by simp
  next
    case False
    with eq show ?thesis by (simp add: lower_char_not_upper)
  qed
qed (auto simp: lower_char_not_upper)

lemma eq_ignore_ascii_case_refl [simp]: "eq_ignore_ascii_case s s"
  by (simp add: eq_ignore_ascii_case_def)

lemma eq_ignore_ascii_case_lower [simp]:
  "eq_ignore_ascii_case (to_ascii_lowercase s) t = eq_ignore_ascii_case s t"
  "eq_ignore_ascii_case s (to_ascii_lowercase t) = eq_ignore_ascii_case s t"
  by (simp_all add: eq_ignore_ascii_case_def)

end
