(* ===== verification/RustStr.thy ===== *)
theory RustStr
  imports Prelude
begin

text \<open>
  The operations of Rust's \<open>str\<close> that the sources call: trimming, prefixes and suffixes,
  splitting, substring tests, printing and parsing of unsigned integers and of \<open>Ipv4Addr\<close>,
  with the laws the components use.
\<close>

section \<open>Trimming\<close>

text \<open>
  \<open>str::trim\<close> removes characters with the Unicode property \<open>White_Space\<close>. Their UTF-8
  encodings have one, two or three bytes; the three predicates list them.
\<close>

definition ws1 :: "char \<Rightarrow> bool" where
  "ws1 c \<longleftrightarrow> (9 \<le> char_code c \<and> char_code c \<le> 13) \<or> char_code c = 32"

definition ws2 :: "char \<Rightarrow> char \<Rightarrow> bool" where
  "ws2 c d \<longleftrightarrow> char_code c = 0xC2 \<and> (char_code d = 0x85 \<or> char_code d = 0xA0)"

definition ws3 :: "char \<Rightarrow> char \<Rightarrow> char \<Rightarrow> bool" where
  "ws3 c d e \<longleftrightarrow>
     (char_code c = 0xE1 \<and> char_code d = 0x9A \<and> char_code e = 0x80)
   \<or> (char_code c = 0xE2 \<and> char_code d = 0x80
       \<and> ((0x80 \<le> char_code e \<and> char_code e \<le> 0x8A)
          \<or> char_code e = 0xA8 \<or> char_code e = 0xA9 \<or> char_code e = 0xAF))
   \<or> (char_code c = 0xE2 \<and> char_code d = 0x81 \<and> char_code e = 0x9F)
   \<or> (char_code c = 0xE3 \<and> char_code d = 0x80 \<and> char_code e = 0x80)"

text \<open>The number of bytes of the whitespace character a string begins with, 0 for none.\<close>

fun ws_len :: "(char \<Rightarrow> char \<Rightarrow> bool) \<Rightarrow> (char \<Rightarrow> char \<Rightarrow> char \<Rightarrow> bool) \<Rightarrow> string \<Rightarrow> nat" where
  "ws_len w2 w3 [] = 0"
| "ws_len w2 w3 [c] = (if ws1 c then 1 else 0)"
| "ws_len w2 w3 [c, d] = (if ws1 c then 1 else if w2 c d then 2 else 0)"
| "ws_len w2 w3 (c # d # e # s) =
     (if ws1 c then 1 else if w2 c d then 2 else if w3 c d e then 3 else 0)"

lemma ws_len_Nil: "0 < ws_len w2 w3 s \<Longrightarrow> 0 < length s"
  by (cases s) auto

lemma ws_len_0_iff: "ws_len w2 w3 s = 0 \<longleftrightarrow>
    (s \<noteq> [] \<longrightarrow> \<not> ws1 (s ! 0)) \<and> (2 \<le> length s \<longrightarrow> \<not> w2 (s ! 0) (s ! 1))
    \<and> (3 \<le> length s \<longrightarrow> \<not> w3 (s ! 0) (s ! 1) (s ! 2))"
  by (induction w2 w3 s rule: ws_len.induct) auto

function trim_ws :: "(char \<Rightarrow> char \<Rightarrow> bool) \<Rightarrow> (char \<Rightarrow> char \<Rightarrow> char \<Rightarrow> bool) \<Rightarrow> string \<Rightarrow> string" where
  "trim_ws w2 w3 s = (if ws_len w2 w3 s = 0 then s else trim_ws w2 w3 (drop (ws_len w2 w3 s) s))"
  by pat_completeness auto
termination
  by (relation "measure (\<lambda>(w2, w3, s). length s)") (use ws_len_Nil in fastforce)+

declare trim_ws.simps [simp del]

text \<open>The end is trimmed on the reversed bytes, with the encodings reversed.\<close>

definition trim_start :: "string \<Rightarrow> string" where
  "trim_start s = trim_ws ws2 ws3 s"

definition trim_end :: "string \<Rightarrow> string" where
  "trim_end s = rev (trim_ws (\<lambda>c d. ws2 d c) (\<lambda>c d e. ws3 e d c) (rev s))"

definition trim :: "string \<Rightarrow> string" where
  "trim s = trim_end (trim_start s)"

lemma trim_ws_zero: "ws_len w2 w3 s = 0 \<Longrightarrow> trim_ws w2 w3 s = s"
  by (simp add: trim_ws.simps)

lemma ws_len_trim_ws: "ws_len w2 w3 (trim_ws w2 w3 s) = 0"
proof (induction w2 w3 s rule: trim_ws.induct)
  case (1 w2 w3 s)
  then show ?case
    by (cases "ws_len w2 w3 s = 0") (simp_all add: trim_ws.simps [of w2 w3 s])
qed

lemma suffix_trim_ws: "suffix (trim_ws w2 w3 s) s"
proof (induction w2 w3 s rule: trim_ws.induct)
  case (1 w2 w3 s)
  then show ?case
    by (cases "ws_len w2 w3 s = 0")
       (auto simp: trim_ws.simps [of w2 w3 s] intro: suffix_order.trans suffix_drop)
qed

lemma ws_len_prefix: "prefix p s \<Longrightarrow> ws_len w2 w3 s = 0 \<Longrightarrow> ws_len w2 w3 p = 0"
  by (cases "p = []") (auto simp: ws_len_0_iff prefix_def nth_append split: if_splits)

lemma prefix_trim_end: "prefix (trim_end s) s"
  using suffix_trim_ws [of _ _ "rev s"] by (simp add: trim_end_def suffix_to_prefix)

lemma ws_len_trim [trim_simps]: "ws_len ws2 ws3 (trim s) = 0"
  using ws_len_prefix [OF prefix_trim_end] ws_len_trim_ws
  by (simp add: trim_def trim_start_def)

lemma trim_idem [trim_simps, simp]: "trim (trim s) = trim s"
proof -
  have "trim_start (trim s) = trim s"
    by (simp add: trim_start_def trim_ws_zero ws_len_trim)
  moreover have "trim_end (trim s) = trim s"
    by (simp add: trim_def trim_end_def trim_ws_zero ws_len_trim_ws)
  ultimately show ?thesis
    by (simp add: trim_def)
qed

lemma set_trim: "set (trim s) \<subseteq> set s"
proof -
  have "set (trim s) \<subseteq> set (trim_start s)"
    unfolding trim_def by (rule set_mono_prefix [OF prefix_trim_end])
  also have "\<dots> \<subseteq> set s"
    unfolding trim_start_def by (rule set_mono_suffix [OF suffix_trim_ws])
  finally show ?thesis .
qed

text \<open>A string of printable ASCII characters other than the space is not changed.\<close>

definition graphic :: "char \<Rightarrow> bool" where
  "graphic c \<longleftrightarrow> 33 \<le> char_code c \<and> char_code c \<le> 126"

lemma graphic_not_ws:
  "graphic c \<Longrightarrow> \<not> ws1 c" "graphic c \<Longrightarrow> \<not> ws2 c d" "graphic c \<Longrightarrow> \<not> ws3 c d e"
  "graphic c \<Longrightarrow> \<not> ws2 d c" "graphic c \<Longrightarrow> \<not> ws3 e d c"
  by (auto simp: graphic_def ws1_def ws2_def ws3_def)

lemma ws_len_graphic:
  assumes "graphic (hd s)"
  shows "ws_len ws2 ws3 s = 0" "ws_len (\<lambda>c d. ws2 d c) (\<lambda>c d e. ws3 e d c) s = 0"
  using assms by (cases s; auto simp: ws_len_0_iff graphic_not_ws)+

lemma trim_graphic [trim_simps]:
  assumes "list_all graphic s"
  shows "trim s = s"
proof (cases "s = []")
  case True
  then show ?thesis by (simp add: trim_def trim_end_def trim_start_def trim_ws_zero)
next
  case False
  with assms have "graphic (hd s)" "graphic (hd (rev s))"
    by (simp_all add: list_all_iff hd_rev)
  then show ?thesis
    by (simp add: trim_def trim_end_def trim_start_def trim_ws_zero ws_len_graphic)
qed

lemma trim_Nil [simp]: "trim [] = []"
  by (rule trim_graphic) simp

text \<open>\<open>trim_end_matches(c)\<close> and \<open>trim_start_matches(c)\<close> remove all repetitions of one character.\<close>

definition trim_start_matches :: "char \<Rightarrow> string \<Rightarrow> string" where
  "trim_start_matches c s = dropWhile (\<lambda>x. x = c) s"

definition trim_end_matches :: "char \<Rightarrow> string \<Rightarrow> string" where
  "trim_end_matches c s = rev (dropWhile (\<lambda>x. x = c) (rev s))"

lemma trim_end_matches_id: "s = [] \<or> last s \<noteq> c \<Longrightarrow> trim_end_matches c s = s"
  by (cases s rule: rev_cases) (auto simp: trim_end_matches_def)

lemma trim_end_matches_snoc:
  "trim_end_matches c (s @ [d]) = (if d = c then trim_end_matches c s else s @ [d])"
  by (simp add: trim_end_matches_def)

lemma trim_start_matches_id: "s = [] \<or> hd s \<noteq> c \<Longrightarrow> trim_start_matches c s = s"
  by (cases s) (auto simp: trim_start_matches_def)

section \<open>Prefixes, suffixes, substrings\<close>

definition starts_with :: "string \<Rightarrow> string \<Rightarrow> bool" where
  "starts_with s p \<longleftrightarrow> take (length p) s = p"

definition ends_with :: "string \<Rightarrow> string \<Rightarrow> bool" where
  "ends_with s t \<longleftrightarrow> length t \<le> length s \<and> drop (length s - length t) s = t"

definition strip_prefix :: "string \<Rightarrow> string \<Rightarrow> string option" where
  "strip_prefix s p = (if starts_with s p then Some (drop (length p) s) else None)"

definition strip_suffix :: "string \<Rightarrow> string \<Rightarrow> string option" where
  "strip_suffix s t = (if ends_with s t then Some (take (length s - length t) s) else None)"

definition contains_char :: "string \<Rightarrow> char \<Rightarrow> bool" where
  "contains_char s c \<longleftrightarrow> c \<in> set s"

fun contains_str :: "string \<Rightarrow> string \<Rightarrow> bool" where
  "contains_str [] p = (p = [])"
| "contains_str (c # s) p = (starts_with (c # s) p \<or> contains_str s p)"

lemma starts_with_iff: "starts_with s p \<longleftrightarrow> (\<exists>r. s = p @ r)"
  unfolding starts_with_def by (metis append_eq_conv_conj append_take_drop_id)

lemma ends_with_iff: "ends_with s t \<longleftrightarrow> (\<exists>r. s = r @ t)"
proof
  assume "ends_with s t"
  then have "s = take (length s - length t) s @ t"
    unfolding ends_with_def by (metis append_take_drop_id)
  then show "\<exists>r. s = r @ t" ..
qed (auto simp: ends_with_def)

lemma strip_prefix_Some_iff: "strip_prefix s p = Some r \<longleftrightarrow> s = p @ r"
  by (auto simp: strip_prefix_def starts_with_iff)

lemma strip_prefix_None_iff: "strip_prefix s p = None \<longleftrightarrow> (\<forall>r. s \<noteq> p @ r)"
  by (auto simp: strip_prefix_def starts_with_iff)

lemma strip_suffix_Some_iff: "strip_suffix s t = Some r \<longleftrightarrow> s = r @ t"
  by (auto simp: strip_suffix_def ends_with_iff)

lemma strip_suffix_None_iff: "strip_suffix s t = None \<longleftrightarrow> (\<forall>r. s \<noteq> r @ t)"
  by (auto simp: strip_suffix_def ends_with_iff)

lemma strip_prefix_append [simp]: "strip_prefix (p @ r) p = Some r"
  by (simp add: strip_prefix_Some_iff)

lemma strip_suffix_append [simp]: "strip_suffix (r @ t) t = Some r"
  by (simp add: strip_suffix_Some_iff)

lemma contains_str_iff: "contains_str s p \<longleftrightarrow> (\<exists>a b. s = a @ p @ b)"
proof (induction s)
  case (Cons c s)
  have "(\<exists>a b. c # s = a @ p @ b) \<longleftrightarrow> (\<exists>b. c # s = p @ b) \<or> (\<exists>a b. s = a @ p @ b)"
    by (metis append_Cons append_Nil neq_Nil_conv list.inject)
  with Cons show ?case by (simp add: starts_with_iff)
qed simp

section \<open>Splitting\<close>

text \<open>\<open>str::split(c)\<close>: one more part than separators, so never empty.\<close>

fun split_on :: "char \<Rightarrow> string \<Rightarrow> string list" where
  "split_on c [] = [[]]"
| "split_on c (x # s) =
     (if x = c then [] # split_on c s
      else (case split_on c s of [] \<Rightarrow> [[x]] | p # ps \<Rightarrow> (x # p) # ps))"

fun split_once :: "char \<Rightarrow> string \<Rightarrow> (string \<times> string) option" where
  "split_once c [] = None"
| "split_once c (x # s) =
     (if x = c then Some ([], s)
      else (case split_once c s of None \<Rightarrow> None | Some (a, b) \<Rightarrow> Some (x # a, b)))"

definition rsplit_once :: "char \<Rightarrow> string \<Rightarrow> (string \<times> string) option" where
  "rsplit_once c s = (case split_once c (rev s) of None \<Rightarrow> None | Some (a, b) \<Rightarrow> Some (rev b, rev a))"

text \<open>\<open>slice::join\<close>.\<close>

fun join_with :: "string \<Rightarrow> string list \<Rightarrow> string" where
  "join_with sep [] = []"
| "join_with sep [p] = p"
| "join_with sep (p # q # ps) = p @ sep @ join_with sep (q # ps)"

lemma split_on_neq_Nil [simp]: "split_on c s \<noteq> []"
  by (induction s) (auto split: list.splits)

lemma split_on_no_sep [split_simps]: "c \<notin> set s \<Longrightarrow> split_on c s = [s]"
  by (induction s) auto

lemma split_on_append [split_simps]:
  "c \<notin> set a \<Longrightarrow> split_on c (a @ c # b) = a # split_on c b"
  by (induction a) auto

lemma split_on_parts: "p \<in> set (split_on c s) \<Longrightarrow> c \<notin> set p \<and> set p \<subseteq> set s"
proof (induction s arbitrary: p)
  case (Cons x s)
  show ?case
  proof (cases "x = c")
    case False
    obtain q qs where sp: "split_on c s = q # qs"
      by (cases "split_on c s") auto
    with Cons.prems False have "p = x # q \<or> p \<in> set qs" by simp
    with Cons.IH [of q] Cons.IH [of p] sp False show ?thesis by auto
  qed (use Cons in auto)
qed simp

lemma join_split_on: "join_with [c] (split_on c s) = s"
proof (induction s)
  case (Cons x s)
  then show ?case
    by (cases "split_on c s"; cases "tl (split_on c s)") auto
qed simp

lemma split_once_None_iff: "split_once c s = None \<longleftrightarrow> c \<notin> set s"
  by (induction s) (auto split: option.splits)

lemma split_once_Some_iff: "split_once c s = Some (a, b) \<longleftrightarrow> s = a @ c # b \<and> c \<notin> set a"
proof (induction s arbitrary: a)
  case (Cons x s)
  show ?case
  proof (cases "x = c")
    case True
    then show ?thesis by (cases a) auto
  next
    case False
    then have "split_once c (x # s) = Some (a, b)
        \<longleftrightarrow> (\<exists>a'. a = x # a' \<and> split_once c s = Some (a', b))"
      by (auto split: option.splits)
    with Cons.IH False show ?thesis by (cases a) auto
  qed
qed simp

lemma split_once_append [split_simps]: "c \<notin> set a \<Longrightarrow> split_once c (a @ c # b) = Some (a, b)"
  by (simp add: split_once_Some_iff)

lemma rsplit_once_split: "rsplit_once c s = Some (a, b) \<longleftrightarrow> split_once c (rev s) = Some (rev b, rev a)"
  by (auto simp: rsplit_once_def split: option.splits prod.splits)

lemma rsplit_once_None_iff: "rsplit_once c s = None \<longleftrightarrow> c \<notin> set s"
  using split_once_None_iff [of c "rev s"]
  by (cases "split_once c (rev s)") (auto simp: rsplit_once_def)

lemma rsplit_once_Some_iff: "rsplit_once c s = Some (a, b) \<longleftrightarrow> s = a @ c # b \<and> c \<notin> set b"
proof -
  have "rev s = rev b @ c # rev a \<longleftrightarrow> s = a @ c # b"
    using rev_is_rev_conv [of s "a @ c # b"] by simp
  then show ?thesis
    by (simp add: rsplit_once_split split_once_Some_iff)
qed

section \<open>Printing and parsing unsigned integers\<close>

definition digit_char :: "nat \<Rightarrow> char" where
  "digit_char n = char_of (48 + n)"

definition digit_val :: "char \<Rightarrow> nat" where
  "digit_val c = char_code c - 48"

fun show_nat :: "nat \<Rightarrow> string" where
  "show_nat n = (if n < 10 then [digit_char n] else show_nat (n div 10) @ [digit_char (n mod 10)])"

declare show_nat.simps [simp del]

definition digits_val :: "string \<Rightarrow> nat" where
  "digits_val s = foldl (\<lambda>a c. 10 * a + digit_val c) 0 s"

text \<open>
  \<open>uN::from_str\<close>: an optional leading \<open>+\<close>, then one or more decimal digits whose value fits
  the type (\<open>mx\<close> is \<open>uN::MAX\<close>); anything else is an error.
\<close>

definition parse_uint :: "nat \<Rightarrow> string \<Rightarrow> nat option" where
  "parse_uint mx s =
     (let ds = (case s of [] \<Rightarrow> [] | c # r \<Rightarrow> if c = CHR ''+'' then r else s)
      in if ds = [] \<or> \<not> list_all is_digit ds then None
         else if digits_val ds \<le> mx then Some (digits_val ds) else None)"

definition parse_u16 :: "string \<Rightarrow> u16 option" where
  "parse_u16 s = map_option of_nat (parse_uint 65535 s)"

definition parse_u32 :: "string \<Rightarrow> u32 option" where
  "parse_u32 s = map_option of_nat (parse_uint 4294967295 s)"

definition parse_u64 :: "string \<Rightarrow> u64 option" where
  "parse_u64 s = map_option of_nat (parse_uint 18446744073709551615 s)"

definition show_word :: "'a::len word \<Rightarrow> string" where
  "show_word w = show_nat (unat w)"

lemma digit_char_facts:
  assumes "n < 10"
  shows "is_digit (digit_char n)" "digit_val (digit_char n) = n" "graphic (digit_char n)"
    "char_code (digit_char n) = 48 + n"
  using assms
  by (simp_all add: digit_char_def is_digit_def digit_val_def graphic_def char_code_char_of)

lemma show_nat_digits: "list_all is_digit (show_nat n) \<and> show_nat n \<noteq> []"
proof (induction n rule: show_nat.induct)
  case (1 n)
  then show ?case
    by (cases "n < 10") (simp_all add: show_nat.simps [of n] digit_char_facts)
qed

lemma digits_val_show: "digits_val (show_nat n) = n"
proof (induction n rule: show_nat.induct)
  case (1 n)
  then show ?case
    by (cases "n < 10") (simp_all add: show_nat.simps [of n] digits_val_def digit_char_facts)
qed

lemma show_nat_inj: "show_nat m = show_nat n \<longleftrightarrow> m = n"
  by (metis digits_val_show)

lemma is_digit_graphic: "is_digit c \<Longrightarrow> graphic c"
  by (simp add: is_digit_def graphic_def)

lemma is_digit_not: "is_digit c \<Longrightarrow> c \<noteq> CHR ''+''" "is_digit c \<Longrightarrow> c \<noteq> CHR ''.''"
  "is_digit c \<Longrightarrow> c \<noteq> CHR '':''" "is_digit c \<Longrightarrow> c \<noteq> CHR ''-''"
  by (auto simp: is_digit_def char_code_def)

lemma show_nat_graphic: "list_all graphic (show_nat n)"
  using show_nat_digits [of n] by (auto simp: list_all_iff is_digit_graphic)

lemma show_nat_not_sep:
  "CHR ''.'' \<notin> set (show_nat n)" "CHR '':'' \<notin> set (show_nat n)"
  using show_nat_digits [of n] is_digit_not(2,3) by (metis list_all_iff)+

lemma trim_show_nat [trim_simps]: "trim (show_nat n) = show_nat n"
  by (rule trim_graphic [OF show_nat_graphic])

lemma trim_show_word [trim_simps]: "trim (show_word w) = show_word w"
  by (simp add: show_word_def trim_show_nat)

lemma show_word_nonempty [simp]: "show_word w \<noteq> []"
  using show_nat_digits by (simp add: show_word_def)

lemma parse_uint_digits:
  "list_all is_digit ds \<Longrightarrow> ds \<noteq> [] \<Longrightarrow>
     parse_uint m ds = (if digits_val ds \<le> m then Some (digits_val ds) else None)"
  by (cases ds) (auto simp: parse_uint_def is_digit_not)

lemma parse_uint_show: "parse_uint m (show_nat n) = (if n \<le> m then Some n else None)"
  by (simp add: parse_uint_digits show_nat_digits digits_val_show)

lemma parse_uint_bound: "parse_uint m s = Some n \<Longrightarrow> n \<le> m"
  by (auto simp: parse_uint_def Let_def split: if_splits)

lemma unat_u16_le: "unat w \<le> 65535" for w :: u16
  using unsigned_less [of w, where 'a = nat] by simp

lemma unat_u32_le: "unat w \<le> 4294967295" for w :: u32
  using unsigned_less [of w, where 'a = nat] by simp

lemma unat_u64_le: "unat w \<le> 18446744073709551615" for w :: u64
  using unsigned_less [of w, where 'a = nat] by simp

lemma parse_u16_show [simp]: "parse_u16 (show_word w) = Some w"
  by (simp add: parse_u16_def show_word_def parse_uint_show unat_u16_le)

lemma parse_u32_show [simp]: "parse_u32 (show_word w) = Some w"
  by (simp add: parse_u32_def show_word_def parse_uint_show unat_u32_le)

lemma parse_u64_show [simp]: "parse_u64 (show_word w) = Some w"
  by (simp add: parse_u64_def show_word_def parse_uint_show unat_u64_le)

lemma parse_u64_unat: "parse_u64 s = Some w \<Longrightarrow> parse_uint 18446744073709551615 s = Some (unat w)"
  using parse_uint_bound [of 18446744073709551615 s]
  by (auto simp: parse_u64_def unat_of_nat less_Suc_eq_le [symmetric])

section \<open>IPv4 addresses\<close>

datatype ipv4 = Ipv4Addr u8 u8 u8 u8

fun octets :: "ipv4 \<Rightarrow> bytes" where
  "octets (Ipv4Addr a b c d) = [a, b, c, d]"

fun is_loopback :: "ipv4 \<Rightarrow> bool" where
  "is_loopback (Ipv4Addr a b c d) = (a = 127)"

fun show_ipv4 :: "ipv4 \<Rightarrow> string" where
  "show_ipv4 (Ipv4Addr a b c d) =
     show_word a @ ''.'' @ show_word b @ ''.'' @ show_word c @ ''.'' @ show_word d"

text \<open>
  \<open>Ipv4Addr::from_str\<close>: exactly four decimal parts of one to three digits without a leading
  zero, each at most 255.
\<close>

definition parse_octet :: "string \<Rightarrow> u8 option" where
  "parse_octet s =
     (if s \<noteq> [] \<and> length s \<le> 3 \<and> list_all is_digit s
         \<and> \<not> (1 < length s \<and> hd s = CHR ''0'') \<and> digits_val s \<le> 255
      then Some (of_nat (digits_val s)) else None)"

definition parse_ipv4 :: "string \<Rightarrow> ipv4 option" where
  "parse_ipv4 s = (case split_on CHR ''.'' s of
       [a, b, c, d] \<Rightarrow>
         (case (parse_octet a, parse_octet b, parse_octet c, parse_octet d) of
            (Some a', Some b', Some c', Some d') \<Rightarrow> Some (Ipv4Addr a' b' c' d')
          | _ \<Rightarrow> None)
     | _ \<Rightarrow> None)"

lemma show_nat_length: "n < 1000 \<Longrightarrow> length (show_nat n) \<le> 3"
  by (simp add: show_nat.simps [of n] show_nat.simps [of "n div 10"]
      show_nat.simps [of "n div 10 div 10"])

lemma digit_char_not_0: "0 < n \<Longrightarrow> n < 10 \<Longrightarrow> digit_char n \<noteq> CHR ''0''"
  using digit_char_facts(2) [of n] by (auto simp: digit_val_def char_code_def)

lemma hd_show_nat: "10 \<le> n \<Longrightarrow> hd (show_nat n) \<noteq> CHR ''0''"
proof (induction n rule: show_nat.induct)
  case (1 n)
  have ne: "show_nat (n div 10) \<noteq> []" using show_nat_digits by blast
  show ?case
  proof (cases "n div 10 < 10")
    case True
    with "1.prems" have "hd (show_nat n) = digit_char (n div 10)" "0 < n div 10"
      by (simp_all add: show_nat.simps [of n] show_nat.simps [of "n div 10"])
    with True show ?thesis by (metis digit_char_not_0)
  next
    case False
    with 1 ne show ?thesis by (simp add: show_nat.simps [of n])
  qed
qed

lemma parse_octet_show [simp]: "parse_octet (show_word w) = Some w"
proof -
  have le: "unat w \<le> 255" using unsigned_less [of w, where 'a = nat] by simp
  have "hd (show_nat (unat w)) \<noteq> CHR ''0''" if "1 < length (show_nat (unat w))"
    using that by (intro hd_show_nat) (simp add: show_nat.simps [of "unat w"] split: if_splits)
  with le show_nat_digits [of "unat w"] show_nat_length [of "unat w"] show ?thesis
    by (auto simp: parse_octet_def show_word_def digits_val_show)
qed

lemma show_word_no_dot: "CHR ''.'' \<notin> set (show_word w)" "CHR '':'' \<notin> set (show_word w)"
  by (simp_all add: show_word_def show_nat_not_sep)

lemma parse_show_ipv4 [simp]: "parse_ipv4 (show_ipv4 ip) = Some ip"
  by (cases ip) (simp add: parse_ipv4_def split_on_append split_on_no_sep show_word_no_dot)

lemma trim_show_ipv4 [trim_simps]: "trim (show_ipv4 ip) = show_ipv4 ip"
  by (rule trim_graphic, cases ip)
     (auto simp: show_word_def list_all_iff graphic_def char_code_def
       dest: show_nat_graphic [unfolded list_all_iff graphic_def char_code_def, rule_format])

text \<open>Evaluating the parsers and the trimming on literals.\<close>

lemmas str_eval = parse_u16_def parse_u32_def parse_u64_def parse_uint_def digits_val_def digit_val_def
  is_digit_def is_upper_def is_lower_def char_code_def trim_graphic graphic_def lower_char_def

end
