(* ===== verification/Codec.thy ===== *)
theory Codec
  imports RustStr
begin

text \<open>
  The interface of the two third-party codecs the sources call, \<open>data_encoding::BASE32_NOPAD\<close>
  and \<open>hex\<close>: a record of operations that the definitions of \<open>Label\<close> and \<open>Host\<close> take as an
  argument, the laws their documentation promises as the locale \<open>base_codecs\<close>, and the
  RFC 4648 algorithms as the instance the witnesses compute with.
\<close>

section \<open>The interface\<close>

record codec_ops =
  b32_encode :: "bytes \<Rightarrow> string"
  b32_decode :: "string \<Rightarrow> bytes option"
  hex_encode :: "bytes \<Rightarrow> string"
  hex_decode :: "string \<Rightarrow> bytes option"

definition is_b32_char :: "char \<Rightarrow> bool" where
  "is_b32_char c \<longleftrightarrow> is_upper c \<or> (50 \<le> char_code c \<and> char_code c \<le> 55)"

definition is_lower_hex :: "char \<Rightarrow> bool" where
  "is_lower_hex c \<longleftrightarrow> is_digit c \<or> (97 \<le> char_code c \<and> char_code c \<le> 102)"

locale base_codecs =
  fixes C :: codec_ops
  assumes b32_decode_encode: "b32_decode C (b32_encode C bs) = Some bs"
    and b32_canonical: "b32_decode C s = Some bs \<Longrightarrow> b32_encode C bs = s"
    and b32_length: "length (b32_encode C bs) = (8 * length bs + 4) div 5"
    and b32_alphabet: "list_all is_b32_char (b32_encode C bs)"
    and hex_decode_encode: "hex_decode C (hex_encode C bs) = Some bs"
    and hex_canonical: "hex_decode C h = Some bs \<Longrightarrow> hex_encode C bs = to_ascii_lowercase h"
    and hex_length: "length (hex_encode C bs) = 2 * length bs"
    and hex_alphabet: "list_all is_lower_hex (hex_encode C bs)"
    and hex_decode_None: "hex_decode C h = None \<longleftrightarrow> odd (length h) \<or> \<not> list_all is_hexdigit h"
begin

lemma b32_encode_inj: "b32_encode C a = b32_encode C b \<longleftrightarrow> a = b"
  by (metis b32_decode_encode option.inject)

lemma b32_decode_iff: "b32_decode C s = Some bs \<longleftrightarrow> s = b32_encode C bs"
  using b32_canonical b32_decode_encode by metis

lemma hex_encode_inj: "hex_encode C a = hex_encode C b \<longleftrightarrow> a = b"
  by (metis hex_decode_encode option.inject)

lemma hex_encode_lower: "to_ascii_lowercase (hex_encode C bs) = hex_encode C bs"
  using hex_canonical [OF hex_decode_encode] by simp

lemma hex_decode_iff: "hex_decode C h = Some bs \<longleftrightarrow> to_ascii_lowercase h = hex_encode C bs"
proof
  assume low: "to_ascii_lowercase h = hex_encode C bs"
  have "list_all is_hexdigit (hex_encode C bs)" "even (length (hex_encode C bs))"
    using hex_decode_None [of "hex_encode C bs"] hex_decode_encode by auto
  moreover have "length h = length (hex_encode C bs)"
    by (metis low to_ascii_lowercase_simps(4))
  ultimately have "list_all is_hexdigit (to_ascii_lowercase h)" "even (length h)"
    by (simp_all only: low)
  moreover have "is_hexdigit (lower_char c) \<longleftrightarrow> is_hexdigit c" for c
    by (auto simp: is_hexdigit_def is_digit_def is_upper_def char_code_lower)
  ultimately obtain bs' where "hex_decode C h = Some bs'"
    using hex_decode_None [of h]
    by (cases "hex_decode C h") (auto simp: to_ascii_lowercase_def list.pred_map comp_def)
  with hex_canonical low hex_encode_inj show "hex_decode C h = Some bs" by metis
qed (rule hex_canonical [symmetric])

end

section \<open>RFC 4648\<close>

text \<open>Bits, most significant first.\<close>

fun bits_nat :: "bool list \<Rightarrow> nat" where
  "bits_nat [] = 0"
| "bits_nat (b # bs) = (if b then 2 ^ length bs else 0) + bits_nat bs"

fun bits_of :: "nat \<Rightarrow> nat \<Rightarrow> bool list" where
  "bits_of 0 n = []"
| "bits_of (Suc k) n = odd (n div 2 ^ k) # bits_of k n"

lemma bits_nat_less: "bits_nat bs < 2 ^ length bs"
  by (induction bs) auto

lemma length_bits_of [simp]: "length (bits_of k n) = k"
  by (induction k) auto

lemma bits_of_add: "k \<le> m \<Longrightarrow> bits_of k (2 ^ m + n) = bits_of k n"
proof (induction k)
  case (Suc k)
  then obtain j where "m = Suc k + j" by (metis le_Suc_ex)
  then have "(2 ^ m + n) = n + 2 ^ k * (2 * 2 ^ j)"
    by (simp add: power_add)
  then have "(2 ^ m + n) div 2 ^ k = 2 * 2 ^ j + n div 2 ^ k"
    by simp
  with Suc show ?case by simp
qed simp

lemma bits_of_bits_nat: "bits_of (length bs) (bits_nat bs) = bs"
proof (induction bs)
  case (Cons b bs)
  then show ?case
    using bits_nat_less [of bs] by (simp add: bits_of_add div_add1_eq)
qed simp

lemma bits_nat_bits_of: "n < 2 ^ k \<Longrightarrow> bits_nat (bits_of k n) = n"
proof (induction k arbitrary: n)
  case (Suc k)
  show ?case
  proof (cases "n < 2 ^ k")
    case False
    then obtain r where n: "n = 2 ^ k + r" "r < 2 ^ k"
      using Suc.prems by (metis le_Suc_ex not_le nat_add_left_cancel_less mult_2 power_Suc)
    then have "n div 2 ^ k = 1"
      by (simp add: div_add_self1)
    with Suc.IH [OF n(2)] n(1) show ?thesis by (simp add: bits_of_add)
  qed (use Suc in simp)
qed simp

definition byte_bits :: "u8 \<Rightarrow> bool list" where
  "byte_bits b = bits_of 8 (unat b)"

definition bits_byte :: "bool list \<Rightarrow> u8" where
  "bits_byte bs = of_nat (bits_nat bs)"

lemma length_byte_bits [simp]: "length (byte_bits b) = 8"
  by (simp add: byte_bits_def)

lemma bits_byte_bits [simp]: "bits_byte (byte_bits b) = b"
  using unsigned_less [of b, where 'a = nat]
  by (simp add: bits_byte_def byte_bits_def bits_nat_bits_of)

lemma byte_bits_byte: "length bs = 8 \<Longrightarrow> byte_bits (bits_byte bs) = bs"
  using bits_nat_less [of bs] bits_of_bits_nat [of bs]
  by (simp add: bits_byte_def byte_bits_def unat_of_nat)

text \<open>A base32 symbol stands for five bits.\<close>

definition sym5 :: "bool list \<Rightarrow> char" where
  "sym5 v = ''ABCDEFGHIJKLMNOPQRSTUVWXYZ234567'' ! bits_nat v"

definition val5 :: "char \<Rightarrow> bool list option" where
  "val5 c = (if is_upper c then Some (bits_of 5 (char_code c - 65))
     else if 50 \<le> char_code c \<and> char_code c \<le> 55 then Some (bits_of 5 (char_code c - 24))
     else None)"

lemma alphabet_code:
  "n < 32 \<Longrightarrow> char_code (''ABCDEFGHIJKLMNOPQRSTUVWXYZ234567'' ! n) = (if n < 26 then 65 + n else 24 + n)"
proof -
  have "list_all (\<lambda>n. char_code (''ABCDEFGHIJKLMNOPQRSTUVWXYZ234567'' ! n)
      = (if n < 26 then 65 + n else 24 + n)) [0..<32]"
    by (simp add: char_code_def upt_conv_Cons)
  then show "n < 32 \<Longrightarrow> ?thesis" by (simp add: list_all_iff)
qed

lemma char_code_sym5:
  assumes "length v = 5"
  shows "char_code (sym5 v) = (if bits_nat v < 26 then 65 + bits_nat v else 24 + bits_nat v)"
    "bits_nat v < 32"
  using bits_nat_less [of v] assms by (simp_all add: sym5_def alphabet_code)

lemma val5_sym5: "length v = 5 \<Longrightarrow> val5 (sym5 v) = Some v"
  using char_code_sym5 [of v] bits_of_bits_nat [of v]
  by (auto simp: val5_def is_upper_def)

lemma sym5_b32_char: "length v = 5 \<Longrightarrow> is_b32_char (sym5 v)"
  using char_code_sym5 [of v] by (auto simp: is_b32_char_def is_upper_def)

lemma sym5_val5: "val5 c = Some v \<Longrightarrow> length v = 5 \<and> sym5 v = c"
  unfolding char_code_inj [symmetric]
  by (auto simp: val5_def char_code_sym5 is_upper_def bits_nat_bits_of
      simp del: char_code_inj split: if_splits)

function enc5 :: "bool list \<Rightarrow> string" where
  "enc5 xs = (if xs = [] then [] else sym5 (take 5 (xs @ replicate 4 False)) # enc5 (drop 5 xs))"
  by pat_completeness auto
termination by (relation "measure length") auto

function bytes_of_bits :: "bool list \<Rightarrow> bytes option" where
  "bytes_of_bits xs =
     (if length xs < 8 then (if length xs < 5 \<and> list_all Not xs then Some [] else None)
      else map_option (Cons (bits_byte (take 8 xs))) (bytes_of_bits (drop 8 xs)))"
  by pat_completeness auto
termination by (relation "measure length") auto

declare enc5.simps [simp del] bytes_of_bits.simps [simp del]

fun dec5 :: "string \<Rightarrow> bool list option" where
  "dec5 [] = Some []"
| "dec5 (c # s) = (case val5 c of None \<Rightarrow> None | Some v \<Rightarrow> map_option ((@) v) (dec5 s))"

definition rfc_b32_encode :: "bytes \<Rightarrow> string" where
  "rfc_b32_encode bs = enc5 (concat (map byte_bits bs))"

definition rfc_b32_decode :: "string \<Rightarrow> bytes option" where
  "rfc_b32_decode s = (case dec5 s of None \<Rightarrow> None | Some xs \<Rightarrow> bytes_of_bits xs)"

lemma enc5_Nil [simp]: "enc5 [] = []"
  by (simp add: enc5.simps)

lemma enc5_short:
  "xs \<noteq> [] \<Longrightarrow> length xs < 5 \<Longrightarrow> enc5 xs = [sym5 (xs @ replicate (5 - length xs) False)]"
  by (cases xs) (simp_all add: enc5.simps)

lemma enc5_long: "5 \<le> length xs \<Longrightarrow> enc5 xs = sym5 (take 5 xs) # enc5 (drop 5 xs)"
  by (subst enc5.simps) auto

lemma enc5_induct [case_names Nil short long]:
  fixes P :: "bool list \<Rightarrow> bool"
  assumes "P []" "\<And>xs. xs \<noteq> [] \<Longrightarrow> length xs < 5 \<Longrightarrow> P xs"
    "\<And>xs. 5 \<le> length xs \<Longrightarrow> P (drop 5 xs) \<Longrightarrow> P xs"
  shows "P xs"
  by (induction xs rule: enc5.induct) (metis assms not_le)

lemma dec5_enc5: "\<exists>k<5. dec5 (enc5 xs) = Some (xs @ replicate k False)"
proof (induction xs rule: enc5_induct)
  case (short xs)
  then have "dec5 (enc5 xs) = Some (xs @ replicate (5 - length xs) False)"
    by (simp add: enc5_short val5_sym5)
  moreover from short have "5 - length xs < 5" by (cases xs) auto
  ultimately show ?case by blast
next
  case (long xs)
  then obtain k where k: "k < 5" "dec5 (enc5 (drop 5 xs)) = Some (drop 5 xs @ replicate k False)"
    by blast
  have "take 5 xs @ drop 5 xs @ replicate k False = xs @ replicate k False"
    by (metis append.assoc append_take_drop_id)
  with long k have "dec5 (enc5 xs) = Some (xs @ replicate k False)"
    by (simp add: enc5_long val5_sym5)
  with k show ?case by blast
qed auto

lemma enc5_dec5: "dec5 s = Some xs \<Longrightarrow> enc5 xs = s \<and> length xs = 5 * length s"
proof (induction s arbitrary: xs)
  case (Cons c s)
  then obtain v ys where v: "val5 c = Some v" "dec5 s = Some ys" "xs = v @ ys"
    by (auto split: option.splits)
  with sym5_val5 [OF v(1)] Cons.IH [OF v(2)] show ?case
    by (auto simp: enc5_long)
qed simp

lemma enc5_pad:
  "k < 5 \<Longrightarrow> (length xs + k) mod 5 = 0 \<Longrightarrow> enc5 (xs @ replicate k False) = enc5 xs"
proof (induction xs rule: enc5_induct)
  case (short xs)
  then have "0 < length xs" by simp
  with short(2-4) have k: "length xs + k = 5" by presburger
  then have k': "5 - length xs = k" by simp
  with k have "enc5 (xs @ replicate k False) = [sym5 (xs @ replicate k False)]"
    by (simp add: enc5_long)
  with short(1,2) k' show ?case by (metis enc5_short)
next
  case (long xs)
  then have "(length (drop 5 xs) + k) mod 5 = 0" by simp presburger
  with long show ?case by (simp add: enc5_long)
qed simp

lemma length_enc5: "length (enc5 xs) = (length xs + 4) div 5"
proof (induction xs rule: enc5_induct)
  case (short xs)
  then have "0 < length xs" by simp
  with short(2) have "(length xs + 4) div 5 = 1" by presburger
  with short show ?case by (simp add: enc5_short)
next
  case (long xs)
  then show ?case by (simp add: enc5_long)
qed simp

lemma enc5_alphabet: "list_all is_b32_char (enc5 xs)"
  by (induction xs rule: enc5_induct) (simp_all add: enc5_short enc5_long sym5_b32_char)

lemma bytes_of_bits_short:
  "length xs < 8 \<Longrightarrow> bytes_of_bits xs = (if length xs < 5 \<and> list_all Not xs then Some [] else None)"
  by (subst bytes_of_bits.simps) simp

lemma bytes_of_bits_long:
  "8 \<le> length xs \<Longrightarrow>
     bytes_of_bits xs = map_option (Cons (bits_byte (take 8 xs))) (bytes_of_bits (drop 8 xs))"
  by (subst bytes_of_bits.simps) simp

lemma bytes_of_bits_pad: "k < 5 \<Longrightarrow> bytes_of_bits (concat (map byte_bits bs) @ replicate k False) = Some bs"
  by (induction bs) (simp_all add: bytes_of_bits_short bytes_of_bits_long list_all_iff)

lemma bytes_of_bits_Some:
  "bytes_of_bits xs = Some bs \<Longrightarrow> \<exists>k<5. xs = concat (map byte_bits bs) @ replicate k False"
proof (induction xs arbitrary: bs rule: bytes_of_bits.induct)
  case (1 xs)
  show ?case
  proof (cases "length xs < 8")
    case True
    with "1.prems" have "length xs < 5" "list_all Not xs" "bs = []"
      by (auto simp: bytes_of_bits_short split: if_splits)
    moreover from this(2) have "xs = replicate (length xs) False"
      by (induction xs) auto
    ultimately show ?thesis by (intro exI [of _ "length xs"]) simp
  next
    case False
    with "1.prems" obtain bs' where b: "bytes_of_bits (drop 8 xs) = Some bs'"
      "bs = bits_byte (take 8 xs) # bs'"
      by (auto simp: bytes_of_bits_long)
    from "1.IH" [OF False b(1)] obtain k where
      k: "k < 5" "drop 8 xs = concat (map byte_bits bs') @ replicate k False" by blast
    have "xs = take 8 xs @ concat (map byte_bits bs') @ replicate k False"
      by (metis append_take_drop_id k(2))
    with False b k(1) show ?thesis by (auto simp: byte_bits_byte)
  qed
qed

lemma length_concat_bits: "length (concat (map byte_bits bs)) = 8 * length bs"
  by (induction bs) auto

lemma rfc_b32_roundtrip: "rfc_b32_decode (rfc_b32_encode bs) = Some bs"
  using dec5_enc5 [of "concat (map byte_bits bs)"]
  by (auto simp: rfc_b32_decode_def rfc_b32_encode_def bytes_of_bits_pad)

lemma rfc_b32_canonical: "rfc_b32_decode s = Some bs \<Longrightarrow> rfc_b32_encode bs = s"
proof -
  assume "rfc_b32_decode s = Some bs"
  then obtain xs where xs: "dec5 s = Some xs" "bytes_of_bits xs = Some bs"
    by (auto simp: rfc_b32_decode_def split: option.splits)
  from bytes_of_bits_Some [OF xs(2)] obtain k where
    k: "k < 5" "xs = concat (map byte_bits bs) @ replicate k False" by blast
  with enc5_dec5 [OF xs(1)] have "(length (concat (map byte_bits bs)) + k) mod 5 = 0"
    by (metis length_append length_replicate mod_mult_self1_is_0)
  from enc5_pad [OF k(1) this] enc5_dec5 [OF xs(1)] k(2) show ?thesis
    by (simp add: rfc_b32_encode_def)
qed

text \<open>Hex, lower case on output, either case on input.\<close>

definition hex_sym :: "nat \<Rightarrow> char" where
  "hex_sym n = ''0123456789abcdef'' ! n"

definition hex_val :: "char \<Rightarrow> nat option" where
  "hex_val c = (if is_digit c then Some (char_code c - 48)
     else if 97 \<le> char_code c \<and> char_code c \<le> 102 then Some (char_code c - 87)
     else if 65 \<le> char_code c \<and> char_code c \<le> 70 then Some (char_code c - 55) else None)"

definition rfc_hex_encode :: "bytes \<Rightarrow> string" where
  "rfc_hex_encode bs = concat (map (\<lambda>b. [hex_sym (unat b div 16), hex_sym (unat b mod 16)]) bs)"

definition hex_byte :: "nat \<Rightarrow> nat \<Rightarrow> u8" where
  "hex_byte x y = of_nat (16 * x + y)"

fun rfc_hex_decode :: "string \<Rightarrow> bytes option" where
  "rfc_hex_decode [] = Some []"
| "rfc_hex_decode [c] = None"
| "rfc_hex_decode (c # d # s) = (case (hex_val c, hex_val d) of
      (Some x, Some y) \<Rightarrow> map_option (Cons (hex_byte x y)) (rfc_hex_decode s)
    | _ \<Rightarrow> None)"

lemma hex_sym_code: "n < 16 \<Longrightarrow> char_code (hex_sym n) = (if n < 10 then 48 + n else 87 + n)"
proof -
  have "list_all (\<lambda>n. char_code (hex_sym n) = (if n < 10 then 48 + n else 87 + n)) [0..<16]"
    by (simp add: char_code_def hex_sym_def upt_conv_Cons)
  then show "n < 16 \<Longrightarrow> ?thesis" by (simp add: list_all_iff)
qed

lemma hex_val_sym: "n < 16 \<Longrightarrow> hex_val (hex_sym n) = Some n"
  by (auto simp: hex_val_def hex_sym_code is_digit_def)

lemma hex_sym_lower: "n < 16 \<Longrightarrow> is_lower_hex (hex_sym n)"
  by (auto simp: is_lower_hex_def hex_sym_code is_digit_def)

lemma hex_sym_val: "hex_val c = Some n \<Longrightarrow> n < 16 \<and> hex_sym n = lower_char c"
  unfolding char_code_inj [symmetric]
  by (auto simp: hex_val_def hex_sym_code is_digit_def is_upper_def char_code_lower
      simp del: char_code_inj split: if_splits)

lemma hex_val_None: "hex_val c = None \<longleftrightarrow> \<not> is_hexdigit c"
  by (auto simp: hex_val_def is_hexdigit_def)

lemma u8_unat_less: "unat b < 256" for b :: u8
  using unsigned_less [of b, where 'a = nat] by simp

lemma unat_hex_byte: "x < 16 \<Longrightarrow> y < 16 \<Longrightarrow> unat (hex_byte x y) = 16 * x + y"
  unfolding hex_byte_def by (subst unat_of_nat) simp

lemma hex_byte_div_mod [simp]: "hex_byte (unat b div 16) (unat b mod 16) = b"
  by (simp add: hex_byte_def del: of_nat_add of_nat_mult)

lemma rfc_hex_roundtrip: "rfc_hex_decode (rfc_hex_encode bs) = Some bs"
proof (induction bs)
  case (Cons b bs)
  have "unat b div 16 < 16"
    using u8_unat_less [of b] by simp
  with Cons show ?case
    by (simp add: rfc_hex_encode_def hex_val_sym)
qed (simp add: rfc_hex_encode_def)

lemma rfc_hex_canonical: "rfc_hex_decode h = Some bs \<Longrightarrow> rfc_hex_encode bs = to_ascii_lowercase h"
proof (induction h arbitrary: bs rule: rfc_hex_decode.induct)
  case (3 c d s)
  then obtain x y bs' where x: "hex_val c = Some x" "hex_val d = Some y"
    "rfc_hex_decode s = Some bs'" "bs = hex_byte x y # bs'"
    by (auto split: option.splits)
  with 3 hex_sym_val [OF x(1)] hex_sym_val [OF x(2)] show ?case
    by (simp add: rfc_hex_encode_def unat_hex_byte)
qed (auto simp: rfc_hex_encode_def)

lemma rfc_hex_None: "rfc_hex_decode h = None \<longleftrightarrow> odd (length h) \<or> \<not> list_all is_hexdigit h"
  by (induction h rule: rfc_hex_decode.induct)
     (auto simp flip: hex_val_None split: option.splits)

lemma rfc_hex_alphabet: "list_all is_lower_hex (rfc_hex_encode bs)"
proof -
  have "unat b div 16 < 16" for b :: u8
    using u8_unat_less [of b] by simp
  then show ?thesis
    by (induction bs) (simp_all add: rfc_hex_encode_def hex_sym_lower)
qed

lemma rfc_hex_length: "length (rfc_hex_encode bs) = 2 * length bs"
  by (induction bs) (simp_all add: rfc_hex_encode_def)

definition rfc_codecs :: codec_ops where
  "rfc_codecs = \<lparr>b32_encode = rfc_b32_encode, b32_decode = rfc_b32_decode,
     hex_encode = rfc_hex_encode, hex_decode = rfc_hex_decode\<rparr>"

interpretation rfc: base_codecs rfc_codecs
proof unfold_locales
  show "length (b32_encode rfc_codecs bs) = (8 * length bs + 4) div 5" for bs
    by (simp add: rfc_codecs_def rfc_b32_encode_def length_enc5 length_concat_bits)
  show "list_all is_b32_char (b32_encode rfc_codecs bs)" for bs
    by (simp add: rfc_codecs_def rfc_b32_encode_def enc5_alphabet)
  show "b32_decode rfc_codecs s = Some bs \<Longrightarrow> b32_encode rfc_codecs bs = s" for s bs
    by (simp add: rfc_codecs_def rfc_b32_canonical)
qed (simp_all add: rfc_codecs_def rfc_b32_roundtrip rfc_hex_roundtrip rfc_hex_canonical
      rfc_hex_length rfc_hex_alphabet rfc_hex_None)

end
