(* ===== verification/Label.thy ===== *)
theory Label
  imports Codec
begin

text \<open>
  \<open>src/label.rs\<close>: the codec between a 32-byte store id, its 64 hex digits and its 52-character
  base32 DNS label. A \<open>[u8; 32]\<close> is a byte list of length 32.
\<close>

definition STORE_ID_LEN :: nat where "STORE_ID_LEN = 32"
definition LABEL_LEN :: nat where "LABEL_LEN = 52"

datatype label_error =
    WrongLabelLength nat
  | NotBase32
  | WrongDecodedLength nat
  | WrongHexLength nat
  | NotHex

definition store_bytes_to_label :: "codec_ops \<Rightarrow> bytes \<Rightarrow> string" where
  "store_bytes_to_label C sid = to_ascii_lowercase (b32_encode C sid)"

definition store_hex_to_label :: "codec_ops \<Rightarrow> string \<Rightarrow> label_error + string" where
  "store_hex_to_label C store_hex =
     (if length store_hex \<noteq> STORE_ID_LEN * 2 then Err (WrongHexLength (length store_hex))
      else (case hex_decode C store_hex of
          None \<Rightarrow> Err NotHex
        | Some v \<Rightarrow>
            if length v = STORE_ID_LEN then Ok (store_bytes_to_label C v)
            else Err (WrongHexLength (length v * 2))))"

definition label_to_store_bytes :: "codec_ops \<Rightarrow> string \<Rightarrow> label_error + bytes" where
  "label_to_store_bytes C label =
     (if length label \<noteq> LABEL_LEN then Err (WrongLabelLength (length label))
      else (case b32_decode C (to_ascii_uppercase label) of
          None \<Rightarrow> Err NotBase32
        | Some v \<Rightarrow>
            if length v = STORE_ID_LEN then Ok v else Err (WrongDecodedLength (length v))))"

definition label_to_store_hex :: "codec_ops \<Rightarrow> string \<Rightarrow> label_error + string" where
  "label_to_store_hex C label = rbind (label_to_store_bytes C label) (\<lambda>v. Ok (hex_encode C v))"

definition is_valid_label :: "codec_ops \<Rightarrow> string \<Rightarrow> bool" where
  "is_valid_label C label = is_ok (label_to_store_bytes C label)"

section \<open>The codec under the laws of its libraries\<close>

lemmas label_defs = store_bytes_to_label_def label_to_store_bytes_def STORE_ID_LEN_def LABEL_LEN_def

text \<open>A character of a label as this code writes it: \<open>a-z\<close> or \<open>2-7\<close>.\<close>

definition is_label_char :: "char \<Rightarrow> bool" where
  "is_label_char c \<longleftrightarrow> is_lower c \<or> (50 \<le> char_code c \<and> char_code c \<le> 55)"

lemma lower_b32_char: "is_b32_char c \<Longrightarrow> is_label_char (lower_char c)"
  by (auto simp: is_b32_char_def is_label_char_def is_lower_def is_upper_def char_code_lower)

lemma upper_b32_char: "is_b32_char c \<Longrightarrow> upper_char c = c"
  by (rule upper_char_not_lower) (auto simp: is_b32_char_def is_lower_def is_upper_def)

context base_codecs
begin

lemma upper_b32_encode: "to_ascii_uppercase (b32_encode C bs) = b32_encode C bs"
  using b32_alphabet [of bs]
  by (auto simp: to_ascii_uppercase_def list_all_iff upper_b32_char intro: map_idI)

lemma label_length: "length sid = 32 \<Longrightarrow> length (store_bytes_to_label C sid) = 52"
  by (simp add: store_bytes_to_label_def b32_length)

lemma label_alphabet: "list_all is_label_char (store_bytes_to_label C sid)"
  using b32_alphabet [of sid]
  by (auto simp: store_bytes_to_label_def to_ascii_lowercase_def list_all_iff lower_b32_char)

lemma decoded_length:
  assumes "b32_decode C s = Some v" "length s = 52"
  shows "length v = 32"
proof -
  from assms have "(8 * length v + 4) div 5 = 52"
    by (metis b32_canonical b32_length)
  then show ?thesis by presburger
qed

lemma label_to_store_bytes_Ok_iff:
  "label_to_store_bytes C l = Ok sid
     \<longleftrightarrow> length sid = 32 \<and> to_ascii_lowercase l = store_bytes_to_label C sid"
proof
  assume "label_to_store_bytes C l = Ok sid"
  then have d: "b32_decode C (to_ascii_uppercase l) = Some sid" "length sid = 32"
    by (auto simp: label_defs split: if_splits option.splits)
  then have "to_ascii_lowercase (to_ascii_uppercase l) = to_ascii_lowercase (b32_encode C sid)"
    using b32_canonical by simp
  with d show "length sid = 32 \<and> to_ascii_lowercase l = store_bytes_to_label C sid"
    by (simp add: store_bytes_to_label_def)
next
  assume r: "length sid = 32 \<and> to_ascii_lowercase l = store_bytes_to_label C sid"
  then have "to_ascii_uppercase (to_ascii_lowercase l) = b32_encode C sid"
    by (simp add: store_bytes_to_label_def upper_b32_encode)
  then have d: "b32_decode C (to_ascii_uppercase l) = Some sid"
    by (simp add: b32_decode_encode)
  have "length l = 52"
    using r label_length by (metis to_ascii_lowercase_simps(4))
  with d r show "label_to_store_bytes C l = Ok sid"
    by (simp add: label_defs)
qed

lemma label_to_store_bytes_Err_iff:
  "label_to_store_bytes C l = Err e \<longleftrightarrow>
     (length l \<noteq> 52 \<and> e = WrongLabelLength (length l))
   \<or> (length l = 52 \<and> b32_decode C (to_ascii_uppercase l) = None \<and> e = NotBase32)"
  using decoded_length [of "to_ascii_uppercase l"]
  by (auto simp: label_defs split: option.splits)

lemma label_chars:
  assumes "label_to_store_bytes C l = Ok sid" "c \<in> set l"
  shows "is_label_char (lower_char c)"
proof -
  from assms(1) have "to_ascii_lowercase l = store_bytes_to_label C sid"
    by (simp add: label_to_store_bytes_Ok_iff)
  with label_alphabet [of sid] assms(2) show ?thesis
    by (metis (mono_tags) image_eqI list_all_iff list.set_map to_ascii_lowercase_def)
qed

lemma label_no_sep:
  assumes "label_to_store_bytes C l = Ok sid"
  shows "CHR ''.'' \<notin> set l" "CHR '':'' \<notin> set l" "l \<noteq> []"
proof -
  have "\<not> is_label_char (lower_char CHR ''.'')" "\<not> is_label_char (lower_char CHR '':'')"
    by (simp_all add: is_label_char_def is_lower_def lower_char_def is_upper_def char_code_def)
  with label_chars [OF assms] show "CHR ''.'' \<notin> set l" "CHR '':'' \<notin> set l" by blast+
  from assms show "l \<noteq> []" by (auto simp: label_defs split: if_splits)
qed

lemma label_roundtrip: "length sid = 32 \<Longrightarrow> label_to_store_bytes C (store_bytes_to_label C sid) = Ok sid"
  using label_to_store_bytes_Ok_iff by (simp add: store_bytes_to_label_def)

lemma label_to_store_hex_Ok_iff:
  "label_to_store_hex C l = Ok h \<longleftrightarrow>
     (\<exists>sid. length sid = 32 \<and> h = hex_encode C sid \<and> to_ascii_lowercase l = store_bytes_to_label C sid)"
  by (auto simp: label_to_store_hex_def rbind_Ok_iff label_to_store_bytes_Ok_iff)

lemma label_to_store_hex_no_sep:
  assumes "label_to_store_hex C l = Ok h"
  shows "CHR ''.'' \<notin> set l" "CHR '':'' \<notin> set l" "l \<noteq> []"
  using assms by (auto simp: label_to_store_hex_def rbind_Ok_iff dest: label_no_sep)

lemma store_hex_to_label_Ok_iff:
  "store_hex_to_label C h = Ok l \<longleftrightarrow>
     (\<exists>sid. length sid = 32 \<and> to_ascii_lowercase h = hex_encode C sid \<and> l = store_bytes_to_label C sid)"
proof -
  have "length h = 64" if "to_ascii_lowercase h = hex_encode C sid" "length sid = 32" for sid
    using that hex_length [of sid] by (metis to_ascii_lowercase_simps(4) mult_2 numeral_Bit0)
  then show ?thesis
    by (auto simp: store_hex_to_label_def STORE_ID_LEN_def hex_decode_iff [symmetric]
        split: option.splits)
qed

lemma store_hex_roundtrip:
  assumes "store_hex_to_label C h = Ok l"
  shows "label_to_store_hex C l = Ok (to_ascii_lowercase h)"
  using assms label_roundtrip
  by (auto simp: store_hex_to_label_Ok_iff label_to_store_hex_def)

lemma store_hex_to_label_Err_iff:
  "store_hex_to_label C h = Err e \<longleftrightarrow>
     (length h \<noteq> 64 \<and> e = WrongHexLength (length h))
   \<or> (length h = 64 \<and> \<not> list_all is_hexdigit h \<and> e = NotHex)"
proof -
  have "length v = 32" if "hex_decode C h = Some v" "length h = 64" for v
    using that hex_length [of v] hex_canonical [of h v] by simp
  with hex_decode_None [of h] show ?thesis
    by (auto simp: store_hex_to_label_def STORE_ID_LEN_def split: option.splits)
qed

lemma hex_of_label_shape:
  assumes "label_to_store_hex C l = Ok h"
  shows "length h = 64" "list_all is_hexdigit h"
proof -
  from assms obtain sid where sid: "length sid = 32" "h = hex_encode C sid"
    by (auto simp: label_to_store_hex_Ok_iff)
  with hex_length show "length h = 64" by simp
  show "list_all is_hexdigit h"
    using hex_decode_None [of h] hex_decode_encode [of sid] sid by simp
qed

end

section \<open>Properties\<close>

text \<open>A concrete id for the witnesses: 31 zero bytes and a one.\<close>

definition demo_id :: bytes where
  "demo_id = replicate 31 0 @ [1]"

definition demo_label :: string where
  "demo_label = replicate 50 CHR ''a'' @ ''aq''"

definition demo_hex :: string where
  "demo_hex = replicate 63 CHR ''0'' @ ''1''"

lemma demo_label_eval: "store_bytes_to_label rfc_codecs demo_id = demo_label"
  by code_simp

lemma demo_hex_eval: "hex_encode rfc_codecs demo_id = demo_hex"
  by code_simp

lemma demo_lower_eval:
  "to_ascii_lowercase (to_ascii_uppercase demo_label) = demo_label"
  "to_ascii_lowercase demo_hex = demo_hex"
  by code_simp+

lemma demo_label_lower: "to_ascii_lowercase demo_label = demo_label"
  by (metis demo_lower_eval(1) to_ascii_lowercase_simps(5))

lemma demo_id_length: "length demo_id = 32"
  by (simp add: demo_id_def)

text \<open>Decoding a label succeeds exactly on the case variants of the label that encoding
  writes, and gives back the encoded id: the codec is a bijection between 32-byte ids and labels
  up to ASCII case.\<close>

theorem label_decode_iff:
  assumes "base_codecs C"
  shows "label_to_store_bytes C l = Ok sid
    \<longleftrightarrow> length sid = STORE_ID_LEN \<and> to_ascii_lowercase l = store_bytes_to_label C sid"
  using base_codecs.label_to_store_bytes_Ok_iff [OF assms] by (simp add: STORE_ID_LEN_def)

theorem label_decode_iff_witness:
  "label_to_store_bytes rfc_codecs (to_ascii_uppercase demo_label) = Ok demo_id"
  using label_decode_iff [OF rfc.base_codecs_axioms, of "to_ascii_uppercase demo_label" demo_id]
    demo_label_eval demo_id_length demo_lower_eval(1)
  by (simp only: STORE_ID_LEN_def)

text \<open>The errors of decoding: a label that does not have 52 characters is rejected with its
  length, any other undecodable label as not base32, and \<open>WrongDecodedLength\<close> never occurs.\<close>

theorem label_decode_errors:
  assumes "base_codecs C"
  shows "label_to_store_bytes C l = Err e \<longleftrightarrow>
     (length l \<noteq> LABEL_LEN \<and> e = WrongLabelLength (length l))
   \<or> (length l = LABEL_LEN \<and> b32_decode C (to_ascii_uppercase l) = None \<and> e = NotBase32)"
  using base_codecs.label_to_store_bytes_Err_iff [OF assms] by (simp add: LABEL_LEN_def)

theorem label_decode_errors_witness:
  "label_to_store_bytes rfc_codecs ''abc'' = Err (WrongLabelLength 3)"
  using label_decode_errors [OF rfc.base_codecs_axioms, of "''abc''"] by (simp add: LABEL_LEN_def)

text \<open>Hex store ids and labels: encoding accepts exactly the 64-digit hex strings (a wrong
  length and a non-hex digit have their own errors), and decoding the label gives the store id
  back in lower case.\<close>

theorem store_hex_label_roundtrip:
  assumes "base_codecs C"
  shows "(case store_hex_to_label C h of
       Ok l \<Rightarrow> length h = 64 \<and> list_all is_hexdigit h
         \<and> length l = LABEL_LEN \<and> label_to_store_hex C l = Ok (to_ascii_lowercase h)
     | Err e \<Rightarrow> (length h \<noteq> 64 \<and> e = WrongHexLength (length h))
         \<or> (length h = 64 \<and> \<not> list_all is_hexdigit h \<and> e = NotHex))"
proof (cases "store_hex_to_label C h")
  case (Inl e)
  then have "(length h \<noteq> 64 \<and> e = WrongHexLength (length h))
      \<or> (length h = 64 \<and> \<not> list_all is_hexdigit h \<and> e = NotHex)"
    by (simp only: base_codecs.store_hex_to_label_Err_iff [OF assms])
  with Inl show ?thesis by simp
next
  case (Inr l)
  then have rt: "label_to_store_hex C l = Ok (to_ascii_lowercase h)"
    by (rule base_codecs.store_hex_roundtrip [OF assms])
  moreover from Inr base_codecs.store_hex_to_label_Err_iff [OF assms]
  have "length h = 64" "list_all is_hexdigit h" by (metis sum.distinct(1))+
  moreover from rt have "length l = LABEL_LEN"
    by (auto simp: label_to_store_hex_def rbind_Ok_iff label_to_store_bytes_def split: if_splits)
  ultimately show ?thesis using Inr by simp
qed

theorem store_hex_label_roundtrip_witness:
  "label_to_store_hex rfc_codecs demo_label = Ok demo_hex"
proof -
  have "store_hex_to_label rfc_codecs demo_hex = Ok demo_label"
    using demo_label_eval demo_hex_eval demo_lower_eval(2) demo_id_length
    by (auto simp: rfc.store_hex_to_label_Ok_iff intro!: exI [of _ demo_id])
  with store_hex_label_roundtrip [OF rfc.base_codecs_axioms, of demo_hex]
  show ?thesis by (simp add: demo_lower_eval)
qed

end
