(* ===== verification/Host.thy ===== *)
theory Host
  imports Label
begin

text \<open>
  \<open>src/host.rs\<close>: parsing a request host into what it resolves to, \<open><store>.<tld>\<close> (the latest
  root) or \<open><root>.<store>.<tld>\<close> (a pinned root).
\<close>

datatype host_target =
    Latest string
  | Pinned string string

fun target_store :: "host_target \<Rightarrow> string" where
  "target_store (Latest store_hex) = store_hex"
| "target_store (Pinned store_hex root_hex) = store_hex"

datatype host_error =
    NotDigTld string
  | NoStoreLabel
  | TooManyLabels nat
  | BadLabel label_error

text \<open>\<open>label::label_to_store_hex(l)?\<close>, with the conversion \<open>#[from] LabelError\<close>.\<close>

definition host_label_hex :: "codec_ops \<Rightarrow> string \<Rightarrow> host_error + string" where
  "host_label_hex C l = (case label_to_store_hex C l of Err e \<Rightarrow> Err (BadLabel e) | Ok h \<Rightarrow> Ok h)"

text \<open>The host without surrounding whitespace, a final dot and a port.\<close>

definition host_name :: "string \<Rightarrow> string" where
  "host_name host =
     (let h = trim host;
          h = unwrap_or (strip_suffix h ''.'') h
      in (case split_on CHR '':'' h of [] \<Rightarrow> h | part # _ \<Rightarrow> part))"

definition parse_dig_host :: "codec_ops \<Rightarrow> string \<Rightarrow> string \<Rightarrow> host_error + host_target" where
  "parse_dig_host C host tld =
     (let h = host_name host;
          tld_lower = to_ascii_lowercase tld;
          lower = to_ascii_lowercase h
      in if lower = tld_lower then Err NoStoreLabel
         else let dot_tld = ''.'' @ tld_lower in
         if \<not> ends_with lower dot_tld then Err (NotDigTld tld)
         else let remainder = take (length h - length dot_tld) h in
         if remainder = [] then Err NoStoreLabel
         else let labels = split_on CHR ''.'' remainder in
         if list_ex (\<lambda>l. l = []) labels then Err NoStoreLabel
         else (case labels of
             [store] \<Rightarrow> rbind (host_label_hex C store) (\<lambda>store_hex. Ok (Latest store_hex))
           | [root, store] \<Rightarrow>
               rbind (host_label_hex C store) (\<lambda>store_hex.
               rbind (host_label_hex C root) (\<lambda>root_hex. Ok (Pinned store_hex root_hex)))
           | _ \<Rightarrow> Err (TooManyLabels (length labels))))"

section \<open>What parses, and to what\<close>

lemma host_label_hex_Ok [simp]: "host_label_hex C l = Ok h \<longleftrightarrow> label_to_store_hex C l = Ok h"
  by (cases "label_to_store_hex C l") (simp_all add: host_label_hex_def)

lemma ends_with_dot_tld:
  "ends_with (to_ascii_lowercase h) (''.'' @ to_ascii_lowercase tld)
   \<longleftrightarrow> (\<exists>r t. h = r @ ''.'' @ t \<and> eq_ignore_ascii_case t tld)"
proof
  assume "ends_with (to_ascii_lowercase h) (''.'' @ to_ascii_lowercase tld)"
  then obtain q where q: "map lower_char h = q @ CHR ''.'' # to_ascii_lowercase tld"
    by (auto simp: ends_with_iff to_ascii_lowercase_def)
  then obtain r u where "h = r @ u" "map lower_char u = CHR ''.'' # to_ascii_lowercase tld"
    by (auto simp: map_eq_append_conv)
  then obtain d t where t: "h = r @ d # t" "lower_char d = CHR ''.''"
    "map lower_char t = to_ascii_lowercase tld"
    by (auto simp: map_eq_Cons_conv)
  moreover from t(2) have "d = CHR ''.''"
    using lower_char_eq_nonletter [of "CHR ''.''" d] by (simp add: is_lower_def char_code_def)
  ultimately show "\<exists>r t. h = r @ ''.'' @ t \<and> eq_ignore_ascii_case t tld"
    by (auto simp: eq_ignore_ascii_case_def to_ascii_lowercase_def)
next
  assume "\<exists>r t. h = r @ ''.'' @ t \<and> eq_ignore_ascii_case t tld"
  moreover have "lower_char CHR ''.'' = CHR ''.''"
    by (rule lower_char_not_upper) (simp add: is_upper_def char_code_def)
  ultimately show "ends_with (to_ascii_lowercase h) (''.'' @ to_ascii_lowercase tld)"
    by (auto simp: ends_with_iff eq_ignore_ascii_case_def)
qed

lemma eq_ignore_ascii_case_length: "eq_ignore_ascii_case s t \<Longrightarrow> length s = length t"
  unfolding eq_ignore_ascii_case_def by (metis to_ascii_lowercase_simps(4))

text \<open>Parsing, with the suffix test resolved into a decomposition of the host.\<close>

lemma parse_dig_host_stem:
  assumes "host_name host = r @ ''.'' @ t" "eq_ignore_ascii_case t tld"
  shows "parse_dig_host C host tld =
     (if r = [] then Err NoStoreLabel
      else if list_ex (\<lambda>l. l = []) (split_on CHR ''.'' r) then Err NoStoreLabel
      else (case split_on CHR ''.'' r of
             [store] \<Rightarrow> rbind (host_label_hex C store) (\<lambda>store_hex. Ok (Latest store_hex))
           | [root, store] \<Rightarrow>
               rbind (host_label_hex C store) (\<lambda>store_hex.
               rbind (host_label_hex C root) (\<lambda>root_hex. Ok (Pinned store_hex root_hex)))
           | ls \<Rightarrow> Err (TooManyLabels (length ls))))"
proof -
  have len: "length t = length tld"
    using assms(2) by (rule eq_ignore_ascii_case_length)
  have "to_ascii_lowercase (host_name host) \<noteq> to_ascii_lowercase tld"
  proof
    assume "to_ascii_lowercase (host_name host) = to_ascii_lowercase tld"
    then have "length (host_name host) = length tld" by (metis to_ascii_lowercase_simps(4))
    with assms(1) len show False by simp
  qed
  moreover have "ends_with (to_ascii_lowercase (host_name host)) (''.'' @ to_ascii_lowercase tld)"
    using assms ends_with_dot_tld by blast
  ultimately show ?thesis
    using assms(1) len
    by (simp add: parse_dig_host_def Let_def split: list.split)
qed

lemma parse_dig_host_Ok_stem:
  assumes "parse_dig_host C host tld = Ok tgt"
  obtains r t where "host_name host = r @ ''.'' @ t" "eq_ignore_ascii_case t tld"
proof -
  have "ends_with (to_ascii_lowercase (host_name host)) (''.'' @ to_ascii_lowercase tld)"
    using assms by (auto simp: parse_dig_host_def Let_def split: if_splits)
  with ends_with_dot_tld that show thesis by blast
qed

context base_codecs
begin

lemma parse_latest_iff:
  "parse_dig_host C host tld = Ok (Latest h) \<longleftrightarrow>
     (\<exists>l t. host_name host = l @ ''.'' @ t \<and> eq_ignore_ascii_case t tld
        \<and> label_to_store_hex C l = Ok h)"
proof
  assume ok: "parse_dig_host C host tld = Ok (Latest h)"
  then obtain r t where rt: "host_name host = r @ ''.'' @ t" "eq_ignore_ascii_case t tld"
    by (rule parse_dig_host_Ok_stem)
  from ok obtain l where "split_on CHR ''.'' r = [l]" "label_to_store_hex C l = Ok h"
    by (auto simp: parse_dig_host_stem [OF rt] rbind_Ok_iff split: if_splits list.splits)
  moreover from this(1) have "r = l"
    using join_split_on [of "CHR ''.''" r] by simp
  ultimately show "\<exists>l t. host_name host = l @ ''.'' @ t \<and> eq_ignore_ascii_case t tld
        \<and> label_to_store_hex C l = Ok h"
    using rt by blast
next
  assume "\<exists>l t. host_name host = l @ ''.'' @ t \<and> eq_ignore_ascii_case t tld
        \<and> label_to_store_hex C l = Ok h"
  then obtain l t where lt: "host_name host = l @ ''.'' @ t" "eq_ignore_ascii_case t tld"
    and h: "label_to_store_hex C l = Ok h" by blast
  from label_to_store_hex_no_sep [OF h] h show "parse_dig_host C host tld = Ok (Latest h)"
    by (simp add: parse_dig_host_stem [OF lt] split_on_no_sep rbind_Ok_iff)
qed

lemma parse_pinned_iff:
  "parse_dig_host C host tld = Ok (Pinned h g) \<longleftrightarrow>
     (\<exists>m l t. host_name host = m @ ''.'' @ l @ ''.'' @ t \<and> eq_ignore_ascii_case t tld
        \<and> label_to_store_hex C l = Ok h \<and> label_to_store_hex C m = Ok g)"
proof
  assume ok: "parse_dig_host C host tld = Ok (Pinned h g)"
  then obtain r t where rt: "host_name host = r @ ''.'' @ t" "eq_ignore_ascii_case t tld"
    by (rule parse_dig_host_Ok_stem)
  from ok obtain m l where ml: "split_on CHR ''.'' r = [m, l]"
    "label_to_store_hex C l = Ok h" "label_to_store_hex C m = Ok g"
    by (auto simp: parse_dig_host_stem [OF rt] rbind_Ok_iff split: if_splits list.splits)
  moreover from ml(1) have "r = m @ ''.'' @ l"
    using join_split_on [of "CHR ''.''" r] by simp
  ultimately show "\<exists>m l t. host_name host = m @ ''.'' @ l @ ''.'' @ t \<and> eq_ignore_ascii_case t tld
        \<and> label_to_store_hex C l = Ok h \<and> label_to_store_hex C m = Ok g"
    using rt by auto
next
  assume "\<exists>m l t. host_name host = m @ ''.'' @ l @ ''.'' @ t \<and> eq_ignore_ascii_case t tld
        \<and> label_to_store_hex C l = Ok h \<and> label_to_store_hex C m = Ok g"
  then obtain m l t where lt: "host_name host = (m @ ''.'' @ l) @ ''.'' @ t"
    "eq_ignore_ascii_case t tld"
    and h: "label_to_store_hex C l = Ok h" "label_to_store_hex C m = Ok g" by auto
  from label_to_store_hex_no_sep [OF h(1)] label_to_store_hex_no_sep [OF h(2)] h
  show "parse_dig_host C host tld = Ok (Pinned h g)"
    by (simp add: parse_dig_host_stem [OF lt] split_on_append split_on_no_sep rbind_Ok_iff)
qed

lemma parse_pinned_shape:
  assumes "parse_dig_host C host tld = Ok (Pinned h g)"
  shows "length g = 64 \<and> list_all is_hexdigit g"
  using assms hex_of_label_shape by (auto simp: parse_pinned_iff)

lemma parse_target_shape:
  assumes "parse_dig_host C host tld = Ok tgt"
  shows "length (target_store tgt) = 64 \<and> list_all is_hexdigit (target_store tgt)"
proof (cases tgt)
  case (Latest h)
  with assms hex_of_label_shape show ?thesis
    by (auto simp: parse_latest_iff)
next
  case (Pinned h g)
  with assms hex_of_label_shape show ?thesis
    by (auto simp: parse_pinned_iff)
qed

end

section \<open>Properties\<close>

text \<open>A host resolves to the latest root of a store exactly when, after trimming, dropping one
  final dot and a port, it is one valid label followed by \<open>.<tld>\<close> in any case.\<close>

theorem host_latest_iff:
  assumes "base_codecs C"
  shows "parse_dig_host C host tld = Ok (Latest h) \<longleftrightarrow>
     (\<exists>l t. host_name host = l @ ''.'' @ t \<and> eq_ignore_ascii_case t tld
        \<and> label_to_store_hex C l = Ok h)"
  by (rule base_codecs.parse_latest_iff [OF assms])

theorem host_latest_iff_witness:
  "parse_dig_host rfc_codecs (demo_label @ ''.DIG.'') ''dig'' = Ok (Latest demo_hex)"
proof -
  have "host_name (demo_label @ ''.DIG.'') = demo_label @ ''.'' @ ''DIG''"
    by code_simp
  moreover have "eq_ignore_ascii_case ''DIG'' ''dig''" by code_simp
  moreover have "label_to_store_hex rfc_codecs demo_label = Ok demo_hex"
    using demo_label_eval demo_hex_eval demo_id_length demo_lower_eval
    by (auto simp: rfc.label_to_store_hex_Ok_iff demo_label_lower intro!: exI [of _ demo_id])
  ultimately show ?thesis
    unfolding host_latest_iff [OF rfc.base_codecs_axioms] by blast
qed

text \<open>A host pins a root exactly when it is a root label, a store label and the TLD in this
  order; the left label is the root, the right one the store.\<close>

theorem host_pinned_iff:
  assumes "base_codecs C"
  shows "parse_dig_host C host tld = Ok (Pinned h g) \<longleftrightarrow>
     (\<exists>m l t. host_name host = m @ ''.'' @ l @ ''.'' @ t \<and> eq_ignore_ascii_case t tld
        \<and> label_to_store_hex C l = Ok h \<and> label_to_store_hex C m = Ok g)"
  by (rule base_codecs.parse_pinned_iff [OF assms])

theorem host_pinned_iff_witness:
  "parse_dig_host rfc_codecs (replicate 52 CHR ''a'' @ ''.'' @ demo_label @ ''.dig:80'') ''dig''
     = Ok (Pinned demo_hex (replicate 64 CHR ''0''))"
proof -
  have "host_name (replicate 52 CHR ''a'' @ ''.'' @ demo_label @ ''.dig:80'')
      = replicate 52 CHR ''a'' @ ''.'' @ demo_label @ ''.'' @ ''dig''"
    by code_simp
  moreover have "label_to_store_hex rfc_codecs (replicate 52 CHR ''a'') = Ok (replicate 64 CHR ''0'')"
    by code_simp
  moreover have "label_to_store_hex rfc_codecs demo_label = Ok demo_hex"
    using demo_label_eval demo_hex_eval demo_id_length
    by (auto simp: rfc.label_to_store_hex_Ok_iff demo_label_lower intro!: exI [of _ demo_id])
  ultimately show ?thesis
    unfolding host_pinned_iff [OF rfc.base_codecs_axioms] by (metis eq_ignore_ascii_case_refl)
qed

end
