(* ===== verification/Content.thy ===== *)
theory Content
  imports Codec
begin

text \<open>
  \<open>src/content.rs\<close>: from a request path to a resource key, from a resource key to the retrieval key
  sent to the node, and the verify-then-decrypt pipeline over the served ciphertext.

  The cryptographic types and functions come from the crates \<open>digstore_core\<close> and \<open>base64\<close>, which
  are not part of this repository: they are the fields of \<open>digstore_ops\<close>, an argument of every
  definition that uses them. \<open>'b\<close> is \<open>Bytes32\<close>, \<open>'p\<close> is \<open>MerkleProof\<close>, \<open>'k\<close> is the AES key. A slice
  that would be out of range makes Rust panic; \<open>verify_and_decrypt\<close> returns \<open>None\<close> there.
\<close>

section \<open>The interface of the content library\<close>

record 'b urn =
  urn_chain :: string
  store_id :: 'b
  root_hash :: "'b option"
  resource_key :: "string option"

record ('b, 'p, 'k) digstore_ops =
  bytes32_from_hex :: "string \<Rightarrow> 'b option"
  bytes32_to_hex :: "'b \<Rightarrow> string"
  urn_retrieval_key :: "'b urn \<Rightarrow> 'b"
  urn_canonical :: "'b urn \<Rightarrow> string"
  resource_leaf :: "bytes \<Rightarrow> 'b"
  proof_from_bytes :: "bytes \<Rightarrow> 'p option"
  proof_leaf :: "'p \<Rightarrow> 'b"
  proof_root :: "'p \<Rightarrow> 'b"
  proof_verify :: "'p \<Rightarrow> bool"
  derive_decryption_key :: "string \<Rightarrow> bytes option \<Rightarrow> 'k"
  decrypt_chunk :: "'k \<Rightarrow> bytes \<Rightarrow> bytes option"
  b64_decode :: "string \<Rightarrow> bytes option"
  CHAIN :: string
  DEFAULT_RESOURCE_KEY :: string

section \<open>The read path\<close>

datatype content_error =
    InvalidPath
  | BadStoreId
  | BadRoot
  | BadProof
  | ProofLeafMismatch
  | ProofFoldMismatch
  | RootMismatch
  | ChunkLenMismatch (got: nat) (expected: nat)
  | Decrypt

definition resource_key_for_path ::
  "('b, 'p, 'k) digstore_ops \<Rightarrow> string \<Rightarrow> content_error + string" where
  "resource_key_for_path D path =
     (let trimmed = unwrap_or (strip_prefix path ''/'') path
      in if trimmed = [] then Ok (DEFAULT_RESOURCE_KEY D)
         else if contains_char trimmed (CHR 0x5C) \<or> list_ex (\<lambda>b. char_code b < 0x20) trimmed
         then Err InvalidPath
         else if list_ex (\<lambda>c. c = ''.'' \<or> c = ''..'') (split_on CHR ''/'' trimmed)
         then Err InvalidPath
         else Ok trimmed)"

definition canonical_urn :: "('b, 'p, 'k) digstore_ops \<Rightarrow> 'b \<Rightarrow> string \<Rightarrow> 'b urn" where
  "canonical_urn D sid rkey =
     (let key = (if rkey = [] then DEFAULT_RESOURCE_KEY D else rkey)
      in \<lparr>urn_chain = CHAIN D, store_id = sid, root_hash = None, resource_key = Some key\<rparr>)"

definition retrieval_key_hex ::
  "('b, 'p, 'k) digstore_ops \<Rightarrow> string \<Rightarrow> string \<Rightarrow> content_error + string" where
  "retrieval_key_hex D store_hex rkey =
     rbind (ok_or BadStoreId (bytes32_from_hex D store_hex)) (\<lambda>sid.
     Ok (bytes32_to_hex D (urn_retrieval_key D (canonical_urn D sid rkey))))"

text \<open>The table of \<open>content_type_for\<close>.\<close>

definition content_types :: "(string \<times> string) list" where
  "content_types =
     [(''html'', ''text/html; charset=utf-8''), (''htm'', ''text/html; charset=utf-8''),
      (''js'', ''text/javascript; charset=utf-8''), (''mjs'', ''text/javascript; charset=utf-8''),
      (''css'', ''text/css; charset=utf-8''), (''json'', ''application/json''),
      (''map'', ''application/json''), (''txt'', ''text/plain; charset=utf-8''),
      (''xml'', ''application/xml''), (''wasm'', ''application/wasm''), (''png'', ''image/png''),
      (''jpg'', ''image/jpeg''), (''jpeg'', ''image/jpeg''), (''gif'', ''image/gif''),
      (''webp'', ''image/webp''), (''svg'', ''image/svg+xml''), (''ico'', ''image/x-icon''),
      (''woff2'', ''font/woff2''), (''woff'', ''font/woff'')]"

definition content_type_for :: "string \<Rightarrow> string" where
  "content_type_for rkey =
     (let filename = last (split_on CHR ''/'' rkey)
      in case rsplit_once CHR ''.'' filename of
           None \<Rightarrow> ''application/octet-stream''
         | Some (_, e) \<Rightarrow>
             unwrap_or (map_of content_types (to_ascii_lowercase e)) ''application/octet-stream'')"

definition is_extensionless :: "string \<Rightarrow> bool" where
  "is_extensionless path \<longleftrightarrow> \<not> contains_char (last (split_on CHR ''/'' path)) CHR ''.''"

text \<open>\<open>usize::checked_add\<close> on a 64-bit target, and the two loops of \<open>verify_and_decrypt\<close>.\<close>

definition USIZE_MAX :: nat where "USIZE_MAX = 18446744073709551615"

definition usize_checked_add :: "nat \<Rightarrow> nat \<Rightarrow> nat option" where
  "usize_checked_add a b = (if a + b \<le> USIZE_MAX then Some (a + b) else None)"

fun plan_total :: "nat \<Rightarrow> nat list \<Rightarrow> nat option" where
  "plan_total acc [] = Some acc"
| "plan_total acc (len # plan) =
     (case usize_checked_add acc len of None \<Rightarrow> None | Some t \<Rightarrow> plan_total t plan)"

fun decrypt_plan ::
  "('b, 'p, 'k) digstore_ops \<Rightarrow> 'k \<Rightarrow> bytes \<Rightarrow> nat \<Rightarrow> nat list \<Rightarrow> bytes \<Rightarrow> (content_error + bytes) option" where
  "decrypt_plan D key ct p [] plaintext = Some (Ok plaintext)"
| "decrypt_plan D key ct p (len # plan) plaintext =
     (case slice_range ct p (p + len) of
        None \<Rightarrow> None
      | Some chunk \<Rightarrow>
          (case decrypt_chunk D key chunk of
             None \<Rightarrow> Some (Err Decrypt)
           | Some pt \<Rightarrow> decrypt_plan D key ct (p + len) plan (plaintext @ pt)))"

definition verify_and_decrypt ::
  "('b, 'p, 'k) digstore_ops \<Rightarrow> string \<Rightarrow> string \<Rightarrow> bytes \<Rightarrow> string \<Rightarrow> string \<Rightarrow> u64 list
     \<Rightarrow> (content_error + bytes) option" where
  "verify_and_decrypt D store_hex rkey ct inclusion_proof_b64 trusted_root_hex chunk_lens =
     (case bytes32_from_hex D store_hex of None \<Rightarrow> Some (Err BadStoreId) | Some sid \<Rightarrow>
      case bytes32_from_hex D trusted_root_hex of None \<Rightarrow> Some (Err BadRoot) | Some trusted_root \<Rightarrow>
      case b64_decode D (trim inclusion_proof_b64) of None \<Rightarrow> Some (Err BadProof) | Some proof_bytes \<Rightarrow>
      case proof_from_bytes D proof_bytes of None \<Rightarrow> Some (Err BadProof) | Some prf \<Rightarrow>
      if resource_leaf D ct \<noteq> proof_leaf D prf then Some (Err ProofLeafMismatch)
      else if \<not> proof_verify D prf then Some (Err ProofFoldMismatch)
      else if proof_root D prf \<noteq> trusted_root then Some (Err RootMismatch)
      else
        let canonical = urn_canonical D (canonical_urn D sid rkey);
            aes_key = derive_decryption_key D canonical None;
            plan = (if chunk_lens = [] then [length ct] else map unat chunk_lens)
        in case plan_total 0 plan of
             None \<Rightarrow> Some (Err (ChunkLenMismatch (length ct) USIZE_MAX))
           | Some tot \<Rightarrow>
               if tot \<noteq> length ct then Some (Err (ChunkLenMismatch (length ct) tot))
               else decrypt_plan D aes_key ct 0 plan [])"

section \<open>Lemmas\<close>

text \<open>Cutting a list into consecutive pieces of given lengths.\<close>

fun pieces :: "nat list \<Rightarrow> 'a list \<Rightarrow> 'a list list" where
  "pieces [] xs = []"
| "pieces (n # ns) xs = take n xs # pieces ns (drop n xs)"

lemma concat_pieces: "sum_list ns = length xs \<Longrightarrow> concat (pieces ns xs) = xs"
  by (induction ns xs rule: pieces.induct) auto

lemma pieces_concat: "pieces (map length cs) (concat cs @ rest) = cs"
  by (induction cs) auto

lemma plan_total_eq:
  "acc \<le> USIZE_MAX \<Longrightarrow>
     plan_total acc plan = (if acc + sum_list plan \<le> USIZE_MAX then Some (acc + sum_list plan) else None)"
  by (induction plan arbitrary: acc) (auto simp: usize_checked_add_def add.assoc)

lemma decrypt_plan_eq:
  assumes "p + sum_list plan \<le> length ct"
  shows "decrypt_plan D key ct p plan acc =
    Some (case those (map (decrypt_chunk D key) (pieces plan (drop p ct))) of
            None \<Rightarrow> Err Decrypt | Some pts \<Rightarrow> Ok (acc @ concat pts))"
  using assms
proof (induction plan arbitrary: p acc)
  case Nil
  then show ?case by simp
next
  case (Cons n plan)
  have r: "slice_range ct p (p + n) = Some (take n (drop p ct))"
    using Cons.prems by (simp add: slice_range_def)
  have "decrypt_plan D key ct (p + n) plan a =
      Some (case those (map (decrypt_chunk D key) (pieces plan (drop n (drop p ct)))) of
              None \<Rightarrow> Err Decrypt | Some pts \<Rightarrow> Ok (a @ concat pts))" for a
    using Cons.prems Cons.IH [of "p + n" a] by (simp add: add.commute)
  then show ?case
    by (auto simp: r simp del: drop_drop split: option.splits)
qed

definition content_plan :: "bytes \<Rightarrow> u64 list \<Rightarrow> nat list" where
  "content_plan ct chunk_lens = (if chunk_lens = [] then [length ct] else map unat chunk_lens)"

text \<open>The outcome of the pipeline once the integrity gate is passed.\<close>

definition open_chunks ::
  "('b, 'p, 'k) digstore_ops \<Rightarrow> 'b \<Rightarrow> string \<Rightarrow> bytes \<Rightarrow> u64 list \<Rightarrow> bytes list option" where
  "open_chunks D sid rkey ct chunk_lens =
     those (map (decrypt_chunk D (derive_decryption_key D (urn_canonical D (canonical_urn D sid rkey)) None))
              (pieces (content_plan ct chunk_lens) ct))"

definition inclusion_ok ::
  "('b, 'p, 'k) digstore_ops \<Rightarrow> bytes \<Rightarrow> string \<Rightarrow> 'b \<Rightarrow> bool" where
  "inclusion_ok D ct proof_b64 root \<longleftrightarrow>
     (\<exists>bs prf. b64_decode D (trim proof_b64) = Some bs \<and> proof_from_bytes D bs = Some prf
        \<and> proof_leaf D prf = resource_leaf D ct \<and> proof_verify D prf \<and> proof_root D prf = root)"

lemma verify_and_decrypt_no_panic:
  "\<exists>r. verify_and_decrypt D store_hex rkey ct p_b64 root_hex lens = Some r"
  unfolding verify_and_decrypt_def Let_def content_plan_def [symmetric]
  by (simp add: decrypt_plan_eq plan_total_eq split: option.splits)

lemma verify_and_decrypt_Ok:
  "verify_and_decrypt D store_hex rkey ct p_b64 root_hex lens = Some (Ok pt) \<longleftrightarrow>
     (\<exists>sid root pts. bytes32_from_hex D store_hex = Some sid \<and> bytes32_from_hex D root_hex = Some root
        \<and> inclusion_ok D ct p_b64 root
        \<and> sum_list (content_plan ct lens) = length ct \<and> length ct \<le> USIZE_MAX
        \<and> open_chunks D sid rkey ct lens = Some pts \<and> pt = concat pts)"
  unfolding verify_and_decrypt_def Let_def inclusion_ok_def open_chunks_def
    content_plan_def [symmetric]
  by (auto simp: decrypt_plan_eq plan_total_eq split: option.splits if_splits)

lemma no_traversal_parts:
  "\<not> list_ex (\<lambda>c. c = ''.'' \<or> c = ''..'') (split_on CHR ''/'' t) \<longleftrightarrow>
     ''.'' \<notin> set (split_on CHR ''/'' t) \<and> ''..'' \<notin> set (split_on CHR ''/'' t)"
  by (auto simp: list_ex_iff)

text \<open>A resource whose chunks were sealed under its key opens to its chunks.\<close>

lemma sealed_opens:
  assumes "bytes32_from_hex D store_hex = Some sid" "bytes32_from_hex D root_hex = Some root"
    and "inclusion_ok D (concat (map seal chunks)) p_b64 root"
    and "chunks \<noteq> []" "length (concat (map seal chunks)) \<le> USIZE_MAX"
    and "\<And>c. c \<in> set chunks \<Longrightarrow>
      decrypt_chunk D (derive_decryption_key D (urn_canonical D (canonical_urn D sid rkey)) None) (seal c)
        = Some c"
  shows "verify_and_decrypt D store_hex rkey (concat (map seal chunks)) p_b64 root_hex
    (map (\<lambda>c. of_nat (length (seal c))) chunks) = Some (Ok (concat chunks))"
proof -
  let ?ct = "concat (map seal chunks)"
  have len: "length (seal c) < 2 ^ 64" if "c \<in> set chunks" for c
  proof -
    have "length (seal c) \<le> length ?ct"
      using that by (simp add: length_concat comp_def) (rule member_le_sum_list, auto)
    with assms(5) show ?thesis by (simp add: USIZE_MAX_def)
  qed
  have plan: "content_plan ?ct (map (\<lambda>c. of_nat (length (seal c))) chunks) = map length (map seal chunks)"
    using assms(4) len by (auto simp: content_plan_def unat_of_nat)
  have "open_chunks D sid rkey ?ct (map (\<lambda>c. of_nat (length (seal c))) chunks)
      = those (map (decrypt_chunk D (derive_decryption_key D
          (urn_canonical D (canonical_urn D sid rkey)) None)) (map seal chunks))"
    unfolding open_chunks_def plan using pieces_concat [of "map seal chunks" "[]"] by simp
  also have "\<dots> = Some chunks"
    using assms(6) by (induction chunks) auto
  finally show ?thesis
    unfolding verify_and_decrypt_Ok using assms plan by (auto simp: length_concat)
qed

section \<open>A small store\<close>

text \<open>A concrete library for the witnesses: an identifier is the length of its text, a leaf counts the
  bytes, a proof is a pair of bytes that names its leaf and its root, and a chunk opens when it starts
  with the byte 7.\<close>

definition demo_store :: "(nat, bytes, string) digstore_ops" where
  "demo_store = \<lparr>
     bytes32_from_hex = (\<lambda>h. if h = [] then None else Some (length h)),
     bytes32_to_hex = (\<lambda>b. replicate 64 CHR ''0''),
     urn_retrieval_key = (\<lambda>u. store_id u),
     urn_canonical = (\<lambda>u. urn_chain u @ unwrap_or (resource_key u) []),
     resource_leaf = (\<lambda>ct. length ct),
     proof_from_bytes = (\<lambda>bs. if length bs = 2 then Some bs else None),
     proof_leaf = (\<lambda>p. unat (p ! 0)),
     proof_root = (\<lambda>p. unat (p ! 1)),
     proof_verify = (\<lambda>_. True),
     derive_decryption_key = (\<lambda>c _. c),
     decrypt_chunk = (\<lambda>k c. if c \<noteq> [] \<and> hd c = 7 then Some (tl c) else None),
     b64_decode = (\<lambda>s. if s = ''AAA'' then Some [4, 64] else None),
     CHAIN = ''chia'',
     DEFAULT_RESOURCE_KEY = ''index.html''\<rparr>"

lemma trim_AAA: "trim ''AAA'' = ''AAA''"
  by (simp add: str_eval)

lemma demo_inclusion: "inclusion_ok demo_store [a, b, c, d] ''AAA'' 64"
  by (simp add: inclusion_ok_def demo_store_def trim_AAA)

section \<open>Properties\<close>

text \<open>A request path becomes a resource key only when it has no traversal component, no backslash
  and no control character; the key is then the path without its leading slash, and the empty path is
  the default view.\<close>

theorem resource_key_for_path_iff:
  "resource_key_for_path D path = Ok k \<longleftrightarrow>
     (let t = (if starts_with path ''/'' then tl path else path)
      in if t = [] then k = DEFAULT_RESOURCE_KEY D
         else k = t \<and> CHR 0x5C \<notin> set t \<and> (\<forall>c \<in> set t. 0x20 \<le> char_code c)
           \<and> ''.'' \<notin> set (split_on CHR ''/'' t) \<and> ''..'' \<notin> set (split_on CHR ''/'' t))"
proof -
  define u where "u = (if starts_with path ''/'' then tl path else path)"
  have t: "unwrap_or (strip_prefix path ''/'') path = u"
    unfolding u_def by (cases path) (auto simp: strip_prefix_def starts_with_def unwrap_or_def)
  have ctrl: "list_ex (\<lambda>b. char_code b < 0x20) u \<longleftrightarrow> \<not> (\<forall>c \<in> set u. 0x20 \<le> char_code c)"
    by (auto simp: list_ex_iff not_le)
  show ?thesis
    unfolding resource_key_for_path_def t Let_def contains_char_def u_def [symmetric] ctrl
    using no_traversal_parts [of u] by (cases "u = []") auto
qed

theorem resource_key_for_path_iff_witness:
  "resource_key_for_path demo_store ''/a/b.js'' = Ok ''a/b.js''"
  by (subst resource_key_for_path_iff) (simp add: Let_def starts_with_def char_code_def)

text \<open>C9. Fail-closed content: plaintext is returned exactly when the store id and the trusted root
  parse, the served bytes are the leaf of a proof that folds to that root, the chunk lengths add up to
  the served bytes and every chunk decrypts; the result is then the concatenation of the plaintexts.\<close>

theorem content_fail_closed:
  "verify_and_decrypt D store_hex rkey ct p_b64 root_hex lens = Some (Ok pt) \<longleftrightarrow>
     (\<exists>sid root pts. bytes32_from_hex D store_hex = Some sid \<and> bytes32_from_hex D root_hex = Some root
        \<and> inclusion_ok D ct p_b64 root
        \<and> sum_list (content_plan ct lens) = length ct \<and> length ct \<le> USIZE_MAX
        \<and> open_chunks D sid rkey ct lens = Some pts \<and> pt = concat pts)"
  by (rule verify_and_decrypt_Ok)

text \<open>C11. The pipeline never slices out of range, whatever lengths the node reports, including
  lengths whose sum overflows \<open>usize\<close>; and when the bytes are not included under the trusted root the
  result is one of the errors raised before any decryption.\<close>

theorem content_total_and_gated:
  "verify_and_decrypt D store_hex rkey ct p_b64 root_hex lens \<noteq> None
   \<and> ((\<exists>root. bytes32_from_hex D root_hex = Some root \<and> inclusion_ok D ct p_b64 root)
      \<or> verify_and_decrypt D store_hex rkey ct p_b64 root_hex lens
         \<in> Some ` Err ` {BadStoreId, BadRoot, BadProof, ProofLeafMismatch, ProofFoldMismatch, RootMismatch})"
  (is "?v \<noteq> None \<and> (?ok \<or> ?v \<in> ?errs)")
proof
  show "?v \<noteq> None"
    using verify_and_decrypt_no_panic [of D store_hex rkey ct p_b64 root_hex lens] by auto
  have "?v \<in> ?errs" if "\<not> ?ok"
  proof -
    let ?after = "\<lambda>sid. let canonical = urn_canonical D (canonical_urn D sid rkey);
            aes_key = derive_decryption_key D canonical None;
            plan = (if lens = [] then [length ct] else map unat lens)
        in case plan_total 0 plan of
             None \<Rightarrow> Some (Err (ChunkLenMismatch (length ct) USIZE_MAX))
           | Some tot \<Rightarrow>
               if tot \<noteq> length ct then Some (Err (ChunkLenMismatch (length ct) tot))
               else decrypt_plan D aes_key ct 0 plan []"
    define after where "after = ?after"
    show ?thesis
      using that unfolding verify_and_decrypt_def inclusion_ok_def after_def [symmetric]
      by (simp split: option.split)
  qed
  then show "?ok \<or> ?v \<in> ?errs" by blast
qed

text \<open>C10. What a publisher stores is what a reader gets: if the resource's chunks were sealed under the
  key of its URN and the concatenation is included under the trusted root, then with the lengths of the
  sealed chunks the pipeline returns the original bytes.\<close>

theorem content_publish_roundtrip:
  assumes "bytes32_from_hex D store_hex = Some sid" "bytes32_from_hex D root_hex = Some root"
    and "inclusion_ok D (concat (map seal chunks)) p_b64 root"
    and "chunks \<noteq> []" "length (concat (map seal chunks)) \<le> USIZE_MAX"
    and "\<And>c. c \<in> set chunks \<Longrightarrow>
      decrypt_chunk D (derive_decryption_key D (urn_canonical D (canonical_urn D sid rkey)) None) (seal c)
        = Some c"
  shows "verify_and_decrypt D store_hex rkey (concat (map seal chunks)) p_b64 root_hex
    (map (\<lambda>c. of_nat (length (seal c))) chunks) = Some (Ok (concat chunks))"
  by (rule sealed_opens [OF assms])

theorem content_publish_roundtrip_witness:
  "verify_and_decrypt demo_store ''ab'' ''a.txt'' [7, 1, 7, 2] ''AAA'' (replicate 64 CHR ''0'') [2, 2]
     = Some (Ok [1, 2])"
  using content_publish_roundtrip [of demo_store "''ab''" 2 "replicate 64 CHR ''0''" 64 "\<lambda>c. 7 # c" "[[1], [2]]"
      "''AAA''" "''a.txt''"] demo_inclusion [of 7 1 7 2]
  by (simp add: USIZE_MAX_def) (simp add: demo_store_def)

end
