(* ===== verification/Config.thy ===== *)
theory Config
  imports RustStr
begin

text \<open>
  \<open>src/config.rs\<close>: the service configuration, its defaults, the validation of its invariants and
  its construction from an injected environment.
\<close>

record config =
  loopback_ip :: ipv4
  dns_port :: u16
  http_port :: u16
  http_fallback_port :: u16
  tld :: string
  dns_ttl_secs :: u32
  node_url :: "string option"
  dig_local_ip :: ipv4
  dig_local_port :: u16
  secure_upstream :: bool

datatype config_error =
    InvalidIp string string
  | InvalidPort string string
  | InvalidInt string string
  | NotLoopback ipv4
  | EmptyTld
  | InvalidTldCharset string
  | InvalidNodeUrl string
  | InvalidToggle string

definition ENV_NODE_URL :: string where "ENV_NODE_URL = ''DIG_NODE_URL''"
definition ENV_IP :: string where "ENV_IP = ''DIG_DNS_IP''"
definition ENV_DNS_PORT :: string where "ENV_DNS_PORT = ''DIG_DNS_DNS_PORT''"
definition ENV_HTTP_PORT :: string where "ENV_HTTP_PORT = ''DIG_DNS_HTTP_PORT''"
definition ENV_HTTP_FALLBACK_PORT :: string where
  "ENV_HTTP_FALLBACK_PORT = ''DIG_DNS_HTTP_FALLBACK_PORT''"
definition ENV_TLD :: string where "ENV_TLD = ''DIG_DNS_TLD''"
definition ENV_DNS_TTL :: string where "ENV_DNS_TTL = ''DIG_DNS_TTL''"
definition ENV_DIG_LOCAL_IP :: string where "ENV_DIG_LOCAL_IP = ''DIG_DNS_LOCAL_IP''"
definition ENV_DIG_LOCAL_PORT :: string where "ENV_DIG_LOCAL_PORT = ''DIG_DNS_LOCAL_PORT''"
definition ENV_SECURE_UPSTREAM :: string where "ENV_SECURE_UPSTREAM = ''DIG_DNS_SECURE_UPSTREAM''"

lemmas env_names = ENV_NODE_URL_def ENV_IP_def ENV_DNS_PORT_def ENV_HTTP_PORT_def
  ENV_HTTP_FALLBACK_PORT_def ENV_TLD_def ENV_DNS_TTL_def ENV_DIG_LOCAL_IP_def
  ENV_DIG_LOCAL_PORT_def ENV_SECURE_UPSTREAM_def

definition DEFAULT_LOOPBACK_IP :: ipv4 where "DEFAULT_LOOPBACK_IP = Ipv4Addr 127 0 0 5"
definition DEFAULT_DNS_PORT :: u16 where "DEFAULT_DNS_PORT = 53"
definition DEFAULT_HTTP_PORT :: u16 where "DEFAULT_HTTP_PORT = 80"
definition DEFAULT_HTTP_FALLBACK_PORT :: u16 where "DEFAULT_HTTP_FALLBACK_PORT = 8053"
definition DEFAULT_TLD :: string where "DEFAULT_TLD = ''dig''"
definition DEFAULT_DNS_TTL_SECS :: u32 where "DEFAULT_DNS_TTL_SECS = 2"
definition DEFAULT_DIG_LOCAL_IP :: ipv4 where "DEFAULT_DIG_LOCAL_IP = Ipv4Addr 127 0 0 2"
definition DEFAULT_DIG_LOCAL_PORT :: u16 where "DEFAULT_DIG_LOCAL_PORT = 80"

lemmas default_values [simp] = DEFAULT_LOOPBACK_IP_def DEFAULT_DNS_PORT_def DEFAULT_HTTP_PORT_def
  DEFAULT_HTTP_FALLBACK_PORT_def DEFAULT_TLD_def DEFAULT_DNS_TTL_SECS_def DEFAULT_DIG_LOCAL_IP_def
  DEFAULT_DIG_LOCAL_PORT_def

definition default_config :: config where
  "default_config =
     \<lparr>loopback_ip = DEFAULT_LOOPBACK_IP, dns_port = DEFAULT_DNS_PORT, http_port = DEFAULT_HTTP_PORT,
      http_fallback_port = DEFAULT_HTTP_FALLBACK_PORT, tld = DEFAULT_TLD, dns_ttl_secs = DEFAULT_DNS_TTL_SECS,
      node_url = None, dig_local_ip = DEFAULT_DIG_LOCAL_IP, dig_local_port = DEFAULT_DIG_LOCAL_PORT,
      secure_upstream = True\<rparr>"

definition is_safe_tld :: "string \<Rightarrow> bool" where
  "is_safe_tld t \<longleftrightarrow> t \<noteq> [] \<and> list_all (\<lambda>b. is_lower b \<or> is_digit b \<or> b = CHR ''-'') t"

definition is_safe_node_url :: "string \<Rightarrow> bool" where
  "is_safe_node_url url \<longleftrightarrow> \<not> list_ex (\<lambda>b. char_code b < 0x20 \<or> char_code b = 0x7f) url"

text \<open>The loop over the four ports stops at the first zero.\<close>

fun check_ports :: "(string \<times> u16) list \<Rightarrow> config_error + unit" where
  "check_ports [] = Ok ()"
| "check_ports ((key, port) # ps) =
     (if port = 0 then Err (InvalidPort key ''0'') else check_ports ps)"

definition validate :: "config \<Rightarrow> config_error + unit" where
  "validate c =
     (if \<not> is_loopback (loopback_ip c) then Err (NotLoopback (loopback_ip c))
      else if \<not> is_loopback (dig_local_ip c) then Err (NotLoopback (dig_local_ip c))
      else rbind (check_ports [(ENV_DNS_PORT, dns_port c), (ENV_HTTP_PORT, http_port c),
                   (ENV_HTTP_FALLBACK_PORT, http_fallback_port c),
                   (ENV_DIG_LOCAL_PORT, dig_local_port c)]) (\<lambda>_.
        if tld c = [] then Err EmptyTld
        else if \<not> is_safe_tld (tld c) then Err (InvalidTldCharset (tld c))
        else (case node_url c of
            Some url \<Rightarrow> if \<not> is_safe_node_url url then Err (InvalidNodeUrl url) else Ok ()
          | None \<Rightarrow> Ok ())))"

definition normalize_tld :: "string \<Rightarrow> string" where
  "normalize_tld raw = to_ascii_lowercase (unwrap_or (strip_prefix (trim raw) ''.'') (trim raw))"

text \<open>The first source that is set and not blank, trimmed.\<close>

definition resolve_node_override :: "string option \<Rightarrow> string option \<Rightarrow> string option \<Rightarrow> string option" where
  "resolve_node_override flag env file =
     List.find (\<lambda>v. v \<noteq> [])
       (map trim (List.map_filter (\<lambda>x. x) [flag, env, file]))"

definition parse_port :: "string \<Rightarrow> string \<Rightarrow> config_error + u16" where
  "parse_port key value = (case parse_u16 (trim value) of
       Some p \<Rightarrow> if p \<noteq> 0 then Ok p else Err (InvalidPort key value)
     | None \<Rightarrow> Err (InvalidPort key value))"

definition parse_secure_upstream :: "string \<Rightarrow> config_error + bool" where
  "parse_secure_upstream value =
     (let v = to_ascii_lowercase (trim value)
      in if v = ''on'' then Ok True else if v = ''off'' then Ok False
         else Err (InvalidToggle value))"

definition parse_ip_var :: "string \<Rightarrow> string \<Rightarrow> config_error + ipv4" where
  "parse_ip_var key v = ok_or (InvalidIp key v) (parse_ipv4 (trim v))"

definition parse_ttl_var :: "string \<Rightarrow> config_error + u32" where
  "parse_ttl_var v = ok_or (InvalidInt ENV_DNS_TTL v) (parse_u32 (trim v))"

text \<open>\<open>if let Some(v) = get(KEY) { cfg.field = parse(v)?; }\<close>\<close>

definition layer :: "string option \<Rightarrow> (string \<Rightarrow> 'e + 'a) \<Rightarrow> ('a \<Rightarrow> config \<Rightarrow> config) \<Rightarrow> config \<Rightarrow> 'e + config" where
  "layer v parse put cfg =
     (case v of None \<Rightarrow> Ok cfg | Some s \<Rightarrow> rbind (parse s) (\<lambda>x. Ok (put x cfg)))"

definition from_env :: "(string \<Rightarrow> string option) \<Rightarrow> config_error + config" where
  "from_env get =
     rbind (layer (get ENV_IP) (parse_ip_var ENV_IP)
              (\<lambda>x c. c\<lparr>loopback_ip := x\<rparr>) default_config) (\<lambda>cfg.
     rbind (layer (get ENV_DNS_PORT) (parse_port ENV_DNS_PORT)
              (\<lambda>x c. c\<lparr>dns_port := x\<rparr>) cfg) (\<lambda>cfg.
     rbind (layer (get ENV_HTTP_PORT) (parse_port ENV_HTTP_PORT)
              (\<lambda>x c. c\<lparr>http_port := x\<rparr>) cfg) (\<lambda>cfg.
     rbind (layer (get ENV_HTTP_FALLBACK_PORT) (parse_port ENV_HTTP_FALLBACK_PORT)
              (\<lambda>x c. c\<lparr>http_fallback_port := x\<rparr>) cfg) (\<lambda>cfg.
     rbind (layer (get ENV_TLD) (\<lambda>v. Ok (normalize_tld v)) (\<lambda>x c. c\<lparr>tld := x\<rparr>) cfg) (\<lambda>cfg.
     rbind (layer (get ENV_DNS_TTL) parse_ttl_var (\<lambda>x c. c\<lparr>dns_ttl_secs := x\<rparr>) cfg) (\<lambda>cfg.
     let cfg = cfg\<lparr>node_url := resolve_node_override None (get ENV_NODE_URL) None\<rparr> in
     rbind (layer (get ENV_DIG_LOCAL_IP) (parse_ip_var ENV_DIG_LOCAL_IP)
              (\<lambda>x c. c\<lparr>dig_local_ip := x\<rparr>) cfg) (\<lambda>cfg.
     rbind (layer (get ENV_DIG_LOCAL_PORT) (parse_port ENV_DIG_LOCAL_PORT)
              (\<lambda>x c. c\<lparr>dig_local_port := x\<rparr>) cfg) (\<lambda>cfg.
     rbind (layer (get ENV_SECURE_UPSTREAM) parse_secure_upstream
              (\<lambda>x c. c\<lparr>secure_upstream := x\<rparr>) cfg) (\<lambda>cfg.
     rbind (validate cfg) (\<lambda>_. Ok cfg))))))))))"

section \<open>The invariant of a configuration\<close>

definition config_ok :: "config \<Rightarrow> bool" where
  "config_ok c \<longleftrightarrow> is_loopback (loopback_ip c) \<and> is_loopback (dig_local_ip c)
     \<and> dns_port c \<noteq> 0 \<and> http_port c \<noteq> 0 \<and> http_fallback_port c \<noteq> 0 \<and> dig_local_port c \<noteq> 0
     \<and> is_safe_tld (tld c) \<and> (\<forall>url. node_url c = Some url \<longrightarrow> is_safe_node_url url)"

lemma validate_Ok_iff: "validate c = Ok u \<longleftrightarrow> config_ok c"
  by (auto simp: validate_def config_ok_def is_safe_tld_def rbind_Ok_iff split: option.splits if_splits)

lemma validate_cases: "(\<exists>e. validate c = Err e) \<or> config_ok c"
  using validate_Ok_iff [of c "()"] by (cases "validate c") auto

lemma default_config_ok: "config_ok default_config"
  by (simp add: config_ok_def default_config_def is_safe_tld_def is_lower_def char_code_def)

text \<open>The value a variable gives its field: the default when it is not set, else its parse.\<close>

definition env_value :: "string option \<Rightarrow> (string \<Rightarrow> 'e + 'a) \<Rightarrow> 'a \<Rightarrow> 'e + 'a" where
  "env_value v parse d = (case v of None \<Rightarrow> Ok d | Some s \<Rightarrow> parse s)"

lemma layer_eq:
  assumes "put d cfg = cfg"
  shows "layer v parse put cfg = map_res (\<lambda>x. put x cfg) (env_value v parse d)"
proof (cases v)
  case None
  with assms show ?thesis by (simp add: layer_def env_value_def)
next
  case (Some s)
  then show ?thesis by (cases "parse s") (simp_all add: layer_def env_value_def)
qed

lemma safe_tld_chars:
  assumes "is_safe_tld t"
  shows "list_all graphic t" "to_ascii_lowercase t = t" "CHR ''.'' \<notin> set t" "CHR '':'' \<notin> set t"
proof -
  have c: "graphic c \<and> lower_char c = c \<and> c \<noteq> CHR ''.'' \<and> c \<noteq> CHR '':''"
    if "is_lower c \<or> is_digit c \<or> c = CHR ''-''" for c
    using that
    by (auto simp: graphic_def is_lower_def is_digit_def is_upper_def char_code_def
        intro!: lower_char_not_upper)
  with assms show "list_all graphic t" "to_ascii_lowercase t = t" "CHR ''.'' \<notin> set t"
    "CHR '':'' \<notin> set t"
    by (auto simp: is_safe_tld_def list_all_iff to_ascii_lowercase_def intro!: map_idI)
qed

lemma normalize_safe_tld: "is_safe_tld t \<Longrightarrow> normalize_tld t = t"
  using safe_tld_chars [of t]
  by (auto simp: normalize_tld_def trim_graphic strip_prefix_None_iff unwrap_or_def
      split: option.splits simp: strip_prefix_Some_iff)

lemma resolve_node_override_env:
  "resolve_node_override None v None = opt_filter (\<lambda>s. s \<noteq> []) (map_option trim v)"
  by (cases v) (simp_all add: resolve_node_override_def List.map_filter_def)

text \<open>What a successful load computed, field by field.\<close>

definition env_spec :: "(string \<Rightarrow> string option) \<Rightarrow> config \<Rightarrow> bool" where
  "env_spec get c \<longleftrightarrow>
     env_value (get ENV_IP) (parse_ip_var ENV_IP) (Ipv4Addr 127 0 0 5) = Ok (loopback_ip c)
   \<and> env_value (get ENV_DNS_PORT) (parse_port ENV_DNS_PORT) 53 = Ok (dns_port c)
   \<and> env_value (get ENV_HTTP_PORT) (parse_port ENV_HTTP_PORT) 80 = Ok (http_port c)
   \<and> env_value (get ENV_HTTP_FALLBACK_PORT) (parse_port ENV_HTTP_FALLBACK_PORT) 8053
       = Ok (http_fallback_port c)
   \<and> unwrap_or (map_option normalize_tld (get ENV_TLD)) ''dig'' = tld c
   \<and> env_value (get ENV_DNS_TTL) parse_ttl_var 2 = Ok (dns_ttl_secs c)
   \<and> opt_filter (\<lambda>s. s \<noteq> []) (map_option trim (get ENV_NODE_URL)) = node_url c
   \<and> env_value (get ENV_DIG_LOCAL_IP) (parse_ip_var ENV_DIG_LOCAL_IP) (Ipv4Addr 127 0 0 2)
       = Ok (dig_local_ip c)
   \<and> env_value (get ENV_DIG_LOCAL_PORT) (parse_port ENV_DIG_LOCAL_PORT) 80 = Ok (dig_local_port c)
   \<and> env_value (get ENV_SECURE_UPSTREAM) parse_secure_upstream True = Ok (secure_upstream c)"

lemma layers:
  "layer v p0 (\<lambda>x c. c\<lparr>loopback_ip := x\<rparr>) a
    = map_res (\<lambda>x. a\<lparr>loopback_ip := x\<rparr>) (env_value v p0 (loopback_ip a))"
  "layer v p1 (\<lambda>x c. c\<lparr>dns_port := x\<rparr>) a
    = map_res (\<lambda>x. a\<lparr>dns_port := x\<rparr>) (env_value v p1 (dns_port a))"
  "layer v p2 (\<lambda>x c. c\<lparr>http_port := x\<rparr>) a
    = map_res (\<lambda>x. a\<lparr>http_port := x\<rparr>) (env_value v p2 (http_port a))"
  "layer v p3 (\<lambda>x c. c\<lparr>http_fallback_port := x\<rparr>) a
    = map_res (\<lambda>x. a\<lparr>http_fallback_port := x\<rparr>) (env_value v p3 (http_fallback_port a))"
  "layer v p4 (\<lambda>x c. c\<lparr>tld := x\<rparr>) a
    = map_res (\<lambda>x. a\<lparr>tld := x\<rparr>) (env_value v p4 (tld a))"
  "layer v p5 (\<lambda>x c. c\<lparr>dns_ttl_secs := x\<rparr>) a
    = map_res (\<lambda>x. a\<lparr>dns_ttl_secs := x\<rparr>) (env_value v p5 (dns_ttl_secs a))"
  "layer v p6 (\<lambda>x c. c\<lparr>dig_local_ip := x\<rparr>) a
    = map_res (\<lambda>x. a\<lparr>dig_local_ip := x\<rparr>) (env_value v p6 (dig_local_ip a))"
  "layer v p7 (\<lambda>x c. c\<lparr>dig_local_port := x\<rparr>) a
    = map_res (\<lambda>x. a\<lparr>dig_local_port := x\<rparr>) (env_value v p7 (dig_local_port a))"
  "layer v p8 (\<lambda>x c. c\<lparr>secure_upstream := x\<rparr>) a
    = map_res (\<lambda>x. a\<lparr>secure_upstream := x\<rparr>) (env_value v p8 (secure_upstream a))"
  by (rule layer_eq, simp)+

lemma env_tld: "env_value v (\<lambda>v. Ok (normalize_tld v)) d = Ok (unwrap_or (map_option normalize_tld v) d)"
  by (cases v) (simp_all add: env_value_def)

lemma from_env_sound:
  assumes "from_env get = Ok cfg"
  shows "env_spec get cfg \<and> config_ok cfg"
  using assms
  unfolding from_env_def Let_def default_config_def default_values
  apply (simp only: layers rbind_Ok_iff map_res_Ok_iff ex_simps simp_thms)
  apply (elim exE conjE)
  apply hypsubst
  apply (simp only: env_spec_def env_tld resolve_node_override_env validate_Ok_iff config.simps
      simp_thms sum.inject)
  apply hypsubst
  apply (simp only: config.simps simp_thms)
  done

lemma from_env_complete:
  assumes "env_spec get cfg" "config_ok cfg"
  shows "from_env get = Ok cfg"
proof -
  have v: "validate cfg = Ok ()"
    using assms(2) by (simp add: validate_Ok_iff)
  have c: "\<lparr>loopback_ip = loopback_ip cfg, dns_port = dns_port cfg, http_port = http_port cfg,
      http_fallback_port = http_fallback_port cfg, tld = tld cfg, dns_ttl_secs = dns_ttl_secs cfg,
      node_url = node_url cfg, dig_local_ip = dig_local_ip cfg,
      dig_local_port = dig_local_port cfg, secure_upstream = secure_upstream cfg\<rparr> = cfg"
    by (cases cfg) (simp only: config.simps)
  note e = assms(1) [unfolded env_spec_def]
  show ?thesis
    unfolding from_env_def default_config_def default_values Let_def
    by (simp only: e layers env_tld resolve_node_override_env v c config.simps map_res.simps
        rbind.simps)
qed

lemma port_8080: "parse_port k ''8080'' = Ok 8080"
  by (simp add: parse_port_def str_eval)

lemma tld_web3: "normalize_tld '' .WEB3'' = ''web3''"
  by code_simp

lemma from_env_web3:
  "from_env (\<lambda>k. if k = ENV_TLD then Some '' .WEB3'' else if k = ENV_HTTP_PORT then Some ''8080''
     else None) = Ok (default_config\<lparr>tld := ''web3'', http_port := 8080\<rparr>)"
proof (rule from_env_complete)
  show "env_spec (\<lambda>k. if k = ENV_TLD then Some '' .WEB3'' else if k = ENV_HTTP_PORT
      then Some ''8080'' else None) (default_config\<lparr>tld := ''web3'', http_port := 8080\<rparr>)"
    by (simp add: env_spec_def env_names env_value_def default_config_def port_8080 tld_web3)
  show "config_ok (default_config\<lparr>tld := ''web3'', http_port := 8080\<rparr>)"
    by (simp add: config_ok_def default_config_def is_safe_tld_def is_lower_def is_digit_def
        char_code_def)
qed

section \<open>Properties\<close>

text \<open>Every configuration the environment can produce satisfies the invariants the service
  relies on: both bind addresses are loopback, no port is zero, the TLD consists of
  \<open>[a-z0-9-]\<close> only and the node URL has no control character.\<close>

theorem from_env_valid:
  assumes "from_env get = Ok cfg"
  shows "config_ok cfg"
  using from_env_sound [OF assms] by simp

theorem from_env_valid_witness:
  "config_ok (default_config\<lparr>tld := ''web3'', http_port := 8080\<rparr>)"
  by (rule from_env_valid [OF from_env_web3])

text \<open>C40. Loading succeeds exactly when every variable that is set parses and the layered result
  is valid, and the result is then the defaults overridden by the parsed values (a blank node URL
  counts as unset).\<close>

theorem from_env_iff: "from_env get = Ok cfg \<longleftrightarrow> env_spec get cfg \<and> config_ok cfg"
  using from_env_sound from_env_complete by blast

end
