(* ===== verification/Json.thy ===== *)
theory Json
  imports RustStr
begin

text \<open>
  The interface of \<open>serde_json::Value\<close>, which the node contract and the health reports build and
  read: a record of the accessors and constructors the sources call, the laws its documentation
  promises as the locale \<open>json_values\<close>, and the tree of JSON values as the instance the witnesses
  compute with.
\<close>

record 'v json_ops =
  jget :: "'v \<Rightarrow> string \<Rightarrow> 'v option"
  as_str :: "'v \<Rightarrow> string option"
  as_bool :: "'v \<Rightarrow> bool option"
  as_u64 :: "'v \<Rightarrow> u64 option"
  as_i64 :: "'v \<Rightarrow> u64 option"
  as_array :: "'v \<Rightarrow> 'v list option"
  jnull :: 'v
  jstr :: "string \<Rightarrow> 'v"
  jbool :: "bool \<Rightarrow> 'v"
  ju64 :: "u64 \<Rightarrow> 'v"
  jarr :: "'v list \<Rightarrow> 'v"
  jobj :: "(string \<times> 'v) list \<Rightarrow> 'v"
  jset :: "'v \<Rightarrow> string \<Rightarrow> 'v \<Rightarrow> 'v"
  jto_vec :: "'v \<Rightarrow> bytes option"

text \<open>\<open>jobj\<close> is an object literal of \<open>json!\<close> (its keys are distinct in the sources), \<open>jset v k x\<close> is
  \<open>v[k] = x\<close> on an object, \<open>as_array\<close> is the pattern \<open>Value::Array(items)\<close> and \<open>jto_vec\<close> is
  \<open>serde_json::to_vec\<close>. An \<open>i64\<close> is a 64-bit word, read with its sign.\<close>

locale json_values =
  fixes J :: "'v json_ops"
  assumes get_obj: "distinct (map fst kvs) \<Longrightarrow> jget J (jobj J kvs) k = map_of kvs k"
    and get_set: "jget J (jset J (jobj J kvs) k x) k'
                    = (if k' = k then Some x else jget J (jobj J kvs) k')"
    and set_get: "jget J v j \<noteq> None \<Longrightarrow>
                    jget J (jset J v k x) k' = (if k' = k then Some x else jget J v k')"
    and str_str: "as_str J (jstr J s) = Some s"
    and bool_bool: "as_bool J (jbool J b) = Some b"
    and u64_u64: "as_u64 J (ju64 J n) = Some n"
    and arr_arr: "as_array J (jarr J vs) = Some vs"
    and arr_obj: "as_array J (jobj J kvs) = None"

section \<open>JSON trees\<close>

datatype json =
    Null
  | Bool bool
  | PosInt u64
  | NegInt u64
  | Str string
  | Array "json list"
  | Object "(string \<times> json) list"

fun json_get :: "json \<Rightarrow> string \<Rightarrow> json option" where
  "json_get (Object kvs) k = map_of kvs k"
| "json_get _ k = None"

fun json_as_u64 :: "json \<Rightarrow> u64 option" where
  "json_as_u64 (PosInt n) = Some n"
| "json_as_u64 _ = None"

fun json_as_i64 :: "json \<Rightarrow> u64 option" where
  "json_as_i64 (PosInt n) = (if unat n < 2 ^ 63 then Some n else None)"
| "json_as_i64 (NegInt n) = Some n"
| "json_as_i64 _ = None"

fun json_set :: "json \<Rightarrow> string \<Rightarrow> json \<Rightarrow> json" where
  "json_set (Object kvs) k x = Object ((k, x) # filter (\<lambda>(k', _). k' \<noteq> k) kvs)"
| "json_set v k x = v"

text \<open>The text of a value; strings are written as they are, which is enough for the witnesses.\<close>

definition json_quoted :: "string \<Rightarrow> string" where
  "json_quoted s = [CHR 0x22] @ s @ [CHR 0x22]"

fun json_text :: "json \<Rightarrow> string" where
  "json_text Null = ''null''"
| "json_text (Bool b) = (if b then ''true'' else ''false'')"
| "json_text (PosInt n) = show_word n"
| "json_text (NegInt n) = ''-'' @ show_word (- n)"
| "json_text (Str s) = json_quoted s"
| "json_text (Array vs) = ''['' @ join_with '','' (map json_text vs) @ '']''"
| "json_text (Object kvs) =
     ''{'' @ join_with '','' (map (\<lambda>(k, v). json_quoted k @ '':'' @ json_text v) kvs) @ ''}''"

definition json_tree :: "json json_ops" where
  "json_tree = \<lparr>
     jget = json_get,
     as_str = (\<lambda>v. case v of Str s \<Rightarrow> Some s | _ \<Rightarrow> None),
     as_bool = (\<lambda>v. case v of Bool b \<Rightarrow> Some b | _ \<Rightarrow> None),
     as_u64 = json_as_u64,
     as_i64 = json_as_i64,
     as_array = (\<lambda>v. case v of Array vs \<Rightarrow> Some vs | _ \<Rightarrow> None),
     jnull = Null,
     jstr = Str,
     jbool = Bool,
     ju64 = PosInt,
     jarr = Array,
     jobj = Object,
     jset = json_set,
     jto_vec = (\<lambda>v. Some (str_bytes (json_text v)))\<rparr>"

lemma map_of_filter_key: "map_of (filter (\<lambda>(k', _). k' \<noteq> k) kvs) j = (if j = k then None else map_of kvs j)"
  by (induction kvs) auto

lemma json_set_get:
  "json_get v j \<noteq> None \<Longrightarrow> json_get (json_set v k x) k' = (if k' = k then Some x else json_get v k')"
  by (cases v) (auto simp: map_of_filter_key)

interpretation tree: json_values json_tree
  by unfold_locales (auto simp: json_tree_def map_of_filter_key json_set_get)

end
