(* ===== verification/Node.thy ===== *)
theory Node
  imports Config Json
begin

text \<open>
  \<open>src/node.rs\<close>: the read contract with the dig-node. The requests and responses are JSON values of
  the interface \<open>json_ops\<close>; \<open>b64\<close> is the decoder of the \<open>base64\<close> crate and \<open>node_port\<close> the constant
  \<open>dig_constants::DIG_NODE_PORT\<close>.
\<close>

definition DIG_LOCAL_BASE :: string where "DIG_LOCAL_BASE = ''http://dig.local''"
definition RPC_DIG_NET_BASE :: string where "RPC_DIG_NET_BASE = ''https://rpc.dig.net''"

datatype node_error =
    Rpc (err_code: u64) (err_message: string) (data_code: "string option")
  | Malformed string
  | Transport string

fun is_not_found :: "node_error \<Rightarrow> bool" where
  "is_not_found (Rpc c m d) \<longleftrightarrow>
     (c = - 32004 \<or> c = - 32005)
     \<or> (d = Some ''RESOURCE_UNAVAILABLE'' \<or> d = Some ''ROOT_NOT_ANCHORED'')"
| "is_not_found (Malformed m) \<longleftrightarrow> False"
| "is_not_found (Transport m) \<longleftrightarrow> False"

record fetched_content =
  ciphertext :: bytes
  root_hex :: string
  inclusion_proof_b64 :: string
  chunk_lens :: "u64 list"

definition candidate_bases :: "u16 \<Rightarrow> config \<Rightarrow> string list" where
  "candidate_bases node_port cfg =
     (case node_url cfg of
        Some url \<Rightarrow> [trim_end_matches CHR ''/'' url]
      | None \<Rightarrow> [DIG_LOCAL_BASE, ''http://localhost:'' @ show_word node_port, RPC_DIG_NET_BASE])"

definition build_anchored_root_params :: "'v json_ops \<Rightarrow> string \<Rightarrow> 'v" where
  "build_anchored_root_params J store_hex = jobj J [(''store_id'', jstr J store_hex)]"

definition build_content_params ::
  "'v json_ops \<Rightarrow> string \<Rightarrow> string \<Rightarrow> string option \<Rightarrow> u64 \<Rightarrow> 'v" where
  "build_content_params J store_hex retrieval_key_hex root offset =
     (let params = jobj J [(''store_id'', jstr J store_hex),
                           (''retrieval_key'', jstr J retrieval_key_hex),
                           (''offset'', ju64 J offset)]
      in case root of Some r \<Rightarrow> jset J params ''root'' (jstr J r) | None \<Rightarrow> params)"

definition parse_rpc_result :: "'v json_ops \<Rightarrow> 'v \<Rightarrow> node_error + 'v" where
  "parse_rpc_result J response =
     (case jget J response ''error'' of
        Some err \<Rightarrow> Err (Rpc
          (unwrap_or (Option.bind (jget J err ''code'') (as_i64 J)) 0)
          (unwrap_or (Option.bind (jget J err ''message'') (as_str J)) [])
          (Option.bind (Option.bind (jget J err ''data'') (\<lambda>d. jget J d ''code'')) (as_str J)))
      | None \<Rightarrow> ok_or (Malformed ''response has neither result nor error'')
                  (jget J response ''result''))"

definition parse_anchored_root :: "'v json_ops \<Rightarrow> 'v \<Rightarrow> node_error + string" where
  "parse_anchored_root J result =
     rbind (ok_or (Malformed (''anchored-root result missing '' @ [CHR 0x27] @ ''root'' @ [CHR 0x27]))
              (Option.bind (jget J result ''root'') (as_str J))) (\<lambda>root.
     if length root \<noteq> 64 \<or> \<not> list_all is_hexdigit root
     then Err (Malformed (''anchored root is not 64-hex: '' @ root))
     else Ok root)"

text \<open>\<open>w.get("complete").and_then(Value::as_bool).unwrap_or(false)\<close>.\<close>

definition is_complete :: "'v json_ops \<Rightarrow> 'v \<Rightarrow> bool" where
  "is_complete J w = unwrap_or (Option.bind (jget J w ''complete'') (as_bool J)) False"

text \<open>The loop of \<open>assemble_windows\<close> over the windows, \<open>i\<close> the index of the next one.\<close>

fun assemble_loop ::
  "'v json_ops \<Rightarrow> (string \<Rightarrow> bytes option) \<Rightarrow> nat \<Rightarrow> nat \<Rightarrow> 'v list \<Rightarrow> bytes \<Rightarrow> node_error + bytes" where
  "assemble_loop J b64 last_index i [] ct = Ok ct"
| "assemble_loop J b64 last_index i (w # ws) ct =
     rbind (ok_or (Malformed ''window missing ciphertext'')
              (Option.bind (jget J w ''ciphertext'') (as_str J))) (\<lambda>ct_b64.
     rbind (ok_or (Malformed ''ciphertext is not valid base64'') (b64 ct_b64)) (\<lambda>bs.
     if i = last_index \<and> \<not> is_complete J w then Err (Malformed ''final window is not complete'')
     else if i \<noteq> last_index \<and> is_complete J w
     then Err (Malformed ''a non-final window is marked complete'')
     else assemble_loop J b64 last_index (i + 1) ws (ct @ bs)))"

definition parse_chunk_lens :: "'v json_ops \<Rightarrow> 'v \<Rightarrow> node_error + u64 list" where
  "parse_chunk_lens J window =
     (case jget J window ''chunk_lens'' of
        Some v \<Rightarrow> (case as_array J v of
            Some items \<Rightarrow>
              collect_res (\<lambda>v. ok_or (Malformed ''chunk_lens entry is not a u64'') (as_u64 J v)) items
          | None \<Rightarrow> Err (Malformed ''chunk_lens is not an array''))
      | None \<Rightarrow> Err (Malformed ''first window missing chunk_lens''))"

definition assemble_windows ::
  "'v json_ops \<Rightarrow> (string \<Rightarrow> bytes option) \<Rightarrow> 'v list \<Rightarrow> node_error + fetched_content" where
  "assemble_windows J b64 windows =
     rbind (ok_or (Malformed ''no content windows'') (slice_get windows 0)) (\<lambda>fst_w.
     rbind (ok_or (Malformed ''first window missing inclusion_proof'')
              (Option.bind (jget J fst_w ''inclusion_proof'') (as_str J))) (\<lambda>proof_b64.
     rbind (parse_chunk_lens J fst_w) (\<lambda>lens.
     rbind (ok_or (Malformed ''window missing root'')
              (Option.bind (jget J fst_w ''root'') (as_str J))) (\<lambda>root.
     rbind (assemble_loop J b64 (length windows - 1) 0 windows []) (\<lambda>ct.
     Ok \<lparr>ciphertext = ct, root_hex = root, inclusion_proof_b64 = proof_b64, chunk_lens = lens\<rparr>)))))"

section \<open>Lemmas\<close>

lemma parse_anchored_root_hex:
  "parse_anchored_root J v = Ok r \<Longrightarrow> length r = 64 \<and> list_all is_hexdigit r"
  by (auto simp: parse_anchored_root_def rbind_Ok_iff split: if_splits)

text \<open>The bytes a window carries.\<close>

definition window_bytes :: "'v json_ops \<Rightarrow> (string \<Rightarrow> bytes option) \<Rightarrow> 'v \<Rightarrow> bytes option" where
  "window_bytes J b64 w = Option.bind (Option.bind (jget J w ''ciphertext'') (as_str J)) b64"

lemma window_bytes_Some_iff:
  "window_bytes J b64 w = Some bs \<longleftrightarrow>
     (\<exists>s. Option.bind (jget J w ''ciphertext'') (as_str J) = Some s \<and> b64 s = Some bs)"
  by (auto simp: window_bytes_def Option.bind_eq_Some_conv)

text \<open>Windows as a paging read delivers them: exactly the last one is complete.\<close>

fun last_complete :: "'v json_ops \<Rightarrow> 'v list \<Rightarrow> bool" where
  "last_complete J [] \<longleftrightarrow> False"
| "last_complete J [w] \<longleftrightarrow> is_complete J w"
| "last_complete J (w # ws) \<longleftrightarrow> \<not> is_complete J w \<and> last_complete J ws"

lemma assemble_step:
  "assemble_loop J b64 l i (w # ws) ct = Ok c \<longleftrightarrow>
     (\<exists>bs. window_bytes J b64 w = Some bs \<and> (i = l \<longleftrightarrow> is_complete J w)
        \<and> assemble_loop J b64 l (Suc i) ws (ct @ bs) = Ok c)"
proof (cases "Option.bind (jget J w ''ciphertext'') (as_str J)")
  case None
  then show ?thesis by (simp add: window_bytes_def)
next
  case (Some s)
  then show ?thesis by (cases "b64 s") (simp_all add: window_bytes_def)
qed

declare assemble_loop.simps(2) [simp del]

lemma assemble_loop_Ok_iff:
  assumes "ws \<noteq> []" "l = i + length ws - 1"
  shows "assemble_loop J b64 l i ws ct = Ok c \<longleftrightarrow>
    last_complete J ws \<and> (\<exists>bss. those (map (window_bytes J b64) ws) = Some bss \<and> c = ct @ concat bss)"
  using assms
proof (induction J ws arbitrary: i ct rule: last_complete.induct)
  case (2 J w)
  then show ?case
    by (auto simp: assemble_step split: option.splits)
next
  case (3 J w v vs)
  have ih: "assemble_loop J b64 l (Suc i) (v # vs) (ct @ bs) = Ok c \<longleftrightarrow>
      last_complete J (v # vs) \<and> (\<exists>bss. those (map (window_bytes J b64) (v # vs)) = Some bss
        \<and> c = (ct @ bs) @ concat bss)" for bs
    by (rule "3.IH") (use "3.prems" in simp_all)
  have "i \<noteq> l" using "3.prems" by simp
  then have "assemble_loop J b64 l i (w # v # vs) ct = Ok c \<longleftrightarrow>
      (\<exists>bs. window_bytes J b64 w = Some bs \<and> \<not> is_complete J w
        \<and> assemble_loop J b64 l (Suc i) (v # vs) (ct @ bs) = Ok c)"
    by (simp add: assemble_step [of J b64 l i w])
  also have "\<dots> \<longleftrightarrow> \<not> is_complete J w \<and> last_complete J (v # vs) \<and>
      (\<exists>bs bss. window_bytes J b64 w = Some bs \<and> those (map (window_bytes J b64) (v # vs)) = Some bss
        \<and> c = ct @ bs @ concat bss)"
    unfolding ih by auto
  also have "\<dots> \<longleftrightarrow> last_complete J (w # v # vs) \<and>
      (\<exists>bss. those (map (window_bytes J b64) (w # v # vs)) = Some bss \<and> c = ct @ concat bss)"
    by (cases "window_bytes J b64 w"; cases "those (map (window_bytes J b64) (v # vs))")
       (simp_all del: list.map add: list.map(2) [of _ w])
  finally show ?case .
qed simp

text \<open>What a successful assembly read off the windows.\<close>

lemma assemble_windows_Ok_iff:
  "assemble_windows J b64 ws = Ok c \<longleftrightarrow>
     ws \<noteq> [] \<and> last_complete J ws
     \<and> Option.bind (jget J (hd ws) ''inclusion_proof'') (as_str J) = Some (inclusion_proof_b64 c)
     \<and> parse_chunk_lens J (hd ws) = Ok (chunk_lens c)
     \<and> Option.bind (jget J (hd ws) ''root'') (as_str J) = Some (root_hex c)
     \<and> map_option concat (those (map (window_bytes J b64) ws)) = Some (ciphertext c)"
proof (cases ws)
  case Nil
  then show ?thesis by (simp add: assemble_windows_def)
next
  case (Cons w vs)
  then have first: "slice_get ws 0 = Some (hd ws)" and ne: "ws \<noteq> []" by simp_all
  show ?thesis
    unfolding assemble_windows_def first
    by (cases c) (auto simp: rbind_Ok_iff assemble_loop_Ok_iff [OF ne] ne)
qed

end
