(* ===== verification/Transport.thy ===== *)
theory Transport
  imports Node Codec
begin

text \<open>
  \<open>src/transport.rs\<close>: the client of the dig-node. The trait \<open>NodeClient\<close> is the record
  \<open>node_client\<close> of its operations, each a function of the state \<open>'w\<close> of the outside world; the HTTP
  client (\<open>reqwest\<close>) is the record \<open>http_ops\<close>, an argument of the model. An \<open>await\<close> hands the world
  to the next call, so a sequence of requests is a sequence of state transformations.
\<close>

section \<open>Interfaces\<close>

datatype 'v http_reply =
    SendFailed string
  | Response (status_success: bool) (status_text: string) (body_json: "string + 'v")

text \<open>\<open>http_post\<close> sends a JSON body, \<open>http_probe\<close> is whether a \<open>GET\<close> with the probe timeout got any
  response.\<close>

record ('w, 'v) http_ops =
  http_post :: "string \<Rightarrow> 'v \<Rightarrow> 'w \<Rightarrow> 'v http_reply \<times> 'w"
  http_probe :: "string \<Rightarrow> 'w \<Rightarrow> bool \<times> 'w"

record 'w node_client =
  base_url :: string
  healthy :: "'w \<Rightarrow> bool \<times> 'w"
  get_anchored_root :: "string \<Rightarrow> 'w \<Rightarrow> (node_error + string) \<times> 'w"
  get_content :: "string \<Rightarrow> string \<Rightarrow> string option \<Rightarrow> 'w \<Rightarrow> (node_error + fetched_content) \<times> 'w"

text \<open>What the gateway relies on: an anchored root is 64 hex digits.\<close>

locale node_contract =
  fixes N :: "'w node_client"
  assumes root_is_hex:
    "get_anchored_root N store_hex w = (Ok root, w') \<Longrightarrow> length root = 64 \<and> list_all is_hexdigit root"
begin

lemma root_nonempty: "get_anchored_root N store_hex w = (Ok root, w') \<Longrightarrow> root \<noteq> []"
  using root_is_hex by force

lemma root_no_header_break:
  assumes "get_anchored_root N store_hex w = (Ok root, w')"
  shows "list_all graphic root"
proof -
  have "is_hexdigit c \<Longrightarrow> graphic c" for c
    by (auto simp: is_hexdigit_def is_digit_def graphic_def)
  with root_is_hex [OF assms] show ?thesis
    by (simp add: list_all_iff)
qed

end

section \<open>The client\<close>

definition MAX_CONTENT_WINDOWS :: nat where "MAX_CONTENT_WINDOWS = 100000"

text \<open>\<open>with_secure_upstream\<close> and \<open>build_http_client\<close>: \<open>mk_resolver\<close> is \<open>SecureResolver::new\<close> and
  \<open>mk_client b\<close> is \<open>ClientBuilder::build\<close> of a builder with (\<open>b\<close>) or without that resolver.\<close>

definition with_secure_upstream :: "(string + unit) \<Rightarrow> bool \<Rightarrow> node_error + bool" where
  "with_secure_upstream mk_resolver secure =
     (if \<not> secure then Ok False
      else case mk_resolver of
          Inl e \<Rightarrow> Err (Transport (''secure upstream resolver: '' @ e))
        | Inr _ \<Rightarrow> Ok True)"

definition build_http_client ::
  "(string + unit) \<Rightarrow> (bool \<Rightarrow> string + 'c) \<Rightarrow> bool \<Rightarrow> node_error + 'c" where
  "build_http_client mk_resolver mk_client secure =
     rbind (with_secure_upstream mk_resolver secure) (\<lambda>b.
     case mk_client b of Inl e \<Rightarrow> Err (Transport e) | Inr c \<Rightarrow> Ok c)"

definition probe :: "('w, 'v) http_ops \<Rightarrow> string \<Rightarrow> 'w \<Rightarrow> bool \<times> 'w" where
  "probe http base w = http_probe http (base @ ''/health'') w"

text \<open>The loop of \<open>resolve\<close> over the candidates, \<open>i\<close> the index of the next one.\<close>

fun resolve_loop ::
  "('w, 'v) http_ops \<Rightarrow> nat \<Rightarrow> nat \<Rightarrow> string list \<Rightarrow> 'w \<Rightarrow> (node_error + string) \<times> 'w" where
  "resolve_loop http lst i [] w = (Err (Transport ''no node endpoint candidates''), w)"
| "resolve_loop http lst i (base # bases) w =
     (if i = lst then (Ok base, w)
      else let (ok, w') = probe http base w
           in if ok then (Ok base, w') else resolve_loop http lst (i + 1) bases w')"

definition resolve ::
  "(string + unit) \<Rightarrow> (bool \<Rightarrow> string + ('w, 'v) http_ops) \<Rightarrow> u16 \<Rightarrow> config \<Rightarrow> 'w
     \<Rightarrow> (node_error + ('w, 'v) http_ops \<times> string) \<times> 'w" where
  "resolve mk_resolver mk_client node_port cfg w =
     (case build_http_client mk_resolver mk_client (secure_upstream cfg) of
        Inl e \<Rightarrow> (Err e, w)
      | Inr http \<Rightarrow>
          let bases = candidate_bases node_port cfg;
              (r, w') = resolve_loop http (length bases - 1) 0 bases w
          in (map_res (\<lambda>base. (http, base)) r, w'))"

definition with_base ::
  "(string + unit) \<Rightarrow> (bool \<Rightarrow> string + ('w, 'v) http_ops) \<Rightarrow> string
     \<Rightarrow> node_error + ('w, 'v) http_ops \<times> string" where
  "with_base mk_resolver mk_client base =
     map_res (\<lambda>http. (http, trim_end_matches CHR ''/'' base))
       (build_http_client mk_resolver mk_client True)"

definition rpc_body :: "'v json_ops \<Rightarrow> string \<Rightarrow> 'v \<Rightarrow> 'v" where
  "rpc_body J meth params =
     jobj J [(''jsonrpc'', jstr J ''2.0''), (''id'', ju64 J 1), (''method'', jstr J meth),
             (''params'', params)]"

definition call ::
  "'v json_ops \<Rightarrow> ('w, 'v) http_ops \<Rightarrow> string \<Rightarrow> string \<Rightarrow> 'v \<Rightarrow> 'w \<Rightarrow> (node_error + 'v) \<times> 'w" where
  "call J http base meth params w =
     (let (reply, w') = http_post http (base @ ''/'') (rpc_body J meth params) w
      in (case reply of
            SendFailed e \<Rightarrow> Err (Transport e)
          | Response success status body \<Rightarrow>
              if \<not> success then Err (Transport (''HTTP '' @ status))
              else (case body of Inl e \<Rightarrow> Err (Transport e) | Inr v \<Rightarrow> parse_rpc_result J v), w'))"

definition reqwest_get_anchored_root ::
  "'v json_ops \<Rightarrow> ('w, 'v) http_ops \<Rightarrow> string \<Rightarrow> string \<Rightarrow> 'w \<Rightarrow> (node_error + string) \<times> 'w" where
  "reqwest_get_anchored_root J http base store_hex w =
     (let (r, w') = call J http base ''dig.getAnchoredRoot'' (build_anchored_root_params J store_hex) w
      in (rbind r (parse_anchored_root J), w'))"

text \<open>The paging loop of \<open>get_content\<close>.\<close>

function fetch_windows ::
  "'v json_ops \<Rightarrow> ('w, 'v) http_ops \<Rightarrow> string \<Rightarrow> string \<Rightarrow> string \<Rightarrow> string option
     \<Rightarrow> 'v list \<Rightarrow> u64 \<Rightarrow> 'w \<Rightarrow> (node_error + 'v list) \<times> 'w" where
  "fetch_windows J http base store_hex key root windows offset w =
     (if MAX_CONTENT_WINDOWS \<le> length windows
      then (Err (Malformed ''content never completed within the window cap''), w)
      else case call J http base ''dig.getContent'' (build_content_params J store_hex key root offset) w of
          (Inl e, w') \<Rightarrow> (Err e, w')
        | (Inr result, w') \<Rightarrow>
            if is_complete J result then (Ok (windows @ [result]), w')
            else case Option.bind (jget J result ''next_offset'') (as_u64 J) of
                Some next \<Rightarrow>
                  if offset < next
                  then fetch_windows J http base store_hex key root (windows @ [result]) next w'
                  else (Err (Malformed ''incomplete window without an advancing next_offset''), w')
              | None \<Rightarrow> (Err (Malformed ''incomplete window without an advancing next_offset''), w'))"
  by pat_completeness auto
termination
  by (relation "measure (\<lambda>(J, http, base, s, k, r, windows, off, w). MAX_CONTENT_WINDOWS - length windows)")
     auto

declare fetch_windows.simps [simp del]

definition reqwest_get_content ::
  "'v json_ops \<Rightarrow> (string \<Rightarrow> bytes option) \<Rightarrow> ('w, 'v) http_ops \<Rightarrow> string \<Rightarrow> string \<Rightarrow> string
     \<Rightarrow> string option \<Rightarrow> 'w \<Rightarrow> (node_error + fetched_content) \<times> 'w" where
  "reqwest_get_content J b64 http base store_hex key root w =
     (case fetch_windows J http base store_hex key root [] 0 w of
        (Inl e, w') \<Rightarrow> (Err e, w')
      | (Inr windows, w') \<Rightarrow> (assemble_windows J b64 windows, w'))"

text \<open>\<open>impl NodeClient for ReqwestNodeClient\<close>.\<close>

definition reqwest_node_client ::
  "'v json_ops \<Rightarrow> (string \<Rightarrow> bytes option) \<Rightarrow> ('w, 'v) http_ops \<Rightarrow> string \<Rightarrow> 'w node_client" where
  "reqwest_node_client J b64 http base =
     \<lparr>base_url = base,
      healthy = probe http base,
      get_anchored_root = reqwest_get_anchored_root J http base,
      get_content = reqwest_get_content J b64 http base\<rparr>"

interpretation reqwest: node_contract "reqwest_node_client J b64 http base"
  by unfold_locales
     (auto simp: reqwest_node_client_def reqwest_get_anchored_root_def rbind_Ok_iff
       dest!: parse_anchored_root_hex split: prod.splits)

section \<open>Paging as a relation\<close>

definition next_offset :: "'v json_ops \<Rightarrow> 'v \<Rightarrow> u64 option" where
  "next_offset J v = Option.bind (jget J v ''next_offset'') (as_u64 J)"

text \<open>\<open>paged \<dots> off w vs w'\<close>: asking from offset \<open>off\<close> in world \<open>w\<close>, the node delivers the windows
  \<open>vs\<close>, each at the offset the one before announced, and leaves the world \<open>w'\<close>.\<close>

inductive paged ::
  "'v json_ops \<Rightarrow> ('w, 'v) http_ops \<Rightarrow> string \<Rightarrow> string \<Rightarrow> string \<Rightarrow> string option
     \<Rightarrow> u64 \<Rightarrow> 'w \<Rightarrow> 'v list \<Rightarrow> 'w \<Rightarrow> bool"
  for J http base store_hex key root
where
  paged_last:
    "\<lbrakk>call J http base ''dig.getContent'' (build_content_params J store_hex key root off) w = (Ok v, w');
      is_complete J v\<rbrakk>
     \<Longrightarrow> paged J http base store_hex key root off w [v] w'"
| paged_more:
    "\<lbrakk>call J http base ''dig.getContent'' (build_content_params J store_hex key root off) w = (Ok v, w1);
      \<not> is_complete J v; next_offset J v = Some n; off < n;
      paged J http base store_hex key root n w1 vs w'\<rbrakk>
     \<Longrightarrow> paged J http base store_hex key root off w (v # vs) w'"

lemma paged_last_complete:
  "paged J http base store_hex key root off w vs w' \<Longrightarrow> last_complete J vs"
proof (induction rule: paged.induct)
  case (paged_more off w v w1 n vs w')
  then show ?case by (cases vs) simp_all
qed simp

lemma paged_fetch:
  assumes "paged J http base store_hex key root off w vs w'"
    and "length acc + length vs \<le> MAX_CONTENT_WINDOWS"
  shows "fetch_windows J http base store_hex key root acc off w = (Ok (acc @ vs), w')"
  using assms
proof (induction arbitrary: acc rule: paged.induct)
  case (paged_last off w v w')
  then show ?case
    by (subst fetch_windows.simps) simp
next
  case (paged_more off w v w1 n vs w')
  have "length acc < MAX_CONTENT_WINDOWS"
    using paged_more.prems by simp
  moreover have "fetch_windows J http base store_hex key root (acc @ [v]) n w1 = (Ok ((acc @ [v]) @ vs), w')"
    using paged_more.prems by (intro paged_more.IH) simp
  ultimately show ?case
    using paged_more.hyps by (subst fetch_windows.simps) (simp add: next_offset_def)
qed

lemma fetch_paged:
  assumes "fetch_windows J http base store_hex key root acc off w = (Ok ws, w')"
  shows "\<exists>vs. ws = acc @ vs \<and> paged J http base store_hex key root off w vs w'
    \<and> length ws \<le> MAX_CONTENT_WINDOWS"
  using assms
proof (induction J http base store_hex key root acc off w rule: fetch_windows.induct)
  case (1 J http base store_hex key root acc off w)
  let ?call = "call J http base ''dig.getContent'' (build_content_params J store_hex key root off) w"
  have cap: "length acc < MAX_CONTENT_WINDOWS"
    using "1.prems" by (subst (asm) fetch_windows.simps) (simp split: if_splits)
  obtain v w1 where c: "?call = (Ok v, w1)"
    using "1.prems" cap
    by (subst (asm) fetch_windows.simps) (cases ?call; cases "fst ?call"; simp)
  show ?case
  proof (cases "is_complete J v")
    case True
    then have "ws = acc @ [v]" "w' = w1"
      using "1.prems" cap c by (subst (asm) fetch_windows.simps, simp)+
    with True c cap show ?thesis
      by (intro exI [of _ "[v]"]) (simp add: paged_last)
  next
    case False
    then obtain n where n: "next_offset J v = Some n" "off < n"
      using "1.prems" cap c
      by (subst (asm) fetch_windows.simps) (auto simp: next_offset_def split: option.splits if_splits)
    have rec: "fetch_windows J http base store_hex key root (acc @ [v]) n w1 = (Ok ws, w')"
      using "1.prems" cap c False n
      by (subst (asm) fetch_windows.simps) (simp add: next_offset_def)
    obtain vs where "ws = (acc @ [v]) @ vs" "paged J http base store_hex key root n w1 vs w'"
      "length ws \<le> MAX_CONTENT_WINDOWS"
      using "1.IH" [OF _ c [symmetric] refl False _ n(2) rec] cap n(1)
      by (auto simp: next_offset_def)
    then show ?thesis
      using paged_more [OF c False n] by (intro exI [of _ "v # vs"]) simp
  qed
qed

lemma fetch_windows_iff:
  "fetch_windows J http base store_hex key root [] off w = (Ok ws, w') \<longleftrightarrow>
     paged J http base store_hex key root off w ws w' \<and> length ws \<le> MAX_CONTENT_WINDOWS"
  using fetch_paged [of J http base store_hex key root "[]" off w ws w']
    paged_fetch [of J http base store_hex key root off w ws w' "[]"] by auto

section \<open>The requests that are sent\<close>

text \<open>The same client over a world that records every request.\<close>

definition logged :: "('w, 'v) http_ops \<Rightarrow> ((string \<times> 'v) list \<times> 'w, 'v) http_ops" where
  "logged http = \<lparr>
     http_post = (\<lambda>url body (log, w). let (r, w') = http_post http url body w in (r, (log @ [(url, body)], w'))),
     http_probe = (\<lambda>url (log, w). let (r, w') = http_probe http url w in (r, (log, w')))\<rparr>"

definition content_request ::
  "'v json_ops \<Rightarrow> string \<Rightarrow> string \<Rightarrow> string \<Rightarrow> string option \<Rightarrow> u64 \<Rightarrow> string \<times> 'v" where
  "content_request J base store_hex key root off =
     (base @ ''/'', rpc_body J ''dig.getContent'' (build_content_params J store_hex key root off))"

lemma call_logged:
  "\<exists>r w'. call J (logged http) base ''dig.getContent'' (build_content_params J store_hex key root off) (log, w)
     = (r, (log @ [content_request J base store_hex key root off], w'))"
  by (simp add: call_def logged_def content_request_def Let_def split: prod.split)

lemma fetch_logged:
  assumes "length acc \<le> MAX_CONTENT_WINDOWS"
  shows "\<exists>offs w'. snd (fetch_windows J (logged http) base store_hex key root acc off (log, w))
      = (log @ map (content_request J base store_hex key root) offs, w')
    \<and> length acc + length offs \<le> MAX_CONTENT_WINDOWS
    \<and> (\<forall>x \<in> set offs. off \<le> x) \<and> sorted_wrt (<) offs"
  using assms
proof (induction "MAX_CONTENT_WINDOWS - length acc" arbitrary: acc off log w rule: less_induct)
  case less
  let ?req = "content_request J base store_hex key root"
  obtain r w1 where c: "call J (logged http) base ''dig.getContent''
      (build_content_params J store_hex key root off) (log, w) = (r, (log @ [?req off], w1))"
    using call_logged [of J http base store_hex key root off log w] by blast
  show ?case
  proof (cases "MAX_CONTENT_WINDOWS \<le> length acc")
    case True
    then show ?thesis
      using less.prems by (subst fetch_windows.simps) (auto intro!: exI [of _ "[]"])
  next
    case False
    then have cap: "length acc < MAX_CONTENT_WINDOWS" by simp
    show ?thesis
    proof (cases "\<exists>v n. r = Ok v \<and> \<not> is_complete J v \<and> next_offset J v = Some n \<and> off < n")
      case True
      then obtain v n where v: "r = Ok v" "\<not> is_complete J v" "next_offset J v = Some n" "off < n"
        by blast
      obtain offs w' where rec: "snd (fetch_windows J (logged http) base store_hex key root (acc @ [v]) n
            (log @ [?req off], w1)) = ((log @ [?req off]) @ map ?req offs, w')"
        "length (acc @ [v]) + length offs \<le> MAX_CONTENT_WINDOWS"
        "\<forall>x \<in> set offs. n \<le> x" "sorted_wrt (<) offs"
      proof -
        have "MAX_CONTENT_WINDOWS - length (acc @ [v]) < MAX_CONTENT_WINDOWS - length acc"
          "length (acc @ [v]) \<le> MAX_CONTENT_WINDOWS"
          using cap by (simp_all add: diff_less_mono2)
        from less.hyps [OF this, of n "log @ [?req off]" w1] that show ?thesis by blast
      qed
      have after: "\<forall>x \<in> set offs. off < x"
        using rec(3) v(4) by (auto intro: less_le_trans)
      then have from_off: "\<forall>x \<in> set (off # offs). off \<le> x" by (auto intro: less_imp_le)
      have "snd (fetch_windows J (logged http) base store_hex key root acc off (log, w))
          = (log @ map ?req (off # offs), w')"
        using cap c v rec(1) by (subst fetch_windows.simps) (simp add: next_offset_def)
      with after from_off rec(2,4) show ?thesis
        by (intro exI [of _ "off # offs"] exI [of _ w']) simp
    next
      case False
      have "snd (fetch_windows J (logged http) base store_hex key root acc off (log, w))
          = (log @ map ?req [off], w1)"
        using cap c False
        by (subst fetch_windows.simps) (auto simp: next_offset_def split: sum.split option.split)
      then show ?thesis
        using cap by (intro exI [of _ "[off]"] exI [of _ w1]) simp
    qed
  qed
qed

section \<open>A conforming node\<close>

text \<open>The window of a resource held as the segments \<open>segs\<close>: segment \<open>i\<close> starts at the length of the
  segments before it; all but the last announce where the next one starts.\<close>

definition seg_offset :: "bytes list \<Rightarrow> nat \<Rightarrow> u64" where
  "seg_offset segs i = of_nat (length (concat (take i segs)))"

definition conforming_window ::
  "'v json_ops \<Rightarrow> (bytes \<Rightarrow> string) \<Rightarrow> fetched_content \<Rightarrow> bytes list \<Rightarrow> nat \<Rightarrow> 'v" where
  "conforming_window J enc c segs i =
     jobj J ([(''ciphertext'', jstr J (enc (segs ! i))), (''root'', jstr J (root_hex c)),
              (''complete'', jbool J (Suc i = length segs)),
              (''inclusion_proof'', jstr J (inclusion_proof_b64 c)),
              (''chunk_lens'', jarr J (map (ju64 J) (chunk_lens c)))]
             @ (if Suc i = length segs then [] else [(''next_offset'', ju64 J (seg_offset segs (Suc i)))]))"

context json_values
begin

lemma conforming_fields:
  "jget J (conforming_window J enc c segs i) ''ciphertext'' = Some (jstr J (enc (segs ! i)))"
  "jget J (conforming_window J enc c segs i) ''root'' = Some (jstr J (root_hex c))"
  "jget J (conforming_window J enc c segs i) ''complete'' = Some (jbool J (Suc i = length segs))"
  "jget J (conforming_window J enc c segs i) ''inclusion_proof'' = Some (jstr J (inclusion_proof_b64 c))"
  "jget J (conforming_window J enc c segs i) ''chunk_lens'' = Some (jarr J (map (ju64 J) (chunk_lens c)))"
  "jget J (conforming_window J enc c segs i) ''next_offset''
    = (if Suc i = length segs then None else Some (ju64 J (seg_offset segs (Suc i))))"
  unfolding conforming_window_def by (auto simp: get_obj)

lemma conforming_reads:
  "is_complete J (conforming_window J enc c segs i) \<longleftrightarrow> Suc i = length segs"
  "next_offset J (conforming_window J enc c segs i)
    = (if Suc i = length segs then None else Some (seg_offset segs (Suc i)))"
  "parse_chunk_lens J (conforming_window J enc c segs i) = Ok (chunk_lens c)"
proof -
  have "collect_res (\<lambda>v. ok_or e (as_u64 J v)) (map (ju64 J) ns) = Ok ns" for e ns
    by (induction ns) (simp_all add: u64_u64)
  then show "parse_chunk_lens J (conforming_window J enc c segs i) = Ok (chunk_lens c)"
    by (simp add: parse_chunk_lens_def conforming_fields arr_arr)
qed (simp_all add: is_complete_def next_offset_def conforming_fields bool_bool u64_u64)

lemma conforming_bytes:
  assumes "\<And>bs. b64 (enc bs) = Some bs"
  shows "window_bytes J b64 (conforming_window J enc c segs i) = Some (segs ! i)"
  using assms by (simp add: window_bytes_def conforming_fields str_str)

lemma seg_offset_less:
  assumes "\<forall>s \<in> set segs. s \<noteq> []" "length (concat segs) < 2 ^ 64" "Suc i < length segs"
  shows "seg_offset segs i < seg_offset segs (Suc i)"
proof -
  have split: "concat (take (Suc i) segs) = concat (take i segs) @ segs ! i"
    using assms(3) by (simp add: take_Suc_conv_app_nth)
  have "length (concat segs) = length (concat (take (Suc i) segs)) + length (concat (drop (Suc i) segs))"
    by (metis append_take_drop_id concat_append length_append)
  then have "length (concat (take (Suc i) segs)) < 2 ^ 64"
    using assms(2) by simp
  moreover have "length (concat (take i segs)) \<le> length (concat (take (Suc i) segs))"
    by (simp add: split)
  ultimately have "unat (seg_offset segs i) = length (concat (take i segs))"
    "unat (seg_offset segs (Suc i)) = length (concat (take (Suc i) segs))"
    unfolding seg_offset_def by (simp_all add: unat_of_nat del: length_concat)
  moreover have "segs ! i \<noteq> []" using assms(1,3) by simp
  ultimately show ?thesis
    by (simp add: split word_less_nat_alt)
qed

lemma conforming_paged:
  assumes node: "\<And>i w. i < length segs \<Longrightarrow>
      call J http base ''dig.getContent'' (build_content_params J store_hex key root (seg_offset segs i)) w
        = (Ok (conforming_window J enc c segs i), w)"
    and segs: "\<forall>s \<in> set segs. s \<noteq> []" "length (concat segs) < 2 ^ 64" and i: "i < length segs"
  shows "paged J http base store_hex key root (seg_offset segs i) w
    (map (conforming_window J enc c segs) [i ..< length segs]) w"
  using i
proof (induction "length segs - i" arbitrary: i)
  case 0
  then show ?case by simp
next
  case (Suc n)
  show ?case
  proof (cases "Suc i = length segs")
    case True
    then have "[i ..< length segs] = [i]" by (simp add: upt_rec)
    with True node [OF Suc.prems] show ?thesis
      by (simp add: paged_last conforming_reads)
  next
    case False
    then have i: "Suc i < length segs" using Suc.prems by simp
    have "paged J http base store_hex key root (seg_offset segs (Suc i)) w
        (map (conforming_window J enc c segs) [Suc i ..< length segs]) w"
      by (rule Suc.hyps(1)) (use Suc.hyps(2) i in simp_all)
    with paged_more [OF node [OF Suc.prems] _ _ seg_offset_less [OF segs i]] False
    show ?thesis
      by (simp add: upt_conv_Cons [OF Suc.prems] conforming_reads)
  qed
qed

lemma conforming_content:
  assumes "\<And>i w. i < length segs \<Longrightarrow>
      call J http base ''dig.getContent'' (build_content_params J store_hex key root (seg_offset segs i)) w
        = (Ok (conforming_window J enc c segs i), w)"
    and "\<And>bs. b64 (enc bs) = Some bs"
    and "segs \<noteq> []" "\<forall>s \<in> set segs. s \<noteq> []" "length (concat segs) < 2 ^ 64"
    and "length segs \<le> MAX_CONTENT_WINDOWS" "ciphertext c = concat segs"
  shows "reqwest_get_content J b64 http base store_hex key root w = (Ok c, w)"
proof -
  let ?ws = "map (conforming_window J enc c segs) [0 ..< length segs]"
  have p: "paged J http base store_hex key root 0 w ?ws w"
    using conforming_paged [OF assms(1,4,5), of 0] assms(3) by (simp add: seg_offset_def)
  have "those (map (window_bytes J b64) (map (conforming_window J enc c segs) js))
      = Some (map (\<lambda>i. segs ! i) js)" for js
    by (induction js) (simp_all add: conforming_bytes assms(2))
  from this [of "[0 ..< length segs]"] have bytes: "those (map (window_bytes J b64) ?ws) = Some segs"
    by (simp add: map_nth)
  have hd: "hd ?ws = conforming_window J enc c segs 0"
    using assms(3) by (simp add: hd_map)
  have "assemble_windows J b64 ?ws = Ok c"
    unfolding assemble_windows_Ok_iff bytes hd
    using assms(3,7) paged_last_complete [OF p]
    by (simp add: conforming_fields conforming_reads str_str)
  with p assms(6) show ?thesis
    using fetch_windows_iff [of J http base store_hex key root 0 w ?ws w]
    by (simp add: reqwest_get_content_def)
qed

end

section \<open>A demonstration node\<close>

definition demo_content :: fetched_content where
  "demo_content = \<lparr>ciphertext = [1, 2, 3], root_hex = ''ab'', inclusion_proof_b64 = ''cd'',
     chunk_lens = [3]\<rparr>"

text \<open>It serves \<open>demo_content\<close> in two windows and answers every probe.\<close>

definition demo_http :: "(unit, json) http_ops" where
  "demo_http = \<lparr>
     http_post = (\<lambda>url body w.
       (Response True ''200 OK'' (Inr (Object [(''result'',
          conforming_window json_tree rfc_hex_encode demo_content [[1], [2, 3]]
            (if Option.bind (json_get body ''params'') (\<lambda>p. json_get p ''offset'') = Some (PosInt 0)
             then 0 else 1))])), w)),
     http_probe = (\<lambda>url w. (True, w))\<rparr>"

lemma demo_call:
  assumes "i < 2"
  shows "call json_tree demo_http ''http://node'' ''dig.getContent''
      (build_content_params json_tree ''00'' ''11'' None (seg_offset [[1], [2, 3]] i)) w
    = (Ok (conforming_window json_tree rfc_hex_encode demo_content [[1], [2, 3]] i), w)"
proof -
  have "i = 0 \<or> i = 1" using assms by auto
  then show ?thesis
    by (auto simp: call_def demo_http_def rpc_body_def build_content_params_def json_tree_def
        parse_rpc_result_def seg_offset_def)
qed

section \<open>Properties\<close>

text \<open>Endpoint ladder: an explicit node URL is the only candidate and is used without any probe;
  otherwise \<open>dig.local\<close> is used if it answers, else \<open>localhost\<close> if it answers, else \<open>rpc.dig.net\<close>,
  which is never probed. Resolution fails only when no HTTP client can be built.\<close>

theorem resolve_ladder:
  assumes "build_http_client mk_resolver mk_client (secure_upstream cfg) = Ok http"
  shows "resolve mk_resolver mk_client node_port cfg w =
    (case node_url cfg of
       Some url \<Rightarrow> (Ok (http, trim_end_matches CHR ''/'' url), w)
     | None \<Rightarrow>
         let local_base = ''http://localhost:'' @ show_word node_port;
             (a, w1) = probe http DIG_LOCAL_BASE w;
             (b, w2) = probe http local_base w1
         in if a then (Ok (http, DIG_LOCAL_BASE), w1)
            else if b then (Ok (http, local_base), w2)
            else (Ok (http, RPC_DIG_NET_BASE), w2))"
  using assms
  by (simp add: resolve_def candidate_bases_def Let_def split: option.splits prod.splits)

theorem resolve_ladder_witness:
  "resolve (Ok ()) (\<lambda>_. Ok demo_http) 9778 default_config () = (Ok (demo_http, DIG_LOCAL_BASE), ())"
  using resolve_ladder [of "Ok ()" "\<lambda>_. Ok demo_http" default_config demo_http 9778 "()"]
  by (simp add: build_http_client_def with_secure_upstream_def default_config_def probe_def demo_http_def)

text \<open>C17. A content read returns a resource exactly when the node delivered a chain of at most 100000
  windows, each asked for at the offset the one before announced and every offset larger than the one
  before, of which exactly the last is complete; proof, chunk lengths and root are those of the first
  window and the ciphertext is the concatenation of all of them. The completeness errors of the
  assembly cannot occur after paging.\<close>

theorem get_content_iff:
  "reqwest_get_content J b64 http base store_hex key root w = (Ok c, w') \<longleftrightarrow>
     (\<exists>vs. paged J http base store_hex key root 0 w vs w' \<and> length vs \<le> MAX_CONTENT_WINDOWS
        \<and> Option.bind (jget J (hd vs) ''inclusion_proof'') (as_str J) = Some (inclusion_proof_b64 c)
        \<and> parse_chunk_lens J (hd vs) = Ok (chunk_lens c)
        \<and> Option.bind (jget J (hd vs) ''root'') (as_str J) = Some (root_hex c)
        \<and> map_option concat (those (map (window_bytes J b64) vs)) = Some (ciphertext c))"
  (is "?get \<longleftrightarrow> (\<exists>vs. ?paged vs \<and> ?n vs \<and> ?fields vs)")
proof -
  have "?get \<longleftrightarrow> (\<exists>vs. fetch_windows J http base store_hex key root [] 0 w = (Ok vs, w')
      \<and> assemble_windows J b64 vs = Ok c)"
    by (auto simp: reqwest_get_content_def split: prod.splits sum.splits)
  also have "\<dots> \<longleftrightarrow> (\<exists>vs. ?paged vs \<and> ?n vs \<and> ?fields vs)"
    unfolding fetch_windows_iff assemble_windows_Ok_iff
    using paged_last_complete [of J http base store_hex key root 0 w] by fastforce
  finally show ?thesis .
qed

text \<open>C18. Whatever the node answers, a content read sends at most 100000 requests and stops: they are
  \<open>dig.getContent\<close> calls for the same store, key and root with strictly increasing offsets.\<close>

theorem get_content_requests:
  "\<exists>offs w'. snd (reqwest_get_content J b64 (logged http) base store_hex key root (log, w))
      = (log @ map (content_request J base store_hex key root) offs, w')
    \<and> length offs \<le> MAX_CONTENT_WINDOWS \<and> sorted_wrt (<) offs"
proof -
  have "snd (reqwest_get_content J b64 (logged http) base store_hex key root (log, w))
      = snd (fetch_windows J (logged http) base store_hex key root [] 0 (log, w))"
    by (simp add: reqwest_get_content_def split: prod.split sum.split)
  then show ?thesis
    using fetch_logged [of "[]" J http base store_hex key root 0 log w] by auto
qed

text \<open>Against a node that serves a resource in non-empty segments, the read returns exactly the
  resource, however it is cut, as long as there are at most 100000 segments.\<close>

theorem get_content_conforming:
  assumes "json_values J"
    and "\<And>i w. i < length segs \<Longrightarrow>
      call J http base ''dig.getContent'' (build_content_params J store_hex key root (seg_offset segs i)) w
        = (Ok (conforming_window J enc c segs i), w)"
    and "\<And>bs. b64 (enc bs) = Some bs"
    and "segs \<noteq> []" "\<forall>s \<in> set segs. s \<noteq> []" "length (concat segs) < 2 ^ 64"
    and "length segs \<le> MAX_CONTENT_WINDOWS" "ciphertext c = concat segs"
  shows "reqwest_get_content J b64 http base store_hex key root w = (Ok c, w)"
  using assms(2-) by (rule json_values.conforming_content [OF assms(1)])

theorem get_content_conforming_witness:
  "reqwest_get_content json_tree rfc_hex_decode demo_http ''http://node'' ''00'' ''11'' None ()
    = (Ok demo_content, ())"
proof (rule get_content_conforming [where enc = rfc_hex_encode and segs = "[[1], [2, 3]]"])
  show "json_values json_tree" by (rule tree.json_values_axioms)
  show "rfc_hex_decode (rfc_hex_encode bs) = Some bs" for bs by (rule rfc_hex_roundtrip)
  show "call json_tree demo_http ''http://node'' ''dig.getContent''
      (build_content_params json_tree ''00'' ''11'' None (seg_offset [[1], [2, 3]] i)) w
    = (Ok (conforming_window json_tree rfc_hex_encode demo_content [[1], [2, 3]] i), w)"
    if "i < length [[1 :: u8], [2, 3]]" for i w
    using that by (intro demo_call) simp
qed (simp_all add: MAX_CONTENT_WINDOWS_def demo_content_def)

end
