(* ===== verification/Io.thy ===== *)
theory Io
  imports RustStr
begin

text \<open>
  What the modules that talk to the operating system share: \<open>std::io::Error\<close>, the platforms the
  sources are compiled for, lines and words of a text, and the interface to the processes and the
  environment of the machine. \<open>'w\<close> is the state of the outside world.
\<close>

section \<open>Platforms and errors\<close>

text \<open>\<open>Linux\<close> stands for every Unix that is not macOS, as in \<open>cfg(all(unix, not(target_os = "macos")))\<close>.\<close>

datatype os = Windows | MacOs | Linux

datatype error_kind =
    KNotFound
  | KPermissionDenied
  | KAlreadyExists
  | KNotADirectory
  | KIsADirectory
  | KTimedOut
  | KInvalidInput
  | KInvalidData
  | KFilesystemLoop
  | KOther

datatype io_error = IoError (kind: error_kind) (message: string)

text \<open>\<open>io::Error::other\<close>.\<close>

definition io_other :: "string \<Rightarrow> io_error" where
  "io_other msg = IoError KOther msg"

text \<open>The \<open>?\<close> operator between calls that change the world.\<close>

fun io_bind :: "('e + 'a) \<times> 'w \<Rightarrow> ('a \<Rightarrow> 'w \<Rightarrow> ('e + 'b) \<times> 'w) \<Rightarrow> ('e + 'b) \<times> 'w" where
  "io_bind (Inl e, w) f = (Inl e, w)"
| "io_bind (Inr a, w) f = f a w"

lemma io_bind_Ok_iff:
  "io_bind m f = (Inr b, w') \<longleftrightarrow> (\<exists>a w. m = (Inr a, w) \<and> f a w = (Inr b, w'))"
  by (cases m; cases "fst m") auto

lemma io_bind_assoc:
  "io_bind (io_bind m f) g = io_bind m (\<lambda>a w. io_bind (f a w) g)"
  by (cases m; cases "fst m") auto

lemma io_bind_cong_Ok:
  assumes "\<And>a w. m = (Ok a, w) \<Longrightarrow> f a w = g a w"
  shows "io_bind m f = io_bind m g"
  using assms by (cases m; cases "fst m") auto

lemma io_bind_weak_cong: "m = m' \<Longrightarrow> io_bind m f = io_bind m' f"
  by simp

section \<open>The machine\<close>

text \<open>\<open>cmd_status\<close> is \<open>Command::status\<close>: whether the process could be spawned, and if so whether it
  exited with 0. \<open>cmd_output\<close> is \<open>Command::output\<close>, with the standard output and error it captured.\<close>

record 'w sys_ops =
  cmd_status :: "string \<Rightarrow> string list \<Rightarrow> 'w \<Rightarrow> (io_error + bool) \<times> 'w"
  cmd_output :: "string \<Rightarrow> string list \<Rightarrow> 'w \<Rightarrow> (io_error + bool \<times> string \<times> string) \<times> 'w"

section \<open>Lines and words\<close>

definition NLc :: char where "NLc = CHR 0x0A"
definition NL :: string where "NL = [CHR 0x0A]"
definition QT :: string where "QT = [CHR 0x22]"
definition CRLF :: string where "CRLF = [CHR 0x0D, CHR 0x0A]"

text \<open>\<open>str::lines\<close>: a line ends with \<open>\n\<close> or \<open>\r\n\<close>; the last one may be unterminated.\<close>

definition str_lines :: "string \<Rightarrow> string list" where
  "str_lines s =
     (let parts = split_on NLc s
      in map (\<lambda>l. unwrap_or (strip_suffix l [CHR 0x0D]) l) (butlast parts)
         @ (if last parts = [] then [] else [last parts]))"

text \<open>\<open>str::split_whitespace\<close>: the maximal runs without whitespace.\<close>

fun take_word :: "string \<Rightarrow> string" where
  "take_word [] = []"
| "take_word (c # s) = (if 0 < ws_len ws2 ws3 (c # s) then [] else c # take_word s)"

lemma length_take_word: "length (take_word s) \<le> length s"
  by (induction s) auto

lemma take_word_pos: "s \<noteq> [] \<Longrightarrow> ws_len ws2 ws3 s = 0 \<Longrightarrow> 0 < length (take_word s)"
  by (cases s) auto

function split_whitespace :: "string \<Rightarrow> string list" where
  "split_whitespace s =
     (let t = trim_start s
      in if t = [] then []
         else take_word t # split_whitespace (drop (length (take_word t)) t))"
  by pat_completeness auto
termination
proof (relation "measure length", simp)
  fix s t :: string
  assume t: "t = trim_start s" and ne: "t \<noteq> []"
  have "length t \<le> length s"
    using suffix_length_le [OF suffix_trim_ws [of ws2 ws3 s]] by (simp add: t trim_start_def)
  moreover have "0 < length (take_word t)"
    using ne ws_len_trim_ws [of ws2 ws3 s] by (intro take_word_pos) (simp_all add: t trim_start_def)
  ultimately have "length t - length (take_word t) < length s"
    using ne by (metis diff_less length_greater_0_conv less_le_trans)
  then show "(drop (length (take_word t)) t, s) \<in> measure length"
    by simp
qed

declare split_whitespace.simps [simp del]

text \<open>\<open>str::find(pat)\<close>: the text before and after the first occurrence.\<close>

fun split_at_str :: "string \<Rightarrow> string \<Rightarrow> (string \<times> string) option" where
  "split_at_str p s =
     (case strip_prefix s p of
        Some r \<Rightarrow> Some ([], r)
      | None \<Rightarrow> (case s of
            [] \<Rightarrow> None
          | c # cs \<Rightarrow> map_option (\<lambda>(a, b). (c # a, b)) (split_at_str p cs)))"

declare split_at_str.simps [simp del]

lemma split_at_str_Some: "split_at_str p s = Some (a, b) \<Longrightarrow> s = a @ p @ b"
proof (induction s arbitrary: a)
  case Nil
  then show ?case
    by (simp add: split_at_str.simps [of p "[]"] strip_prefix_Some_iff split: option.splits)
next
  case (Cons c cs)
  show ?case
  proof (cases "strip_prefix (c # cs) p")
    case None
    with Cons show ?thesis
      by (auto simp: split_at_str.simps [of p "c # cs"])
  next
    case (Some r)
    with Cons.prems show ?thesis
      by (simp add: split_at_str.simps [of p "c # cs"] strip_prefix_Some_iff)
  qed
qed

lemma split_at_str_None: "split_at_str p s = None \<longleftrightarrow> \<not> contains_str s p"
proof (induction s)
  case Nil
  then show ?case
    by (auto simp: split_at_str.simps [of p "[]"] contains_str_iff strip_prefix_None_iff
        split: option.splits simp: strip_prefix_Some_iff)
next
  case (Cons c cs)
  show ?case
  proof (cases "strip_prefix (c # cs) p")
    case None
    then have "contains_str (c # cs) p \<longleftrightarrow> contains_str cs p"
      by (auto simp: contains_str_iff strip_prefix_None_iff Cons_eq_append_conv)
    with None Cons show ?thesis
      by (simp add: split_at_str.simps [of p "c # cs"])
  next
    case (Some r)
    then have "contains_str (c # cs) p"
      by (auto simp: contains_str_iff strip_prefix_Some_iff)
    with Some show ?thesis
      by (simp add: split_at_str.simps [of p "c # cs"])
  qed
qed

text \<open>A text made of lines without line breaks splits into those lines.\<close>

lemma split_on_lines:
  assumes "\<forall>l \<in> set ls. NLc \<notin> set l"
  shows "split_on NLc (concat (map (\<lambda>l. l @ NL) ls) @ rest) = ls @ split_on NLc rest"
  using assms
proof (induction ls)
  case (Cons l ls)
  then have "split_on NLc (l @ NLc # (concat (map (\<lambda>l. l @ NL) ls) @ rest)) = l # ls @ split_on NLc rest"
    by (simp add: split_on_append)
  then show ?case by (simp add: NL_def NLc_def)
qed simp

end
