(* ===== verification/Pac.thy ===== *)
theory Pac
  imports Config Io
begin

text \<open>
  \<open>src/pac.rs\<close>: the proxy auto-config script that sends \<open>*.<tld>\<close> to the gateway.
\<close>

definition PAC_CONTENT_TYPE :: string where
  "PAC_CONTENT_TYPE = ''application/x-ns-proxy-autoconfig''"

definition generate :: "ipv4 \<Rightarrow> u16 \<Rightarrow> string \<Rightarrow> string" where
  "generate ip port t =
     (let tl = to_ascii_lowercase (trim_start_matches CHR ''.'' (trim t))
      in ''// dig-dns PAC - routes *.'' @ tl @ '' to the local gateway, everything else DIRECT.'' @ NL
       @ ''// Generated with the actually-bound gateway port ('' @ show_word port @ '').'' @ NL
       @ ''function FindProxyForURL(url, host) {'' @ NL
       @ ''  host = host.toLowerCase();'' @ NL
       @ ''  if (dnsDomainIs(host, '' @ QT @ ''.'' @ tl @ QT @ '') || host === '' @ QT @ tl @ QT @ '') {'' @ NL
       @ ''    return '' @ QT @ ''PROXY '' @ show_ipv4 ip @ '':'' @ show_word port @ QT @ '';'' @ NL
       @ ''  }'' @ NL
       @ ''  return '' @ QT @ ''DIRECT'' @ QT @ '';'' @ NL
       @ ''}'' @ NL)"

text \<open>The script for a valid TLD names it unchanged, so no text of the configuration can end a string
  literal of the script.\<close>

lemma generate_safe_tld:
  assumes "is_safe_tld t"
  shows "to_ascii_lowercase (trim_start_matches CHR ''.'' (trim t)) = t" "CHR 0x22 \<notin> set t"
    "CHR 0x0A \<notin> set t"
proof -
  have "trim t = t" using safe_tld_chars [OF assms] by (simp add: trim_graphic)
  moreover have "hd t \<noteq> CHR ''.''"
    using safe_tld_chars(3) [OF assms] assms by (cases t) (auto simp: is_safe_tld_def)
  ultimately show "to_ascii_lowercase (trim_start_matches CHR ''.'' (trim t)) = t"
    using safe_tld_chars(2) [OF assms] by (simp add: trim_start_matches_id)
  show "CHR 0x22 \<notin> set t" "CHR 0x0A \<notin> set t"
    using safe_tld_chars(1) [OF assms] assms
    by (auto simp: is_safe_tld_def list_all_iff is_lower_def is_digit_def char_code_def)
qed

end
