(* ===== verification/Gateway.thy ===== *)
theory Gateway
  imports Host Content Transport Pac
begin

text \<open>
  \<open>src/gateway.rs\<close>: from a request to a response. The handlers pass the world \<open>'w\<close> explicitly; the
  only calls that touch it are those of the \<open>node_client\<close>. A response is an \<open>option\<close>: \<open>None\<close> is a
  panic, which an out-of-range slice would cause. A \<open>hyper::Uri\<close> is what the code reads off it: the
  scheme, the host of the authority and the path.
\<close>

record gateway_response =
  status :: u16
  headers :: "(string \<times> string) list"
  body :: bytes

definition text_response :: "u16 \<Rightarrow> string \<Rightarrow> gateway_response" where
  "text_response st msg =
     \<lparr>status = st, headers = [(''content-type'', ''text/plain; charset=utf-8'')], body = str_bytes msg\<rparr>"

definition with_type :: "u16 \<Rightarrow> string \<Rightarrow> bytes \<Rightarrow> gateway_response" where
  "with_type st content_type bs =
     \<lparr>status = st, headers = [(''content-type'', content_type)], body = bs\<rparr>"

text \<open>\<open>uptime_secs\<close> is \<open>started.elapsed().as_secs()\<close>, read from the clock.\<close>

record ctx =
  config :: config
  bound_port :: u16
  dns_active :: bool
  uptime_secs :: u64

datatype control_endpoint = Health | ProxyPac | ResolveProbe | Unknown

datatype classified =
    Control control_endpoint
  | NonDigProxy
  | BadHost
  | Store host_target string

record uri =
  uri_scheme :: "string option"
  uri_authority_host :: "string option"
  uri_path :: string

definition VERSION :: string where "VERSION = ''0.16.3''"

section \<open>Classification\<close>

definition host_is_under_tld :: "string \<Rightarrow> string \<Rightarrow> bool" where
  "host_is_under_tld host t =
     (let h = trim_end_matches CHR ''.'' (trim host);
          h = to_ascii_lowercase (case split_on CHR '':'' h of [] \<Rightarrow> h | part # _ \<Rightarrow> part);
          tl = to_ascii_lowercase t
      in h = tl \<or> ends_with h (''.'' @ tl))"

definition control_endpoint_for :: "string \<Rightarrow> control_endpoint option" where
  "control_endpoint_for path =
     (if path = ''/.dig/health'' then Some Health
      else if path = ''/.dig/proxy.pac'' then Some ProxyPac
      else if path = ''/.dig/resolve-probe'' then Some ResolveProbe
      else if path = ''/.dig'' \<or> starts_with path ''/.dig/'' then Some Unknown
      else None)"

definition is_proxy :: "uri \<Rightarrow> bool" where
  "is_proxy u \<longleftrightarrow> uri_scheme u \<noteq> None \<and> uri_authority_host u \<noteq> None"

definition classify :: "codec_ops \<Rightarrow> uri \<Rightarrow> string option \<Rightarrow> string \<Rightarrow> classified" where
  "classify C u host_header t =
     (let (host, path) = (if is_proxy u then (uri_authority_host u, uri_path u)
                          else (host_header, uri_path u))
      in if is_proxy u \<and> \<not> (case host of Some h \<Rightarrow> host_is_under_tld h t | None \<Rightarrow> False)
         then NonDigProxy
         else case control_endpoint_for path of
             Some ep \<Rightarrow> Control ep
           | None \<Rightarrow>
               (case host of
                  Some h \<Rightarrow> (case parse_dig_host C h t of
                               Ok target \<Rightarrow> Store target path
                             | Err _ \<Rightarrow> BadHost)
                | None \<Rightarrow> BadHost))"

section \<open>Byte ranges\<close>

datatype range_spec = Satisfiable u64 u64 | Unsatisfiable | Whole

definition sat_sub :: "u64 \<Rightarrow> u64 \<Rightarrow> u64" where
  "sat_sub x y = (if y \<le> x then x - y else 0)"

definition parse_range :: "string \<Rightarrow> u64 \<Rightarrow> range_spec" where
  "parse_range header tot =
     (case strip_prefix (trim header) ''bytes='' of
        None \<Rightarrow> Whole
      | Some s \<Rightarrow>
          if contains_char s CHR '','' then Whole
          else case split_once CHR ''-'' (trim s) of
              None \<Rightarrow> Whole
            | Some (a, b) \<Rightarrow>
                if a = [] then
                  (case parse_u64 b of
                     None \<Rightarrow> Whole
                   | Some n \<Rightarrow>
                       if n = 0 \<or> tot = 0 then Unsatisfiable
                       else Satisfiable (tot - min n tot) (tot - 1))
                else
                  (case parse_u64 a of
                     None \<Rightarrow> Whole
                   | Some start \<Rightarrow>
                       (case (if b = [] then Some (sat_sub tot 1)
                              else map_option (\<lambda>n. min n (sat_sub tot 1)) (parse_u64 b)) of
                          None \<Rightarrow> Whole
                        | Some e \<Rightarrow>
                            if tot = 0 \<or> tot \<le> start \<or> e < start then Unsatisfiable
                            else Satisfiable start e)))"

definition ok_body_response ::
  "string \<Rightarrow> bytes \<Rightarrow> string option \<Rightarrow> bool \<Rightarrow> gateway_response option" where
  "ok_body_response rkey bs rng pinned =
     (let content_type = content_type_for rkey;
          cache_control = (if pinned then ''public, max-age=31536000, immutable'' else ''no-cache'');
          tot = of_nat (length bs) :: u64;
          hs = [(''content-type'', content_type), (''accept-ranges'', ''bytes''),
                (''cache-control'', cache_control)]
      in case map_option (\<lambda>h. parse_range h tot) rng of
           Some (Satisfiable start e) \<Rightarrow>
             (case slice_range bs (unat start) (unat e + 1) of
                None \<Rightarrow> None
              | Some part \<Rightarrow> Some
                  \<lparr>status = 206,
                   headers = hs @ [(''content-range'',
                     ''bytes '' @ show_word start @ ''-'' @ show_word e @ ''/'' @ show_word tot)],
                   body = part\<rparr>)
         | Some Unsatisfiable \<Rightarrow> Some
             \<lparr>status = 416, headers = hs @ [(''content-range'', ''bytes */'' @ show_word tot)], body = []\<rparr>
         | _ \<Rightarrow> Some \<lparr>status = 200, headers = hs, body = bs\<rparr>)"

section \<open>Serving a store\<close>

datatype fetched = Fetched bytes | NotFound | NodeUnreachable | IntegrityFail

definition fetch_and_decrypt ::
  "('b, 'p, 'k) digstore_ops \<Rightarrow> 'w node_client \<Rightarrow> string \<Rightarrow> string \<Rightarrow> string \<Rightarrow> 'w
     \<Rightarrow> fetched option \<times> 'w" where
  "fetch_and_decrypt D N store_hex rkey trusted_root w =
     (case retrieval_key_hex D store_hex rkey of
        Inl _ \<Rightarrow> (Some IntegrityFail, w)
      | Inr rk \<Rightarrow>
          (case get_content N store_hex rk (Some trusted_root) w of
             (Inl e, w') \<Rightarrow> (Some (if is_not_found e then NotFound else NodeUnreachable), w')
           | (Inr f, w') \<Rightarrow>
               (case verify_and_decrypt D store_hex rkey (ciphertext f) (inclusion_proof_b64 f)
                       trusted_root (chunk_lens f) of
                  None \<Rightarrow> None
                | Some (Inr plaintext) \<Rightarrow> Some (Fetched plaintext)
                | Some (Inl Decrypt) \<Rightarrow> Some NotFound
                | Some (Inl _) \<Rightarrow> Some IntegrityFail, w')))"

definition spa_or_404 ::
  "('b, 'p, 'k) digstore_ops \<Rightarrow> 'w node_client \<Rightarrow> string \<Rightarrow> string \<Rightarrow> string \<Rightarrow> bool \<Rightarrow> 'w
     \<Rightarrow> gateway_response option \<times> 'w" where
  "spa_or_404 D N store_hex trusted_root path pinned w =
     (if \<not> is_extensionless path then (Some (text_response 404 ''not found''), w)
      else let (r, w') = fetch_and_decrypt D N store_hex ''index.html'' trusted_root w
           in (Option.bind r (\<lambda>f. case f of
                 Fetched bs \<Rightarrow> ok_body_response ''index.html'' bs None pinned
               | NotFound \<Rightarrow> Some (text_response 404 ''not found'')
               | NodeUnreachable \<Rightarrow> Some (text_response 502 ''node unreachable'')
               | IntegrityFail \<Rightarrow> Some (text_response 502 ''content failed integrity verification'')), w'))"

text \<open>The trusted root of a target: the anchored one, asked of the node, or the pinned one.\<close>

definition trusted_root_for ::
  "'w node_client \<Rightarrow> host_target \<Rightarrow> 'w \<Rightarrow> (gateway_response + string \<times> bool) \<times> 'w" where
  "trusted_root_for N target w =
     (case target of
        Latest store_hex \<Rightarrow>
          (case get_anchored_root N store_hex w of
             (Inr root, w') \<Rightarrow> (Ok (root, False), w')
           | (Inl e, w') \<Rightarrow>
               (if is_not_found e then Err (text_response 404 ''not found'')
                else Err (text_response 502 ''node unreachable resolving root''), w'))
      | Pinned store_hex root \<Rightarrow> (Ok (root, True), w))"

definition serve_store ::
  "('b, 'p, 'k) digstore_ops \<Rightarrow> 'w node_client \<Rightarrow> host_target \<Rightarrow> string \<Rightarrow> string option \<Rightarrow> 'w
     \<Rightarrow> gateway_response option \<times> 'w" where
  "serve_store D N target path rng w =
     (case resource_key_for_path D path of
        Inl _ \<Rightarrow> (Some (text_response 400 ''invalid request path''), w)
      | Inr rkey \<Rightarrow>
          (case trusted_root_for N target w of
             (Inl resp, w1) \<Rightarrow> (Some resp, w1)
           | (Inr (trusted_root, pinned), w1) \<Rightarrow>
               (case fetch_and_decrypt D N (target_store target) rkey trusted_root w1 of
                  (None, w2) \<Rightarrow> (None, w2)
                | (Some (Fetched bs), w2) \<Rightarrow> (ok_body_response rkey bs rng pinned, w2)
                | (Some NotFound, w2) \<Rightarrow>
                    spa_or_404 D N (target_store target) trusted_root path pinned w2
                | (Some NodeUnreachable, w2) \<Rightarrow> (Some (text_response 502 ''node unreachable''), w2)
                | (Some IntegrityFail, w2) \<Rightarrow>
                    (Some (text_response 502 ''content failed integrity verification''), w2))))"

section \<open>Control endpoints and the handler\<close>

definition health_json :: "'v json_ops \<Rightarrow> ctx \<Rightarrow> 'w node_client \<Rightarrow> bool \<Rightarrow> bytes" where
  "health_json J c N reachable =
     (let cfg = config c;
          using_fallback = (bound_port c = http_fallback_port cfg \<and> http_fallback_port cfg \<noteq> http_port cfg);
          ip = jstr J (show_ipv4 (loopback_ip cfg));
          num = (\<lambda>p :: u16. ju64 J (ucast p));
          dns_listener = (if dns_active c
            then jobj J [(''ip'', ip), (''port'', num (dns_port cfg)), (''transport'', jstr J ''udp+tcp'')]
            else jnull J);
          body = jobj J
            [(''status'', jstr J ''ok''),
             (''version'', jstr J VERSION),
             (''uptime_secs'', ju64 J (uptime_secs c)),
             (''loopback_ip'', ip),
             (''tld'', jstr J (tld cfg)),
             (''bound_port'', num (bound_port c)),
             (''primary_port'', num (http_port cfg)),
             (''fallback_port'', num (http_fallback_port cfg)),
             (''using_fallback'', jbool J using_fallback),
             (''listeners'', jobj J
                [(''gateway'', jobj J [(''ip'', ip), (''port'', num (bound_port c))]),
                 (''dns'', dns_listener)]),
             (''node'', jobj J [(''base_url'', jstr J (base_url N)), (''reachable'', jbool J reachable)]),
             (''paths'', jobj J [(''dns'', jbool J (dns_active c)), (''gateway'', jbool J True)])]
      in unwrap_or (jto_vec J body) [])"

definition control_response ::
  "'v json_ops \<Rightarrow> control_endpoint \<Rightarrow> ctx \<Rightarrow> 'w node_client \<Rightarrow> 'w \<Rightarrow> gateway_response \<times> 'w" where
  "control_response J ep c N w =
     (case ep of
        ResolveProbe \<Rightarrow> (\<lparr>status = 204, headers = [], body = []\<rparr>, w)
      | ProxyPac \<Rightarrow>
          (with_type 200 PAC_CONTENT_TYPE
             (str_bytes (generate (loopback_ip (config c)) (bound_port c) (tld (config c)))), w)
      | Health \<Rightarrow>
          (let (reachable, w') = healthy N w
           in (with_type 200 ''application/json'' (health_json J c N reachable), w'))
      | Unknown \<Rightarrow> (text_response 404 ''unknown /.dig/ endpoint'', w))"

definition is_read :: "string \<Rightarrow> bool" where
  "is_read meth \<longleftrightarrow> eq_ignore_ascii_case meth ''GET'' \<or> eq_ignore_ascii_case meth ''HEAD''"

definition handle ::
  "codec_ops \<Rightarrow> 'v json_ops \<Rightarrow> ('b, 'p, 'k) digstore_ops \<Rightarrow> 'w node_client \<Rightarrow> ctx \<Rightarrow> string \<Rightarrow> uri
     \<Rightarrow> string option \<Rightarrow> string option \<Rightarrow> 'w \<Rightarrow> gateway_response option \<times> 'w" where
  "handle C J D N c meth u host_header rng w =
     (if eq_ignore_ascii_case meth ''CONNECT''
      then (Some (text_response 405 ''CONNECT is not supported''), w)
      else case classify C u host_header (tld (config c)) of
          NonDigProxy \<Rightarrow> (Some (text_response 403 ''dig-dns is a .dig-only gateway, not an open proxy''), w)
        | Control ep \<Rightarrow>
            if \<not> is_read meth then (Some (text_response 405 ''method not allowed''), w)
            else let (r, w') = control_response J ep c N w in (Some r, w')
        | BadHost \<Rightarrow> (Some (text_response 404 ''not a valid .dig host''), w)
        | Store target path \<Rightarrow>
            if \<not> is_read meth then (Some (text_response 405 ''method not allowed''), w)
            else serve_store D N target path rng w)"

lemma status_text_response [simp]: "status (text_response st msg) = st"
  by (simp add: text_response_def)

section \<open>Ranges and bodies\<close>

lemma parse_range_bounds:
  assumes "parse_range h tot = Satisfiable s e"
  shows "s \<le> e \<and> e < tot"
proof -
  have sub1: "sat_sub tot 1 < tot" if "tot \<noteq> 0"
  proof -
    have "1 \<le> unat tot" using that by (simp add: Suc_le_eq unat_gt_0)
    then show ?thesis
      using that by (simp add: sat_sub_def word_less_nat_alt word_le_nat_alt unat_sub)
  qed
  have last: "tot - 1 = sat_sub tot 1" if "tot \<noteq> 0"
    using that by (simp add: sat_sub_def word_le_nat_alt Suc_le_eq unat_gt_0)
  from assms consider
      (suffix) n where "n \<noteq> 0" "tot \<noteq> 0" "s = tot - min n tot" "e = tot - 1"
    | (first) e0 where "tot \<noteq> 0" "\<not> e < s" "e = e0" "e0 \<le> sat_sub tot 1"
    by (fastforce simp: parse_range_def not_less split: option.splits if_splits prod.splits)
  then show ?thesis
  proof cases
    case suffix
    have "unat (tot - min n tot) = unat tot - unat (min n tot)"
      by (simp add: unat_sub)
    moreover have "1 \<le> unat (min n tot)"
      using suffix by (auto simp: min_def Suc_le_eq unat_gt_0)
    moreover have "unat (tot - 1) = unat tot - 1"
      using suffix by (simp add: unat_sub word_le_nat_alt Suc_le_eq unat_gt_0)
    ultimately show ?thesis
      using suffix by (simp add: word_le_nat_alt word_less_nat_alt unat_gt_0)
  next
    case first
    with sub1 show ?thesis by auto
  qed
qed

lemma ok_body_cases:
  fixes bs :: bytes and rng :: "string option"
  defines "tot \<equiv> of_nat (length bs) :: u64"
  obtains (part) h s e where "rng = Some h" "parse_range h tot = Satisfiable s e"
      "s \<le> e" "e < tot" "unat e < length bs"
      "ok_body_response rkey bs rng pinned = Some \<lparr>status = 206,
         headers = [(''content-type'', content_type_for rkey), (''accept-ranges'', ''bytes''),
           (''cache-control'', if pinned then ''public, max-age=31536000, immutable'' else ''no-cache''),
           (''content-range'', ''bytes '' @ show_word s @ ''-'' @ show_word e @ ''/'' @ show_word tot)],
         body = take (unat e + 1 - unat s) (drop (unat s) bs)\<rparr>"
  | (none) h where "rng = Some h" "parse_range h tot = Unsatisfiable"
      "ok_body_response rkey bs rng pinned = Some \<lparr>status = 416,
         headers = [(''content-type'', content_type_for rkey), (''accept-ranges'', ''bytes''),
           (''cache-control'', if pinned then ''public, max-age=31536000, immutable'' else ''no-cache''),
           (''content-range'', ''bytes */'' @ show_word tot)],
         body = []\<rparr>"
  | (whole) "rng = None \<or> parse_range (the rng) tot = Whole"
      "ok_body_response rkey bs rng pinned = Some \<lparr>status = 200,
         headers = [(''content-type'', content_type_for rkey), (''accept-ranges'', ''bytes''),
           (''cache-control'', if pinned then ''public, max-age=31536000, immutable'' else ''no-cache'')],
         body = bs\<rparr>"
proof (cases rng)
  case None
  then show thesis
    by (intro whole) (simp_all add: ok_body_response_def)
next
  case (Some h)
  have le: "unat tot \<le> length bs"
    by (simp add: tot_def unat_of_nat)
  show thesis
  proof (cases "parse_range h tot")
    case (Satisfiable s e)
    from parse_range_bounds [OF this] have b: "s \<le> e" "e < tot" by auto
    then have "unat s \<le> unat e" "unat e < unat tot"
      by (simp_all add: word_le_nat_alt word_less_nat_alt)
    with le have c: "unat e < length bs" "unat s \<le> unat e + 1" by simp_all
    show thesis
      by (rule part [OF Some Satisfiable b c(1)])
         (use Some Satisfiable c in \<open>simp add: ok_body_response_def tot_def [symmetric] Let_def slice_range_def\<close>)
  next
    case Unsatisfiable
    with Some show thesis
      by (intro none [OF Some Unsatisfiable]) (simp add: ok_body_response_def tot_def [symmetric] Let_def)
  next
    case Whole
    with Some show thesis
      by (intro whole) (simp_all add: ok_body_response_def tot_def [symmetric] Let_def)
  qed
qed

lemma ok_body_facts:
  assumes "ok_body_response rkey bs rng pinned = Some r"
  shows "status r \<in> {200, 206, 416} \<and> (\<exists>p q. bs = p @ body r @ q) \<and> (status r = 200 \<longrightarrow> body r = bs)
    \<and> map_of (headers r) ''cache-control''
       = Some (if pinned then ''public, max-age=31536000, immutable'' else ''no-cache'')"
proof (cases rule: ok_body_cases [where bs = bs and rng = rng and rkey = rkey and pinned = pinned])
  case (part h s e)
  have "bs = take (unat s) bs @ take (unat e + 1 - unat s) (drop (unat s) bs)
      @ drop (unat e + 1 - unat s) (drop (unat s) bs)"
    by (simp only: append_take_drop_id)
  then have "\<exists>p q. bs = p @ take (unat e + 1 - unat s) (drop (unat s) bs) @ q" by blast
  with part(6) assms show ?thesis by simp
next
  case (none h)
  have "\<exists>p q. bs = p @ [] @ q" by auto
  with none(3) assms show ?thesis by simp
next
  case whole
  have "\<exists>p q. bs = p @ bs @ q" by (intro exI [of _ "[]"]) simp
  with whole(2) assms show ?thesis by simp
qed

lemma ok_body_total: "\<exists>r. ok_body_response rkey bs rng pinned = Some r"
  by (cases rule: ok_body_cases [where bs = bs and rng = rng and rkey = rkey and pinned = pinned]) auto

section \<open>What a fetch and a served store mean\<close>

text \<open>The bytes \<open>bs\<close> are what the resource \<open>rkey\<close> of the store opens to: they decrypt from a ciphertext
  whose inclusion under the root was verified.\<close>

definition verified_plaintext ::
  "('b, 'p, 'k) digstore_ops \<Rightarrow> string \<Rightarrow> string \<Rightarrow> string \<Rightarrow> bytes \<Rightarrow> bool" where
  "verified_plaintext D store_hex rkey root_hx bs \<longleftrightarrow>
     (\<exists>sid root ct p_b64 lens pts. bytes32_from_hex D store_hex = Some sid
        \<and> bytes32_from_hex D root_hx = Some root \<and> inclusion_ok D ct p_b64 root
        \<and> open_chunks D sid rkey ct lens = Some pts \<and> bs = concat pts)"

lemma fetch_total: "\<exists>f. fst (fetch_and_decrypt D N store_hex rkey root w) = Some f"
proof (cases "retrieval_key_hex D store_hex rkey")
  case (Inl e)
  then show ?thesis by (simp add: fetch_and_decrypt_def)
next
  case rk: (Inr rk)
  obtain g w' where g: "get_content N store_hex rk (Some root) w = (g, w')" by fastforce
  show ?thesis
  proof (cases g)
    case (Inl e)
    with rk g show ?thesis by (simp add: fetch_and_decrypt_def)
  next
    case (Inr f)
    obtain v where "verify_and_decrypt D store_hex rkey (ciphertext f) (inclusion_proof_b64 f) root
        (chunk_lens f) = Some v"
      using verify_and_decrypt_no_panic by blast
    with rk g Inr show ?thesis
      by (simp add: fetch_and_decrypt_def split: sum.split content_error.split)
  qed
qed

lemma fetch_verified:
  assumes "fetch_and_decrypt D N store_hex rkey root w = (Some (Fetched bs), w')"
  shows "verified_plaintext D store_hex rkey root bs"
proof -
  from assms obtain f :: fetched_content where
    "verify_and_decrypt D store_hex rkey (ciphertext f) (inclusion_proof_b64 f)
      root (chunk_lens f) = Some (Ok bs)"
    by (auto simp: fetch_and_decrypt_def split: sum.splits prod.splits option.splits content_error.splits
        if_splits)
  then show ?thesis
    unfolding verify_and_decrypt_Ok verified_plaintext_def by blast
qed

text \<open>Why a fetch reports a resource as absent: the node said so, or the bytes do not open.\<close>

definition reported_absent ::
  "('b, 'p, 'k) digstore_ops \<Rightarrow> 'w node_client \<Rightarrow> string \<Rightarrow> string \<Rightarrow> string \<Rightarrow> 'w \<Rightarrow> bool" where
  "reported_absent D N store_hex rkey root w \<longleftrightarrow>
     (\<exists>rk. retrieval_key_hex D store_hex rkey = Ok rk
        \<and> (case fst (get_content N store_hex rk (Some root) w) of
              Inl e \<Rightarrow> is_not_found e
            | Inr f \<Rightarrow> verify_and_decrypt D store_hex rkey (ciphertext f) (inclusion_proof_b64 f) root
                (chunk_lens f) = Some (Err Decrypt)))"

lemma fetch_NotFound:
  assumes "fetch_and_decrypt D N store_hex rkey root w = (Some NotFound, w')"
  shows "reported_absent D N store_hex rkey root w"
  using assms
  by (auto simp: fetch_and_decrypt_def reported_absent_def
      split: sum.splits prod.splits option.splits content_error.splits if_splits)

lemma serve_store_cases:
  assumes "serve_store D N target path rng w = (Some r, w')"
  obtains (bad_path) e where "resource_key_for_path D path = Err e" "status r = 400" "w' = w"
  | (no_root) rkey where "resource_key_for_path D path = Ok rkey" "trusted_root_for N target w = (Err r, w')"
  | (served) rkey root pinned w1 bs where "resource_key_for_path D path = Ok rkey"
      "trusted_root_for N target w = (Ok (root, pinned), w1)"
      "fetch_and_decrypt D N (target_store target) rkey root w1 = (Some (Fetched bs), w')"
      "ok_body_response rkey bs rng pinned = Some r"
  | (spa) rkey root pinned w1 w2 bs where "resource_key_for_path D path = Ok rkey"
      "trusted_root_for N target w = (Ok (root, pinned), w1)"
      "fetch_and_decrypt D N (target_store target) rkey root w1 = (Some NotFound, w2)"
      "is_extensionless path"
      "fetch_and_decrypt D N (target_store target) ''index.html'' root w2 = (Some (Fetched bs), w')"
      "ok_body_response ''index.html'' bs None pinned = Some r"
  | (missing) rkey root pinned w1 w2 where "resource_key_for_path D path = Ok rkey"
      "trusted_root_for N target w = (Ok (root, pinned), w1)"
      "fetch_and_decrypt D N (target_store target) rkey root w1 = (Some NotFound, w2)"
      "\<not> is_extensionless path \<or>
        fetch_and_decrypt D N (target_store target) ''index.html'' root w2 = (Some NotFound, w')"
      "r = text_response 404 ''not found''"
  | (failed) rkey root pinned w1 where "resource_key_for_path D path = Ok rkey"
      "trusted_root_for N target w = (Ok (root, pinned), w1)" "status r = 502"
proof (cases "resource_key_for_path D path")
  case (Inl e)
  with assms have "status r = 400" "w' = w"
    by (auto simp: serve_store_def)
  with Inl show thesis by (rule bad_path)
next
  case rkey: (Inr rkey)
  obtain t w1 where t: "trusted_root_for N target w = (t, w1)" by fastforce
  show thesis
  proof (cases t)
    case (Inl resp)
    with rkey t assms no_root show thesis by (simp add: serve_store_def)
  next
    case (Inr rp)
    obtain root pinned where rp: "trusted_root_for N target w = (Ok (root, pinned), w1)"
      using t Inr by (cases rp) simp
    obtain f w2 where f: "fetch_and_decrypt D N (target_store target) rkey root w1 = (Some f, w2)"
      using fetch_total [of D N "target_store target" rkey root w1] by (metis prod.collapse)
    show thesis
    proof (cases f)
      case (Fetched bs)
      with rkey rp f assms served show thesis by (simp add: serve_store_def)
    next
      case NotFound
      have s: "spa_or_404 D N (target_store target) root path pinned w2 = (Some r, w')"
        using assms rkey rp f NotFound by (simp add: serve_store_def)
      show thesis
      proof (cases "is_extensionless path")
        case False
        with s rkey rp f NotFound missing show thesis by (simp add: spa_or_404_def)
      next
        case True
        obtain g w3 where g: "fetch_and_decrypt D N (target_store target) ''index.html'' root w2 = (Some g, w3)"
          using fetch_total [of D N "target_store target" "''index.html''" root w2] by (metis prod.collapse)
        from s True g have "w3 = w'" by (simp add: spa_or_404_def)
        show thesis
        proof (cases g)
          case (Fetched bs)
          with s True g \<open>w3 = w'\<close> have "ok_body_response ''index.html'' bs None pinned = Some r"
            by (simp add: spa_or_404_def)
          with rkey rp f NotFound True g Fetched \<open>w3 = w'\<close> spa show thesis by simp
        next
          case NotFound
          with s True g have "r = text_response 404 ''not found''" by (simp add: spa_or_404_def)
          with rkey rp f \<open>f = NotFound\<close> g NotFound \<open>w3 = w'\<close> missing show thesis by simp
        next
          case NodeUnreachable
          with s True g have "r = text_response 502 ''node unreachable''"
            by (simp add: spa_or_404_def)
          then show thesis by (intro failed [OF rkey rp]) simp
        next
          case IntegrityFail
          with s True g have "r = text_response 502 ''content failed integrity verification''"
            by (simp add: spa_or_404_def)
          then show thesis by (intro failed [OF rkey rp]) simp
        qed
      qed
    next
      case NodeUnreachable
      with rkey rp f assms have "r = text_response 502 ''node unreachable''"
        by (simp add: serve_store_def)
      then show thesis by (intro failed [OF rkey rp]) simp
    next
      case IntegrityFail
      with rkey rp f assms have "r = text_response 502 ''content failed integrity verification''"
        by (simp add: serve_store_def)
      then show thesis by (intro failed [OF rkey rp]) simp
    qed
  qed
qed

lemma trusted_root_status:
  "trusted_root_for N target w = (Err r, w') \<Longrightarrow> status r \<in> {404, 502}"
  by (auto simp: trusted_root_for_def split: host_target.splits prod.splits sum.splits if_splits)

lemma serve_store_total: "\<exists>r. fst (serve_store D N target path rng w) = Some r"
proof (cases "resource_key_for_path D path")
  case (Inl e)
  then show ?thesis by (simp add: serve_store_def)
next
  case rkey: (Inr rkey)
  have spa: "\<exists>r. fst (spa_or_404 D N (target_store target) root path pinned w2) = Some r" for root pinned w2
    using fetch_total [of D N "target_store target" "''index.html''" root w2] ok_body_total
    by (auto simp: spa_or_404_def split: prod.split fetched.split)
  obtain t w1 where t: "trusted_root_for N target w = (t, w1)" by fastforce
  show ?thesis
  proof (cases t)
    case (Inl resp)
    with rkey t show ?thesis by (simp add: serve_store_def)
  next
    case (Inr rp)
    obtain root pinned where rp: "trusted_root_for N target w = (Ok (root, pinned), w1)"
      using t Inr by (cases rp) simp
    obtain f w2 where "fetch_and_decrypt D N (target_store target) rkey root w1 = (Some f, w2)"
      using fetch_total [of D N "target_store target" rkey root w1] by (metis prod.collapse)
    with rkey rp spa ok_body_total show ?thesis
      by (cases f) (simp_all add: serve_store_def)
  qed
qed

lemma serve_store_status:
  assumes "serve_store D N target path rng w = (Some r, w')"
  shows "status r \<in> {200, 206, 400, 404, 416, 502}"
  using assms
proof (cases rule: serve_store_cases)
  case (served rkey root pinned w1 bs)
  then show ?thesis using ok_body_facts by blast
next
  case (spa rkey root pinned w1 w2 bs)
  then show ?thesis using ok_body_facts by blast
next
  case (no_root rkey)
  then show ?thesis using trusted_root_status [of N target w r w'] by auto
qed simp_all

lemma classify_proxy_foreign:
  "is_proxy u \<Longrightarrow> uri_authority_host u = Some h \<Longrightarrow> \<not> host_is_under_tld h t
     \<Longrightarrow> classify C u host_header t = NonDigProxy"
  by (simp add: classify_def)

lemma classify_Store:
  assumes "classify C u host_header t = Store target path"
  shows "path = uri_path u \<and> control_endpoint_for path = None
    \<and> (\<exists>h. (if is_proxy u then uri_authority_host u else host_header) = Some h
          \<and> parse_dig_host C h t = Ok target \<and> (is_proxy u \<longrightarrow> host_is_under_tld h t))"
  using assms
  by (auto simp: classify_def Let_def split: if_splits option.splits sum.splits)

lemma handle_Store:
  assumes "handle C J D N c meth u host_header rng w = (r, w')"
    and "classify C u host_header (tld (config c)) = Store target path"
    and "is_read meth"
  shows "serve_store D N target path rng w = (r, w')"
proof -
  have "to_ascii_lowercase ''CONNECT'' \<noteq> to_ascii_lowercase ''GET''"
    "to_ascii_lowercase ''CONNECT'' \<noteq> to_ascii_lowercase ''HEAD''"
    by (simp_all add: str_eval)
  with assms(3) have "\<not> eq_ignore_ascii_case meth ''CONNECT''"
    by (auto simp: is_read_def eq_ignore_ascii_case_def simp del: to_ascii_lowercase_simps)
  with assms show ?thesis by (simp add: handle_def)
qed

section \<open>A demonstration gateway\<close>

text \<open>A node that counts its requests and serves one resource; and one that has nothing.\<close>

definition demo_root :: string where "demo_root = replicate 64 CHR ''0''"

definition demo_node :: "nat node_client" where
  "demo_node = \<lparr>base_url = ''http://node'', healthy = (\<lambda>w. (True, Suc w)),
     get_anchored_root = (\<lambda>s w. (Ok demo_root, Suc w)),
     get_content = (\<lambda>s k r w. (Ok \<lparr>ciphertext = [7, 1, 7, 2], root_hex = demo_root,
        inclusion_proof_b64 = ''AAA'', chunk_lens = [2, 2]\<rparr>, Suc w))\<rparr>"

definition demo_empty_node :: "nat node_client" where
  "demo_empty_node = demo_node\<lparr>get_content :=
     (\<lambda>s k r w. (Err (Rpc (- 32004) ''no such resource'' None), Suc w))\<rparr>"

definition demo_ctx :: ctx where
  "demo_ctx = \<lparr>config = default_config, bound_port = 80, dns_active = True, uptime_secs = 0\<rparr>"

definition demo_uri :: uri where
  "demo_uri = \<lparr>uri_scheme = None, uri_authority_host = None, uri_path = ''/a.txt''\<rparr>"

definition demo_host :: string where "demo_host = demo_label @ ''.dig''"

lemma demo_host_parse: "parse_dig_host rfc_codecs demo_host ''dig'' = Ok (Latest demo_hex)"
proof -
  have "host_name demo_host = demo_label @ ''.'' @ ''dig''"
    by code_simp
  moreover have "label_to_store_hex rfc_codecs demo_label = Ok demo_hex"
    using demo_label_eval demo_hex_eval demo_id_length
    by (auto simp: rfc.label_to_store_hex_Ok_iff demo_label_lower intro!: exI [of _ demo_id])
  ultimately show ?thesis
    unfolding rfc.parse_latest_iff by (metis eq_ignore_ascii_case_refl)
qed

lemma demo_classify:
  "classify rfc_codecs demo_uri (Some demo_host) (tld (config demo_ctx)) = Store (Latest demo_hex) ''/a.txt''"
  by (simp add: classify_def demo_uri_def is_proxy_def control_endpoint_for_def starts_with_def
      demo_ctx_def default_config_def demo_host_parse)

lemma demo_key: "resource_key_for_path demo_store ''/a.txt'' = Ok ''a.txt''"
  by (simp add: resource_key_for_path_def strip_prefix_def contains_char_def char_code_def
      starts_with_def)

lemma demo_rk: "retrieval_key_hex demo_store demo_hex rkey = Ok (replicate 64 CHR ''0'')"
  by (simp add: retrieval_key_hex_def demo_store_def demo_hex_def canonical_urn_def)

lemma demo_get: "is_read ''GET''" "\<not> eq_ignore_ascii_case ''GET'' ''CONNECT''"
  by (simp_all add: is_read_def eq_ignore_ascii_case_def str_eval)

lemma demo_fetch: "fetch_and_decrypt demo_store demo_node demo_hex ''a.txt'' demo_root w
    = (Some (Fetched [1, 2]), Suc w)"
proof -
  have "verify_and_decrypt demo_store demo_hex ''a.txt'' [7, 1, 7, 2] ''AAA'' demo_root [2, 2]
      = Some (Ok [1, 2])"
    by (simp add: verify_and_decrypt_def demo_store_def trim_AAA usize_checked_add_def USIZE_MAX_def
        slice_range_def demo_root_def demo_hex_def)
  then show ?thesis
    by (simp add: fetch_and_decrypt_def demo_rk) (simp add: demo_node_def)
qed

lemma demo_roots:
  "get_anchored_root demo_node s w = (Ok demo_root, Suc w)"
  "get_anchored_root demo_empty_node s w = (Ok demo_root, Suc w)"
  by (simp_all add: demo_node_def demo_empty_node_def)

lemma demo_fetch_empty:
  "fetch_and_decrypt demo_store demo_empty_node demo_hex rkey demo_root w = (Some NotFound, Suc w)"
  by (simp add: fetch_and_decrypt_def demo_rk) (simp add: demo_empty_node_def)

lemma demo_handle:
  "\<exists>hs. handle rfc_codecs json_tree demo_store demo_node demo_ctx ''GET'' demo_uri (Some demo_host) None 0
     = (Some \<lparr>status = 200, headers = hs, body = [1, 2]\<rparr>, 2)"
  using demo_get
  by (simp add: handle_def demo_classify serve_store_def demo_key trusted_root_for_def demo_roots
      demo_fetch ok_body_response_def Let_def)

lemma demo_handle_empty:
  "handle rfc_codecs json_tree demo_store demo_empty_node demo_ctx ''GET'' demo_uri (Some demo_host) None 0
     = (Some (text_response 404 ''not found''), 2)"
proof -
  have "\<not> is_extensionless ''/a.txt''"
    by (simp add: is_extensionless_def contains_char_def)
  with demo_get show ?thesis
    by (simp add: handle_def demo_classify serve_store_def demo_key trusted_root_for_def demo_roots
        demo_fetch_empty spa_or_404_def)
qed

section \<open>Properties\<close>

text \<open>C5. Never an open proxy: an absolute-form request for an authority outside the TLD is answered with
  403, or 405 for CONNECT, without touching the node.\<close>

theorem gateway_no_open_proxy:
  assumes "is_proxy u" "uri_authority_host u = Some h" "\<not> host_is_under_tld h (tld (config c))"
  shows "\<exists>r. handle C J D N c meth u host_header rng w = (Some r, w)
    \<and> status r = (if eq_ignore_ascii_case meth ''CONNECT'' then 405 else 403)"
  using classify_proxy_foreign [OF assms] by (simp add: handle_def)

theorem gateway_no_open_proxy_witness:
  "\<exists>r. handle rfc_codecs json_tree demo_store demo_node demo_ctx ''GET''
      \<lparr>uri_scheme = Some ''http'', uri_authority_host = Some ''a.com'', uri_path = ''/''\<rparr> None None 0
        = (Some r, 0)
    \<and> status r = (if eq_ignore_ascii_case ''GET'' ''CONNECT'' then 405 else 403)"
proof (rule gateway_no_open_proxy)
  show "\<not> host_is_under_tld ''a.com'' (tld (config demo_ctx))"
    by (simp add: demo_ctx_def default_config_def) code_simp
qed (simp_all add: is_proxy_def)

text \<open>C6. The node is contacted only for a read (GET or HEAD) that is a health request or names a valid
  store host with a valid path; every other request leaves the outside world as it was. A store request
  in proxy form has an authority under the TLD.\<close>

theorem gateway_node_contact:
  "snd (handle C J D N c meth u host_header rng w) = w
   \<or> (is_read meth
      \<and> (classify C u host_header (tld (config c)) = Control Health
         \<or> (\<exists>target rkey h. classify C u host_header (tld (config c)) = Store target (uri_path u)
              \<and> resource_key_for_path D (uri_path u) = Ok rkey
              \<and> (if is_proxy u then uri_authority_host u else host_header) = Some h
              \<and> parse_dig_host C h (tld (config c)) = Ok target
              \<and> (is_proxy u \<longrightarrow> host_is_under_tld h (tld (config c))))))"
proof (cases "classify C u host_header (tld (config c))")
  case (Control ep)
  then show ?thesis
    by (cases ep) (auto simp: handle_def control_response_def)
next
  case (Store target path)
  then show ?thesis
    using classify_Store [OF Store]
    by (cases "resource_key_for_path D path") (auto simp: handle_def serve_store_def)
qed (simp_all add: handle_def)

theorem gateway_node_contact_witness:
  "classify rfc_codecs demo_uri (Some demo_host) (tld (config demo_ctx)) = Store (Latest demo_hex) ''/a.txt''
   \<and> is_read ''GET''"
  using gateway_node_contact [of rfc_codecs json_tree demo_store demo_node demo_ctx "''GET''" demo_uri
      "Some demo_host" None 0] demo_handle demo_classify by auto

text \<open>C7. The handler always answers, without a panic, and only with the statuses of its contract.\<close>

theorem gateway_total:
  "\<exists>r. fst (handle C J D N c meth u host_header rng w) = Some r
     \<and> status r \<in> {200, 204, 206, 400, 403, 404, 405, 416, 502}"
proof (cases "classify C u host_header (tld (config c))")
  case (Control ep)
  then show ?thesis
    by (cases ep) (auto simp: handle_def control_response_def with_type_def split: prod.split)
next
  case (Store target path)
  obtain r w' where s: "serve_store D N target path rng w = (Some r, w')"
    using serve_store_total [of D N target path rng w] by (metis prod.collapse)
  from serve_store_status [OF s] s Store show ?thesis
    by (auto simp: handle_def)
qed (simp_all add: handle_def)

text \<open>C1. Integrity end to end: the body of a 200 or 206 answer to a store request is the plaintext of
  the requested resource, or a part of it for a range, or that of \<open>index.html\<close> for a path without an
  extension whose own resource is absent; and this plaintext was decrypted from bytes whose inclusion
  under the pinned root, or under the root the node reported as anchored, was verified.\<close>

theorem gateway_serves_verified:
  assumes "handle C J D N c meth u host_header rng w = (Some r, w')" "is_read meth"
    and "classify C u host_header (tld (config c)) = Store target path"
    and "status r = 200 \<or> status r = 206"
  shows "\<exists>rkey root bs p q. verified_plaintext D (target_store target) rkey root bs
    \<and> (resource_key_for_path D path = Ok rkey \<or> rkey = ''index.html'' \<and> is_extensionless path)
    \<and> (case target of Latest s \<Rightarrow> fst (get_anchored_root N s w) = Ok root | Pinned s g \<Rightarrow> root = g)
    \<and> bs = p @ body r @ q \<and> (status r = 200 \<longrightarrow> bs = body r)"
proof -
  have root: "case target of Latest s \<Rightarrow> fst (get_anchored_root N s w) = Ok root | Pinned s g \<Rightarrow> root = g"
    if "trusted_root_for N target w = (Ok (root, pinned), w1)" for root pinned w1
    using that by (auto simp: trusted_root_for_def split: host_target.splits prod.splits sum.splits if_splits)
  from handle_Store [OF assms(1,3,2)] show ?thesis
  proof (cases rule: serve_store_cases)
    case (served rkey root pinned w1 bs)
    from ok_body_facts [OF served(4)] fetch_verified [OF served(3)] root [OF served(2)] served(1)
    show ?thesis by metis
  next
    case (spa rkey root pinned w1 w2 bs)
    from ok_body_facts [OF spa(6)] fetch_verified [OF spa(5)] root [OF spa(2)] spa(4)
    show ?thesis by metis
  next
    case (no_root rkey)
    with trusted_root_status [OF no_root(2)] assms(4) show ?thesis by auto
  qed (use assms(4) in auto)
qed

theorem gateway_serves_verified_witness:
  "\<exists>rkey root. verified_plaintext demo_store demo_hex rkey root [1, 2]"
proof -
  obtain hs where h: "handle rfc_codecs json_tree demo_store demo_node demo_ctx ''GET'' demo_uri
      (Some demo_host) None 0 = (Some \<lparr>status = 200, headers = hs, body = [1, 2]\<rparr>, 2)"
    using demo_handle by blast
  show ?thesis
    using gateway_serves_verified [OF h demo_get(1) demo_classify] by auto
qed

text \<open>C8. A 404 means absent, never unreachable: a store request with a valid path is answered with 404
  only when the node reported that the store has no anchored root, or reported the requested resource
  as absent, or served bytes for it that pass the inclusion check and do not decrypt.\<close>

theorem gateway_404_means_absent:
  assumes "handle C J D N c meth u host_header rng w = (Some r, w')" "is_read meth"
    and "classify C u host_header (tld (config c)) = Store target path" "status r = 404"
  shows "(\<exists>s e. target = Latest s \<and> fst (get_anchored_root N s w) = Err e \<and> is_not_found e)
    \<or> (\<exists>rkey root pinned w1. resource_key_for_path D path = Ok rkey
         \<and> trusted_root_for N target w = (Ok (root, pinned), w1)
         \<and> reported_absent D N (target_store target) rkey root w1)"
  using handle_Store [OF assms(1,3,2)]
proof (cases rule: serve_store_cases)
  case (no_root rkey)
  with assms(4) show ?thesis
    by (auto simp: trusted_root_for_def split: host_target.splits prod.splits sum.splits if_splits)
next
  case (served rkey root pinned w1 bs)
  with ok_body_facts [OF served(4)] assms(4) show ?thesis by auto
next
  case (spa rkey root pinned w1 w2 bs)
  with ok_body_facts [OF spa(6)] assms(4) show ?thesis by auto
next
  case (missing rkey root pinned w1 w2)
  with fetch_NotFound [OF missing(3)] show ?thesis by blast
qed (use assms(4) in auto)

theorem gateway_404_means_absent_witness:
  "\<exists>rkey. resource_key_for_path demo_store ''/a.txt'' = Ok rkey
     \<and> reported_absent demo_store demo_empty_node demo_hex rkey demo_root 1"
  using gateway_404_means_absent [OF demo_handle_empty demo_get(1) demo_classify]
  by (auto simp: trusted_root_for_def demo_roots)

text \<open>Caching follows the host: a resource of a pinned root is served as immutable, one of the
  latest root must be revalidated, for whole, partial and unsatisfiable answers alike.\<close>

theorem gateway_cache_policy:
  assumes "handle C J D N c meth u host_header rng w = (Some r, w')" "is_read meth"
    and "classify C u host_header (tld (config c)) = Store target path"
    and "status r \<in> {200, 206, 416}"
  shows "map_of (headers r) ''cache-control'' =
    Some (case target of Latest s \<Rightarrow> ''no-cache'' | Pinned s g \<Rightarrow> ''public, max-age=31536000, immutable'')"
proof -
  have pin: "pinned \<longleftrightarrow> (case target of Latest s \<Rightarrow> False | Pinned s g \<Rightarrow> True)"
    if "trusted_root_for N target w = (Ok (root, pinned), w1)" for root pinned w1
    using that by (auto simp: trusted_root_for_def split: host_target.splits prod.splits sum.splits if_splits)
  from handle_Store [OF assms(1,3,2)] show ?thesis
  proof (cases rule: serve_store_cases)
    case (served rkey root pinned w1 bs)
    from ok_body_facts [OF served(4)] pin [OF served(2)] show ?thesis
      by (cases target) simp_all
  next
    case (spa rkey root pinned w1 w2 bs)
    from ok_body_facts [OF spa(6)] pin [OF spa(2)] show ?thesis
      by (cases target) simp_all
  next
    case (no_root rkey)
    with trusted_root_status [OF no_root(2)] assms(4) show ?thesis by auto
  qed (use assms(4) in auto)
qed

theorem gateway_cache_policy_witness:
  "\<exists>hs. map_of hs ''cache-control'' = Some ''no-cache''
     \<and> handle rfc_codecs json_tree demo_store demo_node demo_ctx ''GET'' demo_uri (Some demo_host) None 0
       = (Some \<lparr>status = 200, headers = hs, body = [1, 2]\<rparr>, 2)"
proof -
  obtain hs where h: "handle rfc_codecs json_tree demo_store demo_node demo_ctx ''GET'' demo_uri
      (Some demo_host) None 0 = (Some \<lparr>status = 200, headers = hs, body = [1, 2]\<rparr>, 2)"
    using demo_handle by blast
  show ?thesis
    using gateway_cache_policy [OF h demo_get(1) demo_classify] h by auto
qed

text \<open>A range header is read as the text after \<open>bytes=\<close>, split at its first dash.\<close>

lemma parse_range_bytes:
  assumes "list_all graphic s" "CHR '','' \<notin> set s"
  shows "parse_range (''bytes='' @ s) tot = (case split_once CHR ''-'' s of None \<Rightarrow> Whole
            | Some (a, b) \<Rightarrow>
                if a = [] then
                  (case parse_u64 b of
                     None \<Rightarrow> Whole
                   | Some n \<Rightarrow>
                       if n = 0 \<or> tot = 0 then Unsatisfiable
                       else Satisfiable (tot - min n tot) (tot - 1))
                else
                  (case parse_u64 a of
                     None \<Rightarrow> Whole
                   | Some start \<Rightarrow>
                       (case (if b = [] then Some (sat_sub tot 1)
                              else map_option (\<lambda>n. min n (sat_sub tot 1)) (parse_u64 b)) of
                          None \<Rightarrow> Whole
                        | Some e \<Rightarrow>
                            if tot = 0 \<or> tot \<le> start \<or> e < start then Unsatisfiable
                            else Satisfiable start e)))"
proof -
  have "trim (''bytes='' @ s) = ''bytes='' @ s" "trim s = s"
      using assms by (simp_all add: trim_graphic graphic_def char_code_def)
  then show ?thesis
      using assms(2) strip_prefix_append [of "''bytes=''" s]
      by (simp add: parse_range_def contains_char_def del: strip_prefix_append)
qed

text \<open>The three forms of a single byte range: \<open>a-b\<close> is clipped to the resource, \<open>a-\<close> runs to its
  end, \<open>-n\<close> is its last \<open>n\<close> bytes; a range that starts past the end, or an empty one, cannot be
  satisfied. In particular \<open>b < a\<close> is answered as unsatisfiable and not as a malformed range.\<close>

theorem parse_range_forms:
  fixes a b n tot :: u64
  shows "parse_range (''bytes='' @ show_word a @ ''-'' @ show_word b) tot =
      (if tot = 0 \<or> tot \<le> a \<or> b < a then Unsatisfiable else Satisfiable a (min b (tot - 1)))
    \<and> parse_range (''bytes='' @ show_word a @ ''-'') tot =
      (if tot \<le> a then Unsatisfiable else Satisfiable a (tot - 1))
    \<and> parse_range (''bytes=-'' @ show_word n) tot =
      (if n = 0 \<or> tot = 0 then Unsatisfiable else Satisfiable (tot - min n tot) (tot - 1))"
proof -
  have g: "list_all graphic (show_word w)" "CHR ''-'' \<notin> set (show_word w)" "CHR '','' \<notin> set (show_word w)"
    for w :: u64
    using show_nat_graphic [of "unat w"] show_nat_digits [of "unat w"]
    by (auto simp: show_word_def list_all_iff is_digit_def char_code_def)
  have dash: "graphic CHR ''-''" by (simp add: graphic_def char_code_def)
  have pos: "tot \<noteq> 0 \<Longrightarrow> sat_sub tot 1 = tot - 1"
    by (simp add: sat_sub_def word_le_nat_alt Suc_le_eq unat_gt_0)
  have clip: "tot \<noteq> 0 \<Longrightarrow> a < tot \<Longrightarrow> min b (tot - 1) < a \<longleftrightarrow> b < a"
    by (auto simp: min_def not_le word_less_nat_alt word_le_nat_alt unat_sub Suc_le_eq unat_gt_0)
  have two: "parse_range (''bytes='' @ show_word a @ ''-'' @ show_word b) tot =
      (if tot = 0 \<or> tot \<le> a \<or> b < a then Unsatisfiable else Satisfiable a (min b (tot - 1)))"
    using g clip pos dash by (subst parse_range_bytes) (auto simp: split_once_append not_le)
  have one: "parse_range (''bytes='' @ show_word a @ ''-'') tot =
      (if tot \<le> a then Unsatisfiable else Satisfiable a (tot - 1))"
  proof (cases "a < tot")
    case True
    then have "tot \<noteq> 0" by auto
    moreover have "\<not> tot - 1 < a"
      using True \<open>tot \<noteq> 0\<close>
      by (simp add: word_less_nat_alt unat_sub word_le_nat_alt Suc_le_eq unat_gt_0)
    ultimately show ?thesis
      using g pos dash True by (subst parse_range_bytes) (auto simp: split_once_append)
  next
    case False
    then show ?thesis
      using g dash by (subst parse_range_bytes) (auto simp: split_once_append)
  qed
  have suffix: "parse_range (''bytes=-'' @ show_word n) tot =
      (if n = 0 \<or> tot = 0 then Unsatisfiable else Satisfiable (tot - min n tot) (tot - 1))"
    using g dash parse_range_bytes [of "''-'' @ show_word n"] by (simp add: split_once_append [of _ "[]", simplified])
  from two one suffix show ?thesis by blast
qed

text \<open>C39. The identifiers that reach the content library always parse: for a request the gateway
  classified as a store request, and a root it trusts, both the store id and the root are 64 hex digits.
  With the library accepting those, the errors for a bad store id and a bad root cannot occur.\<close>

theorem gateway_ids_parse:
  assumes "base_codecs C" "node_contract N"
    and "\<And>h. length h = 64 \<Longrightarrow> list_all is_hexdigit h \<Longrightarrow> bytes32_from_hex D h \<noteq> None"
    and "classify C u host_header t = Store target path"
    and "trusted_root_for N target w = (Ok (root, pinned), w')"
  shows "(\<exists>rk. retrieval_key_hex D (target_store target) rkey = Ok rk)
    \<and> verify_and_decrypt D (target_store target) rkey ct p_b64 root lens
      \<notin> {Some (Err BadStoreId), Some (Err BadRoot)}"
proof -
  obtain h where h: "parse_dig_host C h t = Ok target"
    using classify_Store [OF assms(4)] by blast
  have store: "length (target_store target) = 64 \<and> list_all is_hexdigit (target_store target)"
    by (rule base_codecs.parse_target_shape [OF assms(1) h])
  have "length root = 64 \<and> list_all is_hexdigit root"
  proof (cases target)
    case (Latest s)
    with assms(5) have "get_anchored_root N s w = (Ok root, w')"
      by (auto simp: trusted_root_for_def split: prod.splits sum.splits if_splits)
    then show ?thesis by (rule node_contract.root_is_hex [OF assms(2)])
  next
    case (Pinned s g)
    with assms(5) h show ?thesis
      using base_codecs.parse_pinned_shape [OF assms(1)] by (auto simp: trusted_root_for_def)
  qed
  with store assms(3) obtain sid rt where ids: "bytes32_from_hex D (target_store target) = Some sid"
    "bytes32_from_hex D root = Some rt"
    by (meson not_None_eq)
  have rk: "\<exists>rk. retrieval_key_hex D (target_store target) rkey = Ok rk"
    using ids by (simp add: retrieval_key_hex_def)
  have plan: "decrypt_plan D k ct p plan acc \<notin> {Some (Err BadStoreId), Some (Err BadRoot)}" for k p plan acc
    by (induction plan arbitrary: p acc) (simp_all split: option.split)
  have "verify_and_decrypt D (target_store target) rkey ct p_b64 root lens
      \<notin> {Some (Err BadStoreId), Some (Err BadRoot)}"
    using plan by (simp add: verify_and_decrypt_def ids Let_def split: option.split)
  with rk show ?thesis by blast
qed

theorem gateway_ids_parse_witness:
  "\<exists>rk. retrieval_key_hex demo_store demo_hex ''a.txt'' = Ok rk"
proof -
  have "node_contract demo_node"
    by unfold_locales (auto simp: demo_roots demo_root_def list_all_iff is_hexdigit_def str_eval)
  moreover have "trusted_root_for demo_node (Latest demo_hex) 0 = (Ok (demo_root, False), 1)"
    by (simp add: trusted_root_for_def demo_roots)
  moreover have "bytes32_from_hex demo_store h \<noteq> None" if "length h = 64" for h
    using that by (auto simp: demo_store_def)
  ultimately show ?thesis
    using gateway_ids_parse [OF rfc.base_codecs_axioms _ _ demo_classify, of demo_node demo_store]
    by (metis target_store.simps(1))
qed

end
