(* ===== verification/Dns.thy ===== *)
theory Dns
  imports Config
begin

text \<open>
  \<open>src/dns.rs\<close>: the DNS wire codec and the answering policy, with the client side of \<open>doctor\<close>'s
  direct probe. A message is a list of bytes; positions are \<open>nat\<close>. The loops over labels are
  recursive functions whose measure is the number of bytes left.
\<close>

unbundle bit_operations_syntax

section \<open>Big-endian integers\<close>

definition be16 :: "u8 \<Rightarrow> u8 \<Rightarrow> u16" where
  "be16 a b = push_bit 8 (ucast a) OR ucast b"

definition to_be16 :: "u16 \<Rightarrow> bytes" where
  "to_be16 w = [ucast (drop_bit 8 w), ucast w]"

definition to_be32 :: "u32 \<Rightarrow> bytes" where
  "to_be32 w = [ucast (drop_bit 24 w), ucast (drop_bit 16 w), ucast (drop_bit 8 w), ucast w]"

lemma be16_to_be16: "be16 (ucast (drop_bit 8 w)) (ucast w) = w"
  by (rule bit_word_eqI) (auto simp: be16_def bit_simps)

lemma u8_bit_beyond: "\<not> bit (b :: u8) (8 + n)"
  using bit_imp_le_length [of b "8 + n"] by auto

lemma to_be16_be16: "to_be16 (be16 a b) = [a, b]"
  by (auto simp: to_be16_def be16_def bit_simps u8_bit_beyond intro!: bit_word_eqI)

lemma length_to_be [simp]: "length (to_be16 w) = 2" "length (to_be32 v) = 4"
  by (simp_all add: to_be16_def to_be32_def)

section \<open>The codec\<close>

definition TYPE_A :: u16 where "TYPE_A = 1"
definition TYPE_OPT :: u16 where "TYPE_OPT = 41"
definition RCODE_NOERROR :: u16 where "RCODE_NOERROR = 0"
definition RCODE_FORMERR :: u16 where "RCODE_FORMERR = 1"
definition RCODE_REFUSED :: u16 where "RCODE_REFUSED = 5"
definition DEFAULT_UDP_MAX :: nat where "DEFAULT_UDP_MAX = 512"
definition HEADER_LEN :: nat where "HEADER_LEN = 12"

lemmas dns_consts = TYPE_A_def TYPE_OPT_def RCODE_NOERROR_def RCODE_FORMERR_def RCODE_REFUSED_def
  DEFAULT_UDP_MAX_def HEADER_LEN_def

datatype transport = Udp | Tcp

record query =
  q_id :: bytes
  opcode :: u16
  rd :: bool
  labels :: "bytes list"
  qtype :: u16
  raw_question :: bytes
  edns_udp_size :: "u16 option"

datatype answer = AnswerA | NoData | Refused

text \<open>The loop of \<open>parse\<close> over the labels of the question name.\<close>

function read_labels :: "bytes \<Rightarrow> nat \<Rightarrow> bytes list \<Rightarrow> unit + bytes list \<times> nat" where
  "read_labels msg pos ls =
     (case slice_get msg pos of
        None \<Rightarrow> Err ()
      | Some b \<Rightarrow>
          if b = 0 then Ok (ls, pos + 1)
          else if b AND 0xC0 \<noteq> 0 then Err ()
          else (case slice_range msg (pos + 1) (pos + 1 + unat b) of
                  None \<Rightarrow> Err ()
                | Some label \<Rightarrow> read_labels msg (pos + 1 + unat b) (ls @ [label])))"
  by pat_completeness auto
termination
  by (relation "measure (\<lambda>(msg, pos, ls). length msg - pos)")
     (auto simp: slice_get_def split: if_splits)

declare read_labels.simps [simp del]

definition parse_opt_udp_size :: "bytes \<Rightarrow> nat \<Rightarrow> u16 option" where
  "parse_opt_udp_size msg pos =
     Option.bind (slice_get msg pos) (\<lambda>root.
       if root \<noteq> 0 then None
       else Option.bind (slice_get msg (pos + 1)) (\<lambda>t0.
            Option.bind (slice_get msg (pos + 2)) (\<lambda>t1.
            if be16 t0 t1 \<noteq> TYPE_OPT then None
            else Option.bind (slice_get msg (pos + 3)) (\<lambda>c0.
                 Option.bind (slice_get msg (pos + 4)) (\<lambda>c1. Some (be16 c0 c1))))))"

text \<open>The request's opcode and RD bit, read out of the flags.\<close>

definition flags_opcode :: "u16 \<Rightarrow> u16" where
  "flags_opcode flags = drop_bit 11 flags AND 0xF"

definition flags_rd :: "u16 \<Rightarrow> bool" where
  "flags_rd flags \<longleftrightarrow> flags AND 0x0100 \<noteq> 0"

definition parse_query :: "bytes \<Rightarrow> unit + query" where
  "parse_query msg =
     (let flags = be16 (msg ! 2) (msg ! 3);
          qdcount = be16 (msg ! 4) (msg ! 5);
          arcount = be16 (msg ! 10) (msg ! 11)
      in if qdcount = 0 then Err ()
         else rbind (read_labels msg HEADER_LEN []) (\<lambda>(ls, pos).
              rbind (ok_or () (slice_get msg pos)) (\<lambda>t0.
              rbind (ok_or () (slice_get msg (pos + 1))) (\<lambda>t1.
              let q_end = pos + 4
              in if q_end > length msg then Err ()
                 else Ok \<lparr>q_id = [msg ! 0, msg ! 1], opcode = flags_opcode flags, rd = flags_rd flags,
                         labels = ls, qtype = be16 t0 t1,
                         raw_question = take (q_end - HEADER_LEN) (drop HEADER_LEN msg),
                         edns_udp_size = (if 1 \<le> arcount then parse_opt_udp_size msg q_end
                                          else None)\<rparr>))))"

definition decide :: "bytes list \<Rightarrow> u16 \<Rightarrow> string \<Rightarrow> answer" where
  "decide ls qt t =
     (let under_tld = (if ls = [] then False else bytes_eq_ignore_case (last ls) (str_bytes t))
      in if \<not> under_tld then Refused else if qt = TYPE_A then AnswerA else NoData)"

definition response_flags :: "u16 \<Rightarrow> bool \<Rightarrow> bool \<Rightarrow> bool \<Rightarrow> u16 \<Rightarrow> bytes" where
  "response_flags opc aa tc rdb rcode =
     to_be16 (0x8000 OR push_bit 11 (opc AND 0xF)
       OR (if aa then 0x0400 else 0) OR (if tc then 0x0200 else 0)
       OR (if rdb then 0x0100 else 0) OR (rcode AND 0xF))"

definition write_a_answer :: "u32 \<Rightarrow> ipv4 \<Rightarrow> bytes" where
  "write_a_answer ttl ip =
     [0xC0, 0x0C] @ to_be16 TYPE_A @ to_be16 1 @ to_be32 ttl @ to_be16 4 @ octets ip"

definition write_opt :: bytes where
  "write_opt = [0] @ to_be16 TYPE_OPT @ to_be16 4096 @ [0, 0, 0, 0] @ to_be16 0"

definition build :: "query \<Rightarrow> ipv4 \<Rightarrow> string \<Rightarrow> u32 \<Rightarrow> transport \<Rightarrow> bytes" where
  "build q ip t ttl tr =
     (let answer = decide (labels q) (qtype q) t;
          under_tld = (answer \<noteq> Refused);
          rcode = (if answer = Refused then RCODE_REFUSED else RCODE_NOERROR);
          has_opt = (edns_udp_size q \<noteq> None);
          ancount = (if answer = AnswerA then 1 else 0);
          answers = (if answer = AnswerA then write_a_answer ttl ip else []);
          additional = (if has_opt then write_opt else []);
          full_len = HEADER_LEN + length (raw_question q) + length answers + length additional;
          truncate = (tr = Udp
            \<and> full_len > unwrap_or (map_option unat (edns_udp_size q)) DEFAULT_UDP_MAX);
          (final_an, tc) = (if truncate then (0, True) else (ancount, False))
      in q_id q @ response_flags (opcode q) under_tld tc (rd q) rcode
         @ to_be16 1 @ to_be16 final_an @ to_be16 0 @ to_be16 (if has_opt then 1 else 0)
         @ raw_question q @ (if truncate then [] else answers) @ additional)"

definition build_formerr :: "bytes \<Rightarrow> bytes" where
  "build_formerr request =
     (let flags = be16 (request ! 2) (request ! 3)
      in take 2 request
         @ response_flags (flags_opcode flags) False False (flags_rd flags) RCODE_FORMERR
         @ [0, 0, 0, 0, 0, 0])"

definition respond :: "bytes \<Rightarrow> ipv4 \<Rightarrow> string \<Rightarrow> u32 \<Rightarrow> transport \<Rightarrow> bytes option" where
  "respond request ip t ttl tr =
     (if length request < HEADER_LEN then None
      else (case parse_query request of
              Inr q \<Rightarrow> Some (build q ip t ttl tr)
            | Inl _ \<Rightarrow> Some (build_formerr request)))"

section \<open>The client side\<close>

definition build_a_query :: "string \<Rightarrow> bytes" where
  "build_a_query name =
     [0, 0] @ to_be16 0x0100 @ to_be16 1 @ [0, 0, 0, 0, 0, 0]
     @ concat (map (\<lambda>label. let len = min (length label) 63
                           in of_nat len # take len (str_bytes label))
                (filter (\<lambda>l. l \<noteq> []) (split_on CHR ''.'' name)))
     @ [0] @ to_be16 TYPE_A @ to_be16 1"

function skip_name :: "bytes \<Rightarrow> nat \<Rightarrow> nat option" where
  "skip_name msg pos =
     (case slice_get msg pos of
        None \<Rightarrow> None
      | Some b \<Rightarrow>
          if b = 0 then Some (pos + 1)
          else if b AND 0xC0 = 0xC0 then Some (pos + 2)
          else skip_name msg (pos + (1 + unat b)))"
  by pat_completeness auto
termination
  by (relation "measure (\<lambda>(msg, pos). length msg - pos)")
     (auto simp: slice_get_def split: if_splits)

declare skip_name.simps [simp del]

text \<open>The loop over the questions (\<open>n\<close> left) and the loop over the answers.\<close>

fun skip_questions :: "bytes \<Rightarrow> nat \<Rightarrow> nat \<Rightarrow> nat option" where
  "skip_questions msg 0 pos = Some pos"
| "skip_questions msg (Suc n) pos =
     Option.bind (skip_name msg pos) (\<lambda>p. skip_questions msg n (p + 4))"

fun walk_answers :: "bytes \<Rightarrow> nat \<Rightarrow> nat \<Rightarrow> ipv4 option" where
  "walk_answers msg 0 pos = None"
| "walk_answers msg (Suc n) pos =
     Option.bind (skip_name msg pos) (\<lambda>p.
     Option.bind (slice_get msg p) (\<lambda>t0.
     Option.bind (slice_get msg (p + 1)) (\<lambda>t1.
     Option.bind (slice_get msg (p + 8)) (\<lambda>l0.
     Option.bind (slice_get msg (p + 9)) (\<lambda>l1.
     let rtype = be16 t0 t1; rdlength = unat (be16 l0 l1); rdata_start = p + 10
     in if rtype = TYPE_A \<and> rdlength = 4
        then Option.bind (slice_range msg rdata_start (rdata_start + 4)) (\<lambda>b.
             Some (Ipv4Addr (b ! 0) (b ! 1) (b ! 2) (b ! 3)))
        else walk_answers msg n (rdata_start + rdlength))))))"

definition parse_first_a_ipv4 :: "bytes \<Rightarrow> ipv4 option" where
  "parse_first_a_ipv4 response =
     (if length response < HEADER_LEN then None
      else let qdcount = be16 (response ! 4) (response ! 5);
               ancount = be16 (response ! 6) (response ! 7)
           in Option.bind (skip_questions response (unat qdcount) HEADER_LEN)
                (walk_answers response (unat ancount)))"

section \<open>Masks and flags\<close>

lemma bit_c0: "bit (0xC0 :: u8) n \<longleftrightarrow> n = 6 \<or> n = 7"
proof -
  have "(0xC0 :: u8) = push_bit 6 (mask 2)"
    by (simp add: mask_eq_exp_minus_1)
  then have "bit (0xC0 :: u8) n \<longleftrightarrow> bit (push_bit 6 (mask 2) :: u8) n"
    by (rule arg_cong)
  then show ?thesis
    unfolding bit_push_bit_iff bit_mask_iff by auto
qed

lemma and_top_bits: "b AND 0xC0 = push_bit 6 (drop_bit 6 b)" for b :: u8
  by (rule bit_word_eqI) (auto simp: bit_and_iff bit_push_bit_iff bit_drop_bit_eq bit_c0 simp del: bit_numeral_word_iff)

lemma unat_drop6: "unat (drop_bit 6 b) = unat b div 64" for b :: u8
  by (simp only: unat_drop_bit_eq) (simp add: drop_bit_eq_div)

lemma top_bits_zero: "b AND 0xC0 = 0 \<longleftrightarrow> unat b < 64" for b :: u8
proof -
  have "b AND 0xC0 = 0 \<longleftrightarrow> unat b div 64 = 0"
  proof
    assume "b AND 0xC0 = 0"
    then have "drop_bit 6 (push_bit 6 (drop_bit 6 b)) = 0"
      by (simp add: and_top_bits)
    moreover have "drop_bit 6 (push_bit 6 (drop_bit 6 b)) = drop_bit 6 b"
      by (rule bit_word_eqI) (auto simp: bit_simps dest: bit_imp_le_length)
    ultimately show "unat b div 64 = 0"
      by (metis unat_0 unat_drop6)
  next
    assume "unat b div 64 = 0"
    then have "unat (drop_bit 6 b) = 0"
      by (simp only: unat_drop6)
    then have "drop_bit 6 b = 0"
      by (simp only: unat_eq_zero)
    then show "b AND 0xC0 = 0"
      by (simp only: and_top_bits push_bit_of_0)
  qed
  then show ?thesis by auto
qed

lemma bit_flag:
  "bit (0x8000 :: u16) n \<longleftrightarrow> n = 15" "bit (0x0400 :: u16) n \<longleftrightarrow> n = 10"
  "bit (0x0200 :: u16) n \<longleftrightarrow> n = 9" "bit (0x0100 :: u16) n \<longleftrightarrow> n = 8"
  "bit (0xF :: u16) n \<longleftrightarrow> n < 4"
proof -
  have one: "bit (push_bit k 1 :: u16) n \<longleftrightarrow> n = k" if "k < 16" for k
    unfolding bit_push_bit_iff bit_1_iff using that by auto
  have e: "push_bit 15 1 = (0x8000 :: u16)" "push_bit 10 1 = (0x0400 :: u16)"
    "push_bit 9 1 = (0x0200 :: u16)" "push_bit 8 1 = (0x0100 :: u16)" "mask 4 = (0xF :: u16)"
    by (simp_all add: mask_eq_exp_minus_1)
  show "bit (0x8000 :: u16) n \<longleftrightarrow> n = 15" by (rule one [of 15, unfolded e]) simp
  show "bit (0x0400 :: u16) n \<longleftrightarrow> n = 10" by (rule one [of 10, unfolded e]) simp
  show "bit (0x0200 :: u16) n \<longleftrightarrow> n = 9" by (rule one [of 9, unfolded e]) simp
  show "bit (0x0100 :: u16) n \<longleftrightarrow> n = 8" by (rule one [of 8, unfolded e]) simp
  have "bit (mask 4 :: u16) n \<longleftrightarrow> n < 4"
    unfolding bit_mask_iff by auto
  then show "bit (0xF :: u16) n \<longleftrightarrow> n < 4"
    unfolding e .
qed

definition reply_flags :: "u16 \<Rightarrow> bool \<Rightarrow> bool \<Rightarrow> bool \<Rightarrow> u16 \<Rightarrow> u16" where
  "reply_flags opc aa tc rdb rcode =
     0x8000 OR push_bit 11 (opc AND 0xF)
       OR (if aa then 0x0400 else 0) OR (if tc then 0x0200 else 0)
       OR (if rdb then 0x0100 else 0) OR (rcode AND 0xF)"

lemma bit_reply_flags:
  "bit (reply_flags opc aa tc rdb rcode) n \<longleftrightarrow>
     n = 15 \<or> (11 \<le> n \<and> n < 15 \<and> bit opc (n - 11)) \<or> (n = 10 \<and> aa) \<or> (n = 9 \<and> tc)
     \<or> (n = 8 \<and> rdb) \<or> (n < 4 \<and> bit rcode n)"
proof -
  have ite: "bit (if p then v else 0) n \<longleftrightarrow> p \<and> bit v n" for p and v :: u16
    by simp
  consider "n = 15" | "11 \<le> n \<and> n < 15" | "n = 10" | "n = 9" | "n = 8" | "n < 8" | "15 < n"
    by linarith
  then show ?thesis
    unfolding reply_flags_def bit_or_iff bit_push_bit_iff bit_and_iff bit_flag ite
    by cases auto
qed

lemma flags_rd_bit: "flags_rd f \<longleftrightarrow> bit f 8"
proof -
  have "f AND 0x0100 = (if bit f 8 then 0x0100 else 0)"
    by (rule bit_word_eqI) (auto simp: bit_and_iff bit_flag simp del: bit_numeral_word_iff)
  then show ?thesis by (simp add: flags_rd_def)
qed

lemma bit_flags_opcode: "bit (flags_opcode f) n \<longleftrightarrow> n < 4 \<and> bit f (11 + n)"
  unfolding flags_opcode_def bit_and_iff bit_flag bit_drop_bit_eq by auto

lemma reply_flags_fields:
  "flags_opcode (reply_flags (flags_opcode f) aa tc rdb rcode) = flags_opcode f"
  "flags_rd (reply_flags opc aa tc rdb rcode) = rdb"
  "reply_flags opc aa tc rdb rcode AND 0xF = rcode AND 0xF"
proof -
  show "flags_opcode (reply_flags (flags_opcode f) aa tc rdb rcode) = flags_opcode f"
    by (rule bit_word_eqI) (auto simp: bit_flags_opcode bit_reply_flags)
  show "flags_rd (reply_flags opc aa tc rdb rcode) = rdb"
    by (auto simp: flags_rd_bit bit_reply_flags)
  show "reply_flags opc aa tc rdb rcode AND 0xF = rcode AND 0xF"
    by (rule bit_word_eqI) (auto simp: bit_and_iff bit_flag bit_reply_flags simp del: bit_numeral_word_iff)
qed

lemma response_flags_eq: "response_flags opc aa tc rdb rcode = to_be16 (reply_flags opc aa tc rdb rcode)"
  by (simp add: response_flags_def reply_flags_def)

section \<open>Wire names\<close>

text \<open>The wire form of a question name, the labels a query may carry, and the shape of a message whose
  first question is readable.\<close>

definition label_ok :: "bytes \<Rightarrow> bool" where
  "label_ok l \<longleftrightarrow> 0 < length l \<and> length l < 64"

definition wire_label :: "bytes \<Rightarrow> bytes" where
  "wire_label l = of_nat (length l) # l"

definition wire_name :: "bytes list \<Rightarrow> bytes" where
  "wire_name ls = concat (map wire_label ls) @ [0]"

lemma wire_name_simps [simp]:
  "wire_name [] = [0]" "wire_name (l # ls) = of_nat (length l) # l @ wire_name ls"
  by (simp_all add: wire_name_def wire_label_def)

lemma label_ok_len:
  assumes "label_ok l"
  shows "unat (of_nat (length l) :: u8) = length l" "(of_nat (length l) :: u8) \<noteq> 0"
    "(of_nat (length l) :: u8) AND 0xC0 = 0"
proof -
  show n: "unat (of_nat (length l) :: u8) = length l"
    using assms by (simp add: label_ok_def unat_of_nat)
  then show "(of_nat (length l) :: u8) \<noteq> 0"
    using assms by (auto simp: label_ok_def)
  show "(of_nat (length l) :: u8) AND 0xC0 = 0"
    using n assms by (simp add: top_bits_zero label_ok_def)
qed

lemma slice_get_at: "length pre = n \<Longrightarrow> slice_get (pre @ x # rest) n = Some x"
  by (auto simp: slice_get_def)

lemma read_labels_wire:
  assumes "list_all label_ok ls"
  shows "read_labels (pre @ wire_name ls @ rest) (length pre) acc
    = Ok (acc @ ls, length pre + length (wire_name ls))"
  using assms
proof (induction ls arbitrary: pre acc)
  case Nil
  then show ?case
    by (simp add: read_labels.simps [of _ "length pre"] slice_get_at)
next
  case (Cons l ls)
  let ?n = "of_nat (length l) :: u8"
  have l: "label_ok l" "list_all label_ok ls"
    using Cons.prems by auto
  have r: "slice_range (pre @ ?n # l @ wire_name ls @ rest) (Suc (length pre)) (Suc (length pre) + length l)
      = Some l"
    by (simp add: slice_range_def)
  have "read_labels (pre @ ?n # l @ wire_name ls @ rest) (length pre) acc
      = read_labels ((pre @ ?n # l) @ wire_name ls @ rest) (length (pre @ ?n # l)) (acc @ [l])"
    using l(1) r
    by (subst read_labels.simps) (simp add: slice_get_at label_ok_len)
  also have "\<dots> = Ok ((acc @ [l]) @ ls, length (pre @ ?n # l) + length (wire_name ls))"
    by (rule Cons.IH [OF l(2)])
  finally show ?case by simp
qed

lemma read_labels_sound:
  assumes "read_labels msg pos acc = Ok (r, p)"
  shows "\<exists>ls. r = acc @ ls \<and> list_all label_ok ls \<and> p = pos + length (wire_name ls)
    \<and> (\<exists>rest. drop pos msg = wire_name ls @ rest)"
  using assms
proof (induction msg pos acc rule: read_labels.induct)
  case (1 msg pos acc)
  from "1.prems" obtain b where b: "slice_get msg pos = Some b"
    by (cases "slice_get msg pos") (simp_all add: read_labels.simps [of msg pos])
  then have d: "drop pos msg = b # drop (pos + 1) msg"
    by (auto simp: slice_get_Some_iff Cons_nth_drop_Suc)
  show ?case
  proof (cases "b = 0")
    case True
    with "1.prems" b have "r = acc" "p = pos + 1"
      by (simp_all add: read_labels.simps [of msg pos])
    with True d show ?thesis
      by (intro exI [of _ "[]"]) simp
  next
    case False
    with "1.prems" b have c: "b AND 0xC0 = 0"
      by (simp add: read_labels.simps [of msg pos] split: if_splits)
    with False "1.prems" b obtain l where
      l: "slice_range msg (pos + 1) (pos + 1 + unat b) = Some l"
      and rec: "read_labels msg (pos + 1 + unat b) (acc @ [l]) = Ok (r, p)"
      by (cases "slice_range msg (pos + 1) (pos + 1 + unat b)")
        (simp_all add: read_labels.simps [of msg pos])
    from "1.IH" [OF b False _ l rec] c obtain ls rest where
      ih: "r = (acc @ [l]) @ ls" "list_all label_ok ls"
      "p = pos + 1 + unat b + length (wire_name ls)"
      "drop (pos + 1 + unat b) msg = wire_name ls @ rest"
      by auto
    from l have bound: "pos + 1 + unat b \<le> length msg" and lt: "l = take (unat b) (drop (pos + 1) msg)"
      by (simp_all add: slice_range_Some_iff)
    have "drop (pos + 1) msg = take (unat b) (drop (pos + 1) msg) @ drop (unat b) (drop (pos + 1) msg)"
      by (rule append_take_drop_id [symmetric])
    with bound have len: "length l = unat b" "drop (pos + 1) msg = l @ drop (pos + 1 + unat b) msg"
      unfolding lt by (simp_all add: ac_simps)
    have "label_ok l"
      using len(1) False c by (simp add: label_ok_def top_bits_zero unat_gt_0)
    with ih len d show ?thesis
      by (intro exI [of _ "l # ls"]) simp
  qed
qed

section \<open>What a request is and what its reply contains\<close>

text \<open>A request whose header is complete, that has a question and whose first question reads as the
  labels \<open>ls\<close> and the type \<open>qt\<close>.\<close>

definition wf_request :: "bytes \<Rightarrow> bytes list \<Rightarrow> u16 \<Rightarrow> bool" where
  "wf_request msg ls qt \<longleftrightarrow>
     (\<exists>hdr qc rest. length hdr = 12 \<and> be16 (hdr ! 4) (hdr ! 5) \<noteq> 0 \<and> list_all label_ok ls
        \<and> msg = hdr @ wire_name ls @ to_be16 qt @ to_be16 qc @ rest)"

definition under_tld :: "bytes list \<Rightarrow> string \<Rightarrow> bool" where
  "under_tld ls t \<longleftrightarrow> ls \<noteq> [] \<and> bytes_eq_ignore_case (last ls) (str_bytes t)"

definition full_len :: "query \<Rightarrow> string \<Rightarrow> nat" where
  "full_len q t = 12 + length (raw_question q)
     + (if under_tld (labels q) t \<and> qtype q = TYPE_A then 16 else 0)
     + (if edns_udp_size q = None then 0 else 11)"

definition udp_limit :: "query \<Rightarrow> nat" where
  "udp_limit q = (case edns_udp_size q of None \<Rightarrow> 512 | Some n \<Rightarrow> unat n)"

definition truncated :: "query \<Rightarrow> string \<Rightarrow> transport \<Rightarrow> bool" where
  "truncated q t tr \<longleftrightarrow> tr = Udp \<and> udp_limit q < full_len q t"

definition answer_bytes :: "query \<Rightarrow> ipv4 \<Rightarrow> string \<Rightarrow> u32 \<Rightarrow> transport \<Rightarrow> bytes" where
  "answer_bytes q ip t ttl tr =
     (if under_tld (labels q) t \<and> qtype q = TYPE_A \<and> \<not> truncated q t tr
      then write_a_answer ttl ip else [])"

lemma decide_eq:
  "decide ls qt t = (if \<not> under_tld ls t then Refused else if qt = TYPE_A then AnswerA else NoData)"
  by (auto simp: decide_def under_tld_def)

lemma section_lengths [simp]:
  "length (write_a_answer ttl ip) = 16" "length write_opt = 11" "length (octets ip) = 4"
  by (cases ip; simp add: write_a_answer_def write_opt_def)+

lemma write_a_answer_not_Nil [simp]: "write_a_answer ttl ip \<noteq> []"
  by (simp add: write_a_answer_def)

lemma build_eq:
  "build q ip t ttl tr =
     q_id q @ to_be16 (reply_flags (opcode q) (under_tld (labels q) t) (truncated q t tr) (rd q)
                        (if under_tld (labels q) t then 0 else 5))
     @ to_be16 1 @ to_be16 (if answer_bytes q ip t ttl tr = [] then 0 else 1) @ to_be16 0
     @ to_be16 (if edns_udp_size q = None then 0 else 1)
     @ raw_question q @ answer_bytes q ip t ttl tr
     @ (if edns_udp_size q = None then [] else write_opt)"
proof -
  have lim: "unwrap_or (map_option unat (edns_udp_size q)) DEFAULT_UDP_MAX = udp_limit q"
    by (cases "edns_udp_size q") (simp_all add: udp_limit_def DEFAULT_UDP_MAX_def)
  show ?thesis
    unfolding build_def Let_def lim decide_eq response_flags_eq
    by (auto simp: truncated_def full_len_def answer_bytes_def HEADER_LEN_def RCODE_REFUSED_def
        RCODE_NOERROR_def)
qed

lemma header_nth:
  assumes "length hdr = 12"
  shows "(hdr @ xs) ! 0 = hdr ! 0" "(hdr @ xs) ! 1 = hdr ! 1" "(hdr @ xs) ! 2 = hdr ! 2"
    "(hdr @ xs) ! 3 = hdr ! 3" "(hdr @ xs) ! 4 = hdr ! 4" "(hdr @ xs) ! 5 = hdr ! 5"
    "(hdr @ xs) ! 10 = hdr ! 10" "(hdr @ xs) ! 11 = hdr ! 11"
  using assms by (simp_all add: nth_append)

lemma take_two: "2 \<le> length xs \<Longrightarrow> [xs ! 0, xs ! Suc 0] = take 2 xs"
  by (cases xs; cases "tl xs") (auto simp: numeral_2_eq_2)

lemma parse_query_wf:
  assumes hdr: "length hdr = 12" "be16 (hdr ! 4) (hdr ! 5) \<noteq> 0" and ls: "list_all label_ok ls"
    and msg: "msg = hdr @ wire_name ls @ to_be16 qt @ to_be16 qc @ rest"
  shows "\<exists>e. parse_query msg = Ok \<lparr>q_id = take 2 msg,
     opcode = flags_opcode (be16 (msg ! 2) (msg ! 3)), rd = flags_rd (be16 (msg ! 2) (msg ! 3)),
     labels = ls, qtype = qt, raw_question = wire_name ls @ to_be16 qt @ to_be16 qc,
     edns_udp_size = e\<rparr>"
proof -
  let ?p = "length hdr + length (wire_name ls)"
  have id: "[msg ! 0, msg ! Suc 0] = take 2 msg"
    by (rule take_two) (simp add: msg hdr(1))
  have "read_labels msg HEADER_LEN [] = Ok (ls, ?p)"
    using read_labels_wire [OF ls, of hdr "to_be16 qt @ to_be16 qc @ rest" "[]"] hdr(1)
    by (simp add: msg HEADER_LEN_def)
  moreover have "slice_get msg ?p = Some (ucast (drop_bit 8 qt))"
    "slice_get msg (?p + 1) = Some (ucast qt)"
    using slice_get_append [of "hdr @ wire_name ls" "to_be16 qt @ to_be16 qc @ rest" 0]
      slice_get_append [of "hdr @ wire_name ls" "to_be16 qt @ to_be16 qc @ rest" 1]
    by (simp_all add: msg to_be16_def)
  moreover have "?p + 4 \<le> length msg"
    by (simp add: msg)
  moreover have "take (?p + 4 - HEADER_LEN) (drop HEADER_LEN msg) = wire_name ls @ to_be16 qt @ to_be16 qc"
    using hdr(1) by (simp add: msg HEADER_LEN_def)
  moreover have "be16 (msg ! 4) (msg ! 5) \<noteq> 0"
    using hdr header_nth [OF hdr(1)] by (simp add: msg)
  ultimately show ?thesis
    by (simp add: parse_query_def Let_def be16_to_be16 id)
qed

lemma parse_query_sound:
  assumes "parse_query msg = Ok q" "12 \<le> length msg"
  shows "wf_request msg (labels q) (qtype q)"
proof -
  from assms(1) obtain ls p t0 t1 where
    qd: "be16 (msg ! 4) (msg ! 5) \<noteq> 0" and
    r: "read_labels msg HEADER_LEN [] = Ok (ls, p)" and
    t: "slice_get msg p = Some t0" "slice_get msg (p + 1) = Some t1" and
    len: "p + 4 \<le> length msg" and q: "labels q = ls" "qtype q = be16 t0 t1"
    by (auto simp: parse_query_def Let_def rbind_Ok_iff split: if_splits)
  from read_labels_sound [OF r] obtain rest where
    ls: "list_all label_ok ls" "p = 12 + length (wire_name ls)" "drop 12 msg = wire_name ls @ rest"
    by (auto simp: HEADER_LEN_def)
  have rest: "rest = drop p msg"
    using arg_cong [OF ls(3), of "drop (length (wire_name ls))"] by (simp add: ls(2) add.commute)
  have "drop p msg = t0 # t1 # msg ! (p + 2) # msg ! (p + 3) # drop (p + 4) msg"
    using t len by (auto simp: slice_get_Some_iff Cons_nth_drop_Suc eval_nat_numeral)
  then have "drop p msg = to_be16 (be16 t0 t1) @ to_be16 (be16 (msg ! (p + 2)) (msg ! (p + 3)))
      @ drop (p + 4) msg"
    by (simp add: to_be16_be16)
  then have "msg = take 12 msg @ wire_name ls @ to_be16 (qtype q)
      @ to_be16 (be16 (msg ! (p + 2)) (msg ! (p + 3))) @ drop (p + 4) msg"
    using append_take_drop_id [of 12 msg] by (simp add: ls(3) rest q)
  moreover have "length (take 12 msg) = 12" "be16 (take 12 msg ! 4) (take 12 msg ! 5) \<noteq> 0"
    using assms(2) qd by simp_all
  ultimately show ?thesis
    unfolding wf_request_def q(1) using ls(1) by blast
qed

lemma parse_query_iff:
  assumes "12 \<le> length msg"
  shows "(\<exists>q. parse_query msg = Ok q \<and> labels q = ls \<and> qtype q = qt) \<longleftrightarrow> wf_request msg ls qt"
proof
  assume "\<exists>q. parse_query msg = Ok q \<and> labels q = ls \<and> qtype q = qt"
  then show "wf_request msg ls qt"
    using parse_query_sound assms by blast
next
  assume "wf_request msg ls qt"
  then show "\<exists>q. parse_query msg = Ok q \<and> labels q = ls \<and> qtype q = qt"
    unfolding wf_request_def using parse_query_wf by fastforce
qed

text \<open>The fields of a reply, whatever its body.\<close>

lemma reply_fields:
  assumes "length i = 2" "r = i @ to_be16 f @ to_be16 qd @ to_be16 an @ to_be16 ns @ to_be16 ar @ body"
  shows "take 2 r = i" "be16 (r ! 2) (r ! 3) = f" "be16 (r ! 4) (r ! 5) = qd"
    "be16 (r ! 6) (r ! 7) = an" "be16 (r ! 8) (r ! 9) = ns" "be16 (r ! 10) (r ! 11) = ar"
    "drop 12 r = body" "length r = 12 + length body"
proof -
  obtain a b where "i = [a, b]"
    using assms(1) by (auto simp: length_Suc_conv numeral_2_eq_2)
  then show "take 2 r = i" "be16 (r ! 2) (r ! 3) = f" "be16 (r ! 4) (r ! 5) = qd"
    "be16 (r ! 6) (r ! 7) = an" "be16 (r ! 8) (r ! 9) = ns" "be16 (r ! 10) (r ! 11) = ar"
    "drop 12 r = body" "length r = 12 + length body"
    by (simp_all add: assms(2) to_be16_def be16_to_be16)
qed

lemma to_be16_0: "to_be16 0 = [0, 0]"
  by (simp add: to_be16_def)

lemma formerr_eq:
  "build_formerr req = take 2 req
     @ to_be16 (reply_flags (flags_opcode (be16 (req ! 2) (req ! 3))) False False
                  (flags_rd (be16 (req ! 2) (req ! 3))) 1)
     @ [0, 0, 0, 0, 0, 0]"
  by (simp add: build_formerr_def Let_def response_flags_eq RCODE_FORMERR_def to_be16_0)

lemma respond_cases:
  assumes "respond req ip t ttl tr = Some r"
  obtains (reply) q where "12 \<le> length req" "parse_query req = Ok q" "r = build q ip t ttl tr"
  | (formerr) "12 \<le> length req" "parse_query req = Err ()" "r = build_formerr req"
  using assms by (auto simp: respond_def HEADER_LEN_def split: if_splits sum.splits)

text \<open>What a successful parse took from the message.\<close>

lemma parse_query_fields:
  assumes "parse_query msg = Ok q" "12 \<le> length msg"
  shows "q_id q = take 2 msg" "opcode q = flags_opcode (be16 (msg ! 2) (msg ! 3))"
    "rd q = flags_rd (be16 (msg ! 2) (msg ! 3))"
    "\<exists>qc rest. raw_question q = wire_name (labels q) @ to_be16 (qtype q) @ to_be16 qc
       \<and> drop 12 msg = raw_question q @ rest"
proof -
  from parse_query_sound [OF assms] obtain hdr qc rest where
    h: "length hdr = 12" "be16 (hdr ! 4) (hdr ! 5) \<noteq> 0" "list_all label_ok (labels q)"
      "msg = hdr @ wire_name (labels q) @ to_be16 (qtype q) @ to_be16 qc @ rest"
    unfolding wf_request_def by blast
  obtain e where
    e: "parse_query msg = Ok \<lparr>q_id = take 2 msg, opcode = flags_opcode (be16 (msg ! 2) (msg ! 3)),
        rd = flags_rd (be16 (msg ! 2) (msg ! 3)), labels = labels q, qtype = qtype q,
        raw_question = wire_name (labels q) @ to_be16 (qtype q) @ to_be16 qc, edns_udp_size = e\<rparr>"
    using parse_query_wf [OF h] by blast
  have f: "q_id q = take 2 msg" "opcode q = flags_opcode (be16 (msg ! 2) (msg ! 3))"
    "rd q = flags_rd (be16 (msg ! 2) (msg ! 3))"
    "raw_question q = wire_name (labels q) @ to_be16 (qtype q) @ to_be16 qc"
    using e assms(1) by (cases q, simp)+
  show "q_id q = take 2 msg" "opcode q = flags_opcode (be16 (msg ! 2) (msg ! 3))"
    "rd q = flags_rd (be16 (msg ! 2) (msg ! 3))" by (fact f)+
  show "\<exists>qc rest. raw_question q = wire_name (labels q) @ to_be16 (qtype q) @ to_be16 qc
       \<and> drop 12 msg = raw_question q @ rest"
  proof (intro exI conjI)
    show "raw_question q = wire_name (labels q) @ to_be16 (qtype q) @ to_be16 qc" by (fact f(4))
    show "drop 12 msg = raw_question q @ rest"
      unfolding f(4) using h(1,4) by (metis append.assoc append_eq_conv_conj)
  qed
qed

lemmas build_fields = reply_fields [OF _ build_eq]

lemma formerr_fields:
  assumes "12 \<le> length req"
  shows "take 2 (build_formerr req) = take 2 req"
    "be16 (build_formerr req ! 2) (build_formerr req ! 3)
      = reply_flags (flags_opcode (be16 (req ! 2) (req ! 3))) False False
          (flags_rd (be16 (req ! 2) (req ! 3))) 1"
    "length (build_formerr req) = 10" "drop 4 (build_formerr req) = [0, 0, 0, 0, 0, 0]"
proof -
  obtain a b rest where "req = a # b # rest"
    using assms by (cases req; cases "tl req") auto
  then show "take 2 (build_formerr req) = take 2 req"
    "be16 (build_formerr req ! 2) (build_formerr req ! 3)
      = reply_flags (flags_opcode (be16 (req ! 2) (req ! 3))) False False
          (flags_rd (be16 (req ! 2) (req ! 3))) 1"
    "length (build_formerr req) = 10" "drop 4 (build_formerr req) = [0, 0, 0, 0, 0, 0]"
    by (simp_all add: formerr_eq to_be16_def be16_to_be16)
qed

text \<open>The probe's query is a well-formed request for the non-empty labels of the name, each cut to
  63 bytes.\<close>

definition probe_labels :: "string \<Rightarrow> bytes list" where
  "probe_labels name = map (\<lambda>l. take 63 (str_bytes l)) (filter (\<lambda>l. l \<noteq> []) (split_on CHR ''.'' name))"

lemma probe_labels_ok: "list_all label_ok (probe_labels name)"
  by (auto simp: probe_labels_def list_all_iff label_ok_def str_bytes_def)

lemma build_a_query_eq:
  "build_a_query name = ([0, 0] @ to_be16 0x0100 @ to_be16 1 @ [0, 0, 0, 0, 0, 0])
     @ wire_name (probe_labels name) @ to_be16 TYPE_A @ to_be16 1 @ []"
proof -
  have "(let len = min (length label) 63 in of_nat len # take len (str_bytes label))
      = wire_label (take 63 (str_bytes label))" for label
    by (simp add: Let_def wire_label_def min_def)
  then show ?thesis
    by (simp add: build_a_query_def wire_name_def probe_labels_def comp_def)
qed

text \<open>Skipping names in a reply.\<close>

lemma skip_name_wire:
  assumes "list_all label_ok ls"
  shows "skip_name (pre @ wire_name ls @ rest) (length pre) = Some (length pre + length (wire_name ls))"
  using assms
proof (induction ls arbitrary: pre)
  case Nil
  then show ?case
    by (simp add: skip_name.simps [of _ "length pre"] slice_get_at)
next
  case (Cons l ls)
  let ?n = "of_nat (length l) :: u8"
  have l: "label_ok l" "list_all label_ok ls"
    using Cons.prems by auto
  have "skip_name (pre @ ?n # l @ wire_name ls @ rest) (length pre)
      = skip_name ((pre @ ?n # l) @ wire_name ls @ rest) (length (pre @ ?n # l))"
    using l(1) by (subst skip_name.simps) (simp add: slice_get_at label_ok_len)
  also have "\<dots> = Some (length (pre @ ?n # l) + length (wire_name ls))"
    by (rule Cons.IH [OF l(2)])
  finally show ?case by simp
qed

lemma skip_pointer: "skip_name (pre @ 0xC0 # rest) (length pre) = Some (length pre + 2)"
  by (subst skip_name.simps) (simp add: slice_get_at)

lemma skip_name_at:
  assumes "list_all label_ok ls" "msg = pre @ wire_name ls @ rest" "length pre = n"
  shows "skip_name msg n = Some (n + length (wire_name ls))"
  using skip_name_wire [OF assms(1), of pre rest] assms(2,3) by simp

lemma walk_a_answer:
  assumes "msg = pre @ write_a_answer ttl ip @ rest" "length pre = n"
  shows "walk_answers msg (Suc k) n = Some ip"
proof -
  have s: "slice_get msg (n + i) = slice_get (write_a_answer ttl ip @ rest) i" for i
    using slice_get_append [of pre "write_a_answer ttl ip @ rest" i] assms by simp
  have r: "slice_range msg (n + 12) (n + 16) = slice_range (write_a_answer ttl ip @ rest) 12 16"
    using slice_range_append [of pre "write_a_answer ttl ip @ rest" 12 16] assms by simp
  have p: "skip_name msg n = Some (n + 2)"
    using skip_pointer [of pre] assms by (simp add: write_a_answer_def)
  obtain a b c d where ip: "ip = Ipv4Addr a b c d" by (cases ip)
  have e: "slice_get (write_a_answer ttl ip @ rest) 2 = Some 0"
    "slice_get (write_a_answer ttl ip @ rest) 3 = Some 1"
    "slice_get (write_a_answer ttl ip @ rest) 10 = Some 0"
    "slice_get (write_a_answer ttl ip @ rest) 11 = Some 4"
    "slice_range (write_a_answer ttl ip @ rest) 12 16 = Some [a, b, c, d]"
    by (simp_all add: slice_get_def slice_range_def write_a_answer_def to_be16_def to_be32_def
        TYPE_A_def ip)
  have f: "slice_get msg (n + 2) = Some 0" "slice_get msg (n + 2 + 1) = Some 1"
    "slice_get msg (n + 2 + 8) = Some 0" "slice_get msg (n + 2 + 9) = Some 4"
    "slice_range msg (n + 2 + 10) (n + 2 + 10 + 4) = Some [a, b, c, d]"
    using s [of 2] s [of 3] s [of 10] s [of 11] r e by (simp_all add: ac_simps numeral_3_eq_3)
  show ?thesis
    using f by (simp add: p be16_def TYPE_A_def ip)
qed

lemma parse_first_a_build:
  assumes "length (q_id q) = 2" "list_all label_ok (labels q)"
    "raw_question q = wire_name (labels q) @ to_be16 (qtype q) @ to_be16 qc"
  shows "parse_first_a_ipv4 (build q ip t ttl tr)
    = (if answer_bytes q ip t ttl tr = [] then None else Some ip)"
proof -
  let ?r = "build q ip t ttl tr" and ?a = "answer_bytes q ip t ttl tr"
  let ?opt = "if edns_udp_size q = None then [] else write_opt"
  note f = build_fields [OF assms(1), of ip t ttl tr]
  have r: "?r = take 12 ?r @ wire_name (labels q) @ (to_be16 (qtype q) @ to_be16 qc) @ ?a @ ?opt"
    using append_take_drop_id [of 12 ?r] by (simp add: f(7) assms(3))
  have twelve: "length (take 12 ?r) = 12"
    using f(8) by simp
  let ?p = "12 + length (wire_name (labels q)) + 4"
  have "skip_name ?r 12 = Some (12 + length (wire_name (labels q)))"
    by (rule skip_name_at [OF assms(2) r twelve])
  then have q: "skip_questions ?r 1 12 = Some ?p"
    by (simp add: One_nat_def del: One_nat_def [symmetric])
  have len: "\<not> length ?r < 12"
    using f(8) by simp
  show ?thesis
  proof (cases "?a = []")
    case True
    then show ?thesis
      using q len by (simp add: parse_first_a_ipv4_def HEADER_LEN_def f)
  next
    case False
    then have a: "?a = write_a_answer ttl ip"
      by (auto simp: answer_bytes_def split: if_splits)
    have "?r = (take 12 ?r @ wire_name (labels q) @ to_be16 (qtype q) @ to_be16 qc)
        @ write_a_answer ttl ip @ ?opt"
      using r by (simp add: a)
    then have "walk_answers ?r (Suc 0) ?p = Some ip"
      by (rule walk_a_answer) (use twelve in simp)
    then show ?thesis
      using q len False by (simp add: parse_first_a_ipv4_def HEADER_LEN_def f)
  qed
qed

lemma parse_first_a_short: "length r < 12 \<Longrightarrow> parse_first_a_ipv4 r = None"
  by (simp add: parse_first_a_ipv4_def HEADER_LEN_def)

lemma respond_wf:
  assumes "wf_request req ls qt"
  shows "\<exists>q. parse_query req = Ok q \<and> labels q = ls \<and> qtype q = qt \<and> 12 \<le> length req
    \<and> respond req ip t ttl tr = Some (build q ip t ttl tr)"
proof -
  have len: "12 \<le> length req"
    using assms by (auto simp: wf_request_def)
  with assms obtain q where "parse_query req = Ok q" "labels q = ls" "qtype q = qt"
    using parse_query_iff by blast
  with len show ?thesis
    by (auto simp: respond_def HEADER_LEN_def)
qed

lemma parsed_labels_ok: "parse_query msg = Ok q \<Longrightarrow> 12 \<le> length msg \<Longrightarrow> list_all label_ok (labels q)"
  by (drule (1) parse_query_sound) (auto simp: wf_request_def)

lemma answer_bytes_Nil_iff:
  "answer_bytes q ip t ttl tr = [] \<longleftrightarrow>
     \<not> (under_tld (labels q) t \<and> qtype q = TYPE_A \<and> \<not> truncated q t tr)"
  by (simp add: answer_bytes_def)

lemma bit_reply_tc_aa:
  "bit (reply_flags opc aa tc rdb rcode) 9 \<longleftrightarrow> tc" "bit (reply_flags opc aa tc rdb rcode) 10 \<longleftrightarrow> aa"
  "bit (reply_flags opc aa tc rdb rcode) 15" "\<not> bit (reply_flags opc aa tc rdb rcode) 7"
  by (simp_all add: bit_reply_flags)

section \<open>A request of the probe and its reply\<close>

definition demo_query :: bytes where
  "demo_query = [0, 0, 1, 0, 0, 1, 0, 0, 0, 0, 0, 0, 1, 120, 3, 68, 105, 71, 0, 0, 1, 0, 1]"

definition demo_reply :: bytes where
  "demo_reply = [0, 0, 0x85, 0, 0, 1, 0, 1, 0, 0, 0, 0, 1, 120, 3, 68, 105, 71, 0, 0, 1, 0, 1,
     0xC0, 0x0C, 0, 1, 0, 1, 0, 0, 0, 2, 0, 4, 127, 0, 0, 5]"

definition demo_parsed :: query where
  "demo_parsed = \<lparr>q_id = [0, 0], opcode = 0, rd = True, labels = [[120], [68, 105, 71]], qtype = 1,
     raw_question = [1, 120, 3, 68, 105, 71, 0, 0, 1, 0, 1], edns_udp_size = None\<rparr>"

lemma demo_query_eq: "build_a_query ''x.DiG'' = demo_query"
  by code_simp

lemma demo_parse: "parse_query demo_query = Ok demo_parsed"
  by code_simp

lemma demo_respond: "respond demo_query (Ipv4Addr 127 0 0 5) ''dig'' 2 Udp = Some demo_reply"
  by code_simp

lemma demo_first_a: "parse_first_a_ipv4 demo_reply = Some (Ipv4Addr 127 0 0 5)"
  by code_simp

lemma demo_wf: "wf_request demo_query [[120], [68, 105, 71]] TYPE_A"
  using parse_query_sound [OF demo_parse]
  by (simp add: demo_parsed_def demo_query_def TYPE_A_def)

section \<open>Properties\<close>

text \<open>C14. The parser accepts exactly the messages whose header announces a question and whose
  first question is a sequence of labels of 1 to 63 bytes ended by the root, followed by the type and
  the class; it returns those labels and that type.\<close>

theorem dns_parse_iff:
  assumes "12 \<le> length msg"
  shows "(\<exists>q. parse_query msg = Ok q \<and> labels q = ls \<and> qtype q = qt) \<longleftrightarrow> wf_request msg ls qt"
  using assms by (rule parse_query_iff)

theorem dns_parse_iff_witness: "wf_request demo_query [[120], [68, 105, 71]] TYPE_A"
proof (rule dns_parse_iff [THEN iffD1])
  show "12 \<le> length demo_query" by (simp add: demo_query_def)
  show "\<exists>q. parse_query demo_query = Ok q \<and> labels q = [[120], [68, 105, 71]] \<and> qtype q = TYPE_A"
    by (simp add: demo_parse demo_parsed_def TYPE_A_def)
qed

text \<open>Every reply carries the request's id, opcode and RD bit, is marked as a response and never
  claims recursion; and there is a reply exactly when the request has a full header.\<close>

theorem dns_reply_header:
  "(respond req ip t ttl tr = None \<longleftrightarrow> length req < 12)
   \<and> (\<forall>r \<in> set_option (respond req ip t ttl tr).
        let f = be16 (r ! 2) (r ! 3); g = be16 (req ! 2) (req ! 3)
        in take 2 r = take 2 req \<and> flags_opcode f = flags_opcode g \<and> flags_rd f = flags_rd g
           \<and> bit f 15 \<and> \<not> bit f 7)"
proof (intro conjI ballI)
  show "respond req ip t ttl tr = None \<longleftrightarrow> length req < 12"
    by (auto simp: respond_def HEADER_LEN_def split: sum.splits)
  fix r assume "r \<in> set_option (respond req ip t ttl tr)"
  then have "respond req ip t ttl tr = Some r" by simp
  then show "let f = be16 (r ! 2) (r ! 3); g = be16 (req ! 2) (req ! 3)
        in take 2 r = take 2 req \<and> flags_opcode f = flags_opcode g \<and> flags_rd f = flags_rd g
           \<and> bit f 15 \<and> \<not> bit f 7"
  proof (cases rule: respond_cases)
    case (reply q)
    note p = parse_query_fields(1-3) [OF reply(2,1)]
    have "length (q_id q) = 2" using p reply(1) by simp
    from build_fields(1,2) [OF this, of ip t ttl tr] show ?thesis
      by (simp add: reply(3) p reply_flags_fields bit_reply_tc_aa)
  next
    case formerr
    then show ?thesis
      by (simp add: formerr_fields reply_flags_fields bit_reply_tc_aa)
  qed
qed

theorem dns_reply_header_witness: "take 2 demo_reply = take 2 demo_query"
  using dns_reply_header [of demo_query "Ipv4Addr 127 0 0 5" "''dig''" 2 Udp]
  by (simp add: demo_respond Let_def)

text \<open>C12. The answering policy: for a well-formed request the reply echoes the question byte for
  byte, is authoritative exactly for names whose last label is the TLD (compared without case), has
  code NOERROR for those and REFUSED for the others, and carries one answer exactly when the name is
  under the TLD, the type is \<open>A\<close> and the reply is not truncated; over TCP it never is.\<close>

theorem dns_answer_policy:
  assumes "wf_request req ls qt" "respond req ip t ttl tr = Some r"
  shows "let f = be16 (r ! 2) (r ! 3); n = length (wire_name ls) + 4
    in take n (drop 12 r) = take n (drop 12 req) \<and> be16 (r ! 4) (r ! 5) = 1
     \<and> (bit f 10 \<longleftrightarrow> under_tld ls t) \<and> f AND 0xF = (if under_tld ls t then 0 else 5)
     \<and> be16 (r ! 6) (r ! 7) = (if under_tld ls t \<and> qt = TYPE_A \<and> \<not> bit f 9 then 1 else 0)
     \<and> be16 (r ! 8) (r ! 9) = 0 \<and> (tr = Tcp \<longrightarrow> \<not> bit f 9)"
proof -
  obtain q where q: "parse_query req = Ok q" "labels q = ls" "qtype q = qt" "12 \<le> length req"
    "r = build q ip t ttl tr"
    using respond_wf [OF assms(1), of ip t ttl tr] assms(2) by auto
  note p = parse_query_fields [OF q(1,4)]
  obtain qc rest where raw: "raw_question q = wire_name ls @ to_be16 qt @ to_be16 qc"
    "drop 12 req = raw_question q @ rest"
    using p(4) q(2,3) by auto
  have two: "length (q_id q) = 2" using p(1) q(4) by simp
  note f = build_fields [OF two, of ip t ttl tr]
  have n: "length (raw_question q) = length (wire_name ls) + 4"
    by (simp add: raw(1))
  have echo: "take (length (raw_question q)) (drop 12 r) = raw_question q"
    "take (length (raw_question q)) (drop 12 req) = raw_question q"
    by (simp_all add: q(5) f(7) raw(2))
  have code: "(if u then 0 else 5) AND (0xF :: u16) = (if u then 0 else 5)" for u
    by simp
  have tc: "bit (be16 (r ! 2) (r ! 3)) 9 \<longleftrightarrow> truncated q t tr"
    by (simp add: q(5) f(2) bit_reply_tc_aa)
  have tcp: "truncated q t tr \<Longrightarrow> tr \<noteq> Tcp" by (simp add: truncated_def)
  show ?thesis
    unfolding Let_def n [symmetric] echo tc
    using tcp by (auto simp: q(5) f(2-5) bit_reply_tc_aa reply_flags_fields code answer_bytes_Nil_iff
        q(2,3))
qed

theorem dns_answer_policy_witness:
  "bit (be16 (demo_reply ! 2) (demo_reply ! 3)) 10 \<longleftrightarrow> under_tld [[120], [68, 105, 71]] ''dig''"
  using dns_answer_policy [OF demo_wf demo_respond] by (simp only: Let_def)

text \<open>C16. A message with a full header whose question cannot be read is answered with FORMERR, no
  authority and no answer. That reply is 10 bytes long: the code writes six zero bytes for the four
  16-bit counts, so the reply is two bytes short of a DNS header and a client that checks the header,
  as the crate's own \<open>parse_first_a_ipv4\<close> does, discards it.\<close>

theorem dns_formerr:
  assumes "12 \<le> length req" "\<nexists>ls qt. wf_request req ls qt"
  shows "\<exists>r. respond req ip t ttl tr = Some r \<and> length r = 10 \<and> be16 (r ! 2) (r ! 3) AND 0xF = 1
    \<and> \<not> bit (be16 (r ! 2) (r ! 3)) 10 \<and> drop 4 r = [0, 0, 0, 0, 0, 0]
    \<and> parse_first_a_ipv4 r = None"
proof -
  have "\<nexists>q. parse_query req = Ok q"
    using assms parse_query_sound by blast
  then have "respond req ip t ttl tr = Some (build_formerr req)"
    using assms(1) by (auto simp: respond_def HEADER_LEN_def split: sum.splits)
  with formerr_fields [OF assms(1)] show ?thesis
    by (simp add: parse_first_a_short reply_flags_fields bit_reply_tc_aa)
qed

lemma truncated_question_not_wf: "\<not> wf_request (replicate 5 0 @ 1 # replicate 6 0 @ [3]) ls qt"
proof
  assume "wf_request (replicate 5 0 @ 1 # replicate 6 0 @ [3]) ls qt"
  from respond_wf [OF this] have "\<exists>q. parse_query (replicate 5 0 @ 1 # replicate 6 0 @ [3]) = Ok q"
    by blast
  moreover have "parse_query (replicate 5 0 @ 1 # replicate 6 0 @ [3]) = Err ()"
    by code_simp
  ultimately show False by simp
qed

theorem dns_formerr_witness:
  "\<exists>r. respond (replicate 5 0 @ 1 # replicate 6 0 @ [3]) (Ipv4Addr 127 0 0 5) ''dig'' 2 Udp = Some r
    \<and> length r = 10"
  using dns_formerr [of "replicate 5 0 @ 1 # replicate 6 0 @ [3]" "Ipv4Addr 127 0 0 5" "''dig''" 2 Udp]
    truncated_question_not_wf by auto

text \<open>C15. Over UDP the truncation bit is set exactly when the complete reply would exceed the
  advertised EDNS payload size (512 without EDNS). A reply without it fits; a reply with it carries no
  answer and only the header, the question and the OPT record.\<close>

theorem dns_udp_limit:
  assumes "parse_query req = Ok q" "respond req ip t ttl Udp = Some r"
  shows "(bit (be16 (r ! 2) (r ! 3)) 9 \<longleftrightarrow> udp_limit q < full_len q t)
    \<and> (\<not> bit (be16 (r ! 2) (r ! 3)) 9 \<longrightarrow> length r = full_len q t \<and> length r \<le> udp_limit q)
    \<and> (bit (be16 (r ! 2) (r ! 3)) 9 \<longrightarrow> be16 (r ! 6) (r ! 7) = 0
        \<and> length r = 12 + length (raw_question q) + (if edns_udp_size q = None then 0 else 11))"
proof -
  have q: "12 \<le> length req" "r = build q ip t ttl Udp"
    using assms by (auto simp: respond_def HEADER_LEN_def split: if_splits)
  have two: "length (q_id q) = 2"
    using parse_query_fields(1) [OF assms(1) q(1)] q(1) by simp
  have tc: "bit (be16 (r ! 2) (r ! 3)) 9 \<longleftrightarrow> truncated q t Udp"
    by (simp add: q(2) build_fields [OF two] bit_reply_tc_aa)
  show ?thesis
    unfolding tc
    by (auto simp: q(2) build_fields [OF two] answer_bytes_def truncated_def full_len_def)
qed

theorem dns_udp_limit_witness: "length demo_reply \<le> udp_limit demo_parsed"
proof -
  have "\<not> bit (be16 (demo_reply ! 2) (demo_reply ! 3)) 9"
    by code_simp
  then show ?thesis
    using dns_udp_limit [OF demo_parse demo_respond] by blast
qed

text \<open>No reply ever hands out another address: if the first \<open>A\<close> record of a reply is \<open>a\<close>, then
  \<open>a\<close> is the configured loopback address and the request asked for the address of a name under
  the TLD.\<close>

theorem dns_only_loopback_answers:
  assumes "respond req ip t ttl tr = Some r" "parse_first_a_ipv4 r = Some a"
  shows "a = ip \<and> (\<exists>ls. wf_request req ls TYPE_A \<and> under_tld ls t)"
  using assms(1)
proof (cases rule: respond_cases)
  case (reply q)
  note p = parse_query_fields [OF reply(2,1)]
  obtain qc where raw: "raw_question q = wire_name (labels q) @ to_be16 (qtype q) @ to_be16 qc"
    using p(4) by blast
  have two: "length (q_id q) = 2" using p(1) reply(1) by simp
  from assms(2) have "answer_bytes q ip t ttl tr \<noteq> []" "a = ip"
    unfolding reply(3) parse_first_a_build [OF two parsed_labels_ok [OF reply(2,1)] raw]
    by (auto split: if_splits)
  with parse_query_sound [OF reply(2,1)] show ?thesis
    by (auto simp: answer_bytes_Nil_iff)
next
  case formerr
  with assms(2) show ?thesis
    by (simp add: parse_first_a_short formerr_fields)
qed

theorem dns_only_loopback_answers_witness:
  "\<exists>ls. wf_request demo_query ls TYPE_A \<and> under_tld ls ''dig''"
  using dns_only_loopback_answers [OF demo_respond demo_first_a] by blast

text \<open>The reply to the query the probe builds.\<close>

lemma probe_answered:
  assumes "tr = Udp \<Longrightarrow> length (build_a_query name) + 16 \<le> 512"
  shows "Option.bind (respond (build_a_query name) ip t ttl tr) parse_first_a_ipv4
    = (if under_tld (probe_labels name) t then Some ip else None)"
proof -
  have hdr: "length ([0, 0] @ to_be16 0x0100 @ to_be16 1 @ [0, 0, 0, 0, 0, 0]) = 12"
    "be16 (([0, 0] @ to_be16 0x0100 @ to_be16 1 @ [0, 0, 0, 0, 0, 0]) ! 4)
       (([0, 0] @ to_be16 0x0100 @ to_be16 1 @ [0, 0, 0, 0, 0, 0]) ! 5) \<noteq> 0"
    by (simp_all add: to_be16_def be16_def)
  from parse_query_wf [OF hdr probe_labels_ok build_a_query_eq]
  obtain e where q0: "parse_query (build_a_query name) = Ok
      \<lparr>q_id = take 2 (build_a_query name),
       opcode = flags_opcode (be16 (build_a_query name ! 2) (build_a_query name ! 3)),
       rd = flags_rd (be16 (build_a_query name ! 2) (build_a_query name ! 3)),
       labels = probe_labels name, qtype = TYPE_A,
       raw_question = wire_name (probe_labels name) @ to_be16 TYPE_A @ to_be16 1,
       edns_udp_size = e\<rparr>" (is "_ = Ok ?q")
    by blast
  have len: "length (build_a_query name) = 16 + length (wire_name (probe_labels name))"
    by (simp add: build_a_query_eq)
  have "be16 (build_a_query name ! 10) (build_a_query name ! 11) = 0"
    by (simp add: build_a_query_eq to_be16_def be16_def)
  then have e: "e = None"
    using q0 by (auto simp: parse_query_def Let_def rbind_Ok_iff split: if_splits)
  have tc: "\<not> truncated ?q t tr"
    using assms len by (cases tr) (auto simp: truncated_def udp_limit_def full_len_def e)
  have "respond (build_a_query name) ip t ttl tr = Some (build ?q ip t ttl tr)"
    using q0 len by (simp add: respond_def HEADER_LEN_def)
  moreover have "parse_first_a_ipv4 (build ?q ip t ttl tr)
      = (if answer_bytes ?q ip t ttl tr = [] then None else Some ip)"
    by (rule parse_first_a_build) (use len probe_labels_ok in simp_all)
  ultimately show ?thesis
    using tc by (simp add: answer_bytes_Nil_iff)
qed

text \<open>C13. The probe of \<open>doctor\<close> and the responder agree: for any name, the reply to the probe's query
  yields the loopback address exactly when the last label of the name is the TLD, as long as the reply
  fits a UDP datagram of 512 bytes or travels over TCP.\<close>

theorem dns_probe_roundtrip:
  assumes "tr = Udp \<Longrightarrow> length (build_a_query name) + 16 \<le> 512"
  shows "Option.bind (respond (build_a_query name) ip t ttl tr) parse_first_a_ipv4
    = (if under_tld (probe_labels name) t then Some ip else None)"
  by (rule probe_answered [OF assms])

theorem dns_probe_roundtrip_witness:
  "Option.bind (respond (build_a_query ''x.DiG'') (Ipv4Addr 127 0 0 5) ''dig'' 2 Udp) parse_first_a_ipv4
    = (if under_tld (probe_labels ''x.DiG'') ''dig'' then Some (Ipv4Addr 127 0 0 5) else None)"
  by (rule dns_probe_roundtrip) (simp add: demo_query_eq demo_query_def)

end
