(* ===== verification/Fs.thy ===== *)
theory Fs
  imports Io "HOL-Library.AList" "HOL-Library.Sublist"
begin

unbundle bit_operations_syntax

text \<open>
  The part of \<open>std::fs\<close> the sources use, over a POSIX file system: a finite map from absolute paths to
  entries with an owner and a mode, with symbolic links resolved component by component as the kernel
  does. Every operation that changes the tree first takes one element of \<open>faults\<close>: an error there makes
  that call fail without effect, so a statement about all file systems also covers every pattern of
  failing calls (full disk, immutable file, read-only mount). The process has the rights of root, which
  every writer of the sources checks first or reports as a failed call.

  Hard links, mount points, timestamps and concurrent changes by others during an operation are not
  modelled; what others can do afterwards is the relation \<open>user_step\<close>.
\<close>

section \<open>Paths and entries\<close>

text \<open>An absolute path is the list of its components below the root, as \<open>Path::components\<close> yields them.\<close>

type_synonym path = "string list"

definition path_of :: "string \<Rightarrow> path" where
  "path_of s = filter (\<lambda>c. c \<noteq> [] \<and> c \<noteq> ''.'') (split_on CHR ''/'' s)"

definition show_path :: "path \<Rightarrow> string" where
  "show_path p = (if p = [] then ''/'' else concat (map (\<lambda>c. CHR ''/'' # c) p))"

definition is_absolute :: "string \<Rightarrow> bool" where
  "is_absolute s \<longleftrightarrow> starts_with s ''/''"

text \<open>A path relative to the working directory \<open>cwd\<close>.\<close>

definition absolute :: "path \<Rightarrow> string \<Rightarrow> path" where
  "absolute cwd s = (if is_absolute s then path_of s else cwd @ path_of s)"

text \<open>\<open>Path::parent\<close> and \<open>Path::ancestors\<close>, longest first.\<close>

definition path_parent :: "path \<Rightarrow> path option" where
  "path_parent p = (if p = [] then None else Some (butlast p))"

definition ancestors :: "path \<Rightarrow> path list" where
  "ancestors p = map (\<lambda>n. take n p) (rev [0..<Suc (length p)])"

datatype fnode = File (fdata: string) | Dir | Link (ftarget: string)

record fentry =
  fnode :: fnode
  fuid :: u32
  fgid :: u32
  fmode :: u32

record fsys =
  tree :: "(path \<times> fentry) list"
  faults :: "io_error option list"
  umask :: u32

definition lookup :: "fsys \<Rightarrow> path \<Rightarrow> fentry option" where
  "lookup w = map_of (tree w)"

definition put_entry :: "path \<Rightarrow> fentry \<Rightarrow> fsys \<Rightarrow> fsys" where
  "put_entry p e w = w\<lparr>tree := AList.update p e (tree w)\<rparr>"

definition del_entry :: "path \<Rightarrow> fsys \<Rightarrow> fsys" where
  "del_entry p w = w\<lparr>tree := AList.delete p (tree w)\<rparr>"

lemma lookup_put [simp]: "lookup (put_entry p e w) = (lookup w)(p \<mapsto> e)"
  by (simp add: lookup_def put_entry_def update_conv')

lemma lookup_del [simp]: "lookup (del_entry p w) = (lookup w)(p := None)"
  by (simp add: lookup_def del_entry_def delete_conv')

lemma lookup_faults [simp]: "lookup (w\<lparr>faults := f\<rparr>) = lookup w"
  by (simp add: lookup_def)

text \<open>\<open>st_mode\<close>: the type bits and the permissions; those of a symbolic link are always \<open>0o777\<close>.\<close>

definition st_mode :: "fentry \<Rightarrow> u32" where
  "st_mode e = (case fnode e of
       File d \<Rightarrow> 0x8000 OR (fmode e AND 0xFFF)
     | Dir \<Rightarrow> 0x4000 OR (fmode e AND 0xFFF)
     | Link s \<Rightarrow> 0xA000 OR 0x1FF)"

definition is_link :: "fentry \<Rightarrow> bool" where
  "is_link e \<longleftrightarrow> (\<exists>s. fnode e = Link s)"

lemma is_link_simps [code]: "is_link e = (case fnode e of Link s \<Rightarrow> True | _ \<Rightarrow> False)"
  by (simp add: is_link_def split: fnode.splits)

section \<open>Path resolution\<close>

definition os_error :: "error_kind \<Rightarrow> io_error" where
  "os_error k = IoError k (case k of
       KNotFound \<Rightarrow> ''No such file or directory (os error 2)''
     | KAlreadyExists \<Rightarrow> ''File exists (os error 17)''
     | KNotADirectory \<Rightarrow> ''Not a directory (os error 20)''
     | KIsADirectory \<Rightarrow> ''Is a directory (os error 21)''
     | KInvalidInput \<Rightarrow> ''Invalid argument (os error 22)''
     | KFilesystemLoop \<Rightarrow> ''Too many levels of symbolic links (os error 40)''
     | _ \<Rightarrow> [])"

lemma kind_os_error [simp]: "kind (os_error k) = k"
  by (simp add: os_error_def)

text \<open>The walk from the directory \<open>cur\<close> along the remaining components, with \<open>b\<close> links left to follow.
  \<open>fl\<close> says whether a link in the last place is followed. The result is the place of the object, which
  need not exist when only the last component is missing.\<close>

fun walk :: "nat \<Rightarrow> (path \<Rightarrow> fentry option) \<Rightarrow> bool \<Rightarrow> path \<Rightarrow> string list \<Rightarrow> io_error + path" where
  "walk b t fl cur [] = Ok cur"
| "walk b t fl cur (c # cs) =
     (if c = ''..'' then walk b t fl (butlast cur) cs
      else case t (cur @ [c]) of
        None \<Rightarrow> if cs = [] then Ok (cur @ [c]) else Err (os_error KNotFound)
      | Some e \<Rightarrow> (case fnode e of
            Dir \<Rightarrow> walk b t fl (cur @ [c]) cs
          | File d \<Rightarrow> if cs = [] then Ok (cur @ [c]) else Err (os_error KNotADirectory)
          | Link s \<Rightarrow>
              if cs = [] \<and> \<not> fl then Ok (cur @ [c])
              else (case b of
                  0 \<Rightarrow> Err (os_error KFilesystemLoop)
                | Suc b' \<Rightarrow> walk b' t fl (if is_absolute s then [] else cur) (path_of s @ cs))))"

text \<open>Linux gives up after 40 links.\<close>

definition resolve_path :: "fsys \<Rightarrow> bool \<Rightarrow> path \<Rightarrow> io_error + path" where
  "resolve_path w fl p = walk 40 (lookup w) fl [] p"

definition entry_at :: "fsys \<Rightarrow> bool \<Rightarrow> path \<Rightarrow> io_error + fentry" where
  "entry_at w fl p = rbind (resolve_path w fl p) (\<lambda>q. ok_or (os_error KNotFound) (lookup w q))"

definition symlink_metadata :: "fsys \<Rightarrow> path \<Rightarrow> io_error + fentry" where
  "symlink_metadata w p = entry_at w False p"

definition metadata :: "fsys \<Rightarrow> path \<Rightarrow> io_error + fentry" where
  "metadata w p = entry_at w True p"

definition path_exists :: "fsys \<Rightarrow> path \<Rightarrow> bool" where
  "path_exists w p \<longleftrightarrow> is_ok (metadata w p)"

definition is_file :: "fsys \<Rightarrow> path \<Rightarrow> bool" where
  "is_file w p \<longleftrightarrow> (case metadata w p of Inr e \<Rightarrow> (case fnode e of File d \<Rightarrow> True | _ \<Rightarrow> False) | _ \<Rightarrow> False)"

definition is_dir :: "fsys \<Rightarrow> path \<Rightarrow> bool" where
  "is_dir w p \<longleftrightarrow> (case metadata w p of Inr e \<Rightarrow> fnode e = Dir | _ \<Rightarrow> False)"

definition read_to_string :: "fsys \<Rightarrow> path \<Rightarrow> io_error + string" where
  "read_to_string w p = rbind (metadata w p) (\<lambda>e. case fnode e of
       File d \<Rightarrow> Ok d
     | _ \<Rightarrow> Err (os_error KIsADirectory))"

definition read_link :: "fsys \<Rightarrow> path \<Rightarrow> io_error + string" where
  "read_link w p = rbind (symlink_metadata w p) (\<lambda>e. case fnode e of
       Link s \<Rightarrow> Ok s
     | _ \<Rightarrow> Err (os_error KInvalidInput))"

text \<open>The entries of a directory by name, in the order of the map.\<close>

definition read_dir :: "fsys \<Rightarrow> path \<Rightarrow> io_error + path list" where
  "read_dir w p = rbind (resolve_path w True p) (\<lambda>q. rbind (metadata w p) (\<lambda>e.
     if fnode e = Dir
     then Ok (map (\<lambda>c. p @ [c]) (remdups [last r. (r, x) \<leftarrow> tree w, r \<noteq> [] \<and> butlast r = q]))
     else Err (os_error KNotADirectory)))"

section \<open>Operations that change the tree\<close>

definition faulty :: "(fsys \<Rightarrow> (io_error + 'a) \<times> fsys) \<Rightarrow> fsys \<Rightarrow> (io_error + 'a) \<times> fsys" where
  "faulty f w = (case faults w of
       [] \<Rightarrow> f w
     | None # fs \<Rightarrow> f (w\<lparr>faults := fs\<rparr>)
     | Some e # fs \<Rightarrow> (Err e, w\<lparr>faults := fs\<rparr>))"

definition new_entry :: "fsys \<Rightarrow> fnode \<Rightarrow> u32 \<Rightarrow> fentry" where
  "new_entry w n m = \<lparr>fnode = n, fuid = 0, fgid = 0, fmode = m AND NOT (umask w)\<rparr>"

definition create_dir :: "path \<Rightarrow> fsys \<Rightarrow> (io_error + unit) \<times> fsys" where
  "create_dir p = faulty (\<lambda>w. case resolve_path w False p of
       Inl e \<Rightarrow> (Err e, w)
     | Inr q \<Rightarrow> (case lookup w q of
           Some e \<Rightarrow> (Err (os_error KAlreadyExists), w)
         | None \<Rightarrow> (Ok (), put_entry q (new_entry w Dir 0x1FF) w)))"

text \<open>\<open>std::fs::create_dir_all\<close> on \<open>take n p\<close>.\<close>

fun create_dir_all_upto :: "path \<Rightarrow> nat \<Rightarrow> fsys \<Rightarrow> (io_error + unit) \<times> fsys" where
  "create_dir_all_upto p 0 w = (case create_dir [] w of
       (Inr u, w) \<Rightarrow> (Ok u, w)
     | (Inl e, w) \<Rightarrow> if kind e \<noteq> KNotFound \<and> is_dir w [] then (Ok (), w) else (Err e, w))"
| "create_dir_all_upto p (Suc n) w =
     (let q = take (Suc n) p in case create_dir q w of
        (Inr u, w) \<Rightarrow> (Ok u, w)
      | (Inl e, w) \<Rightarrow>
          if kind e = KNotFound then
            io_bind (create_dir_all_upto p n w) (\<lambda>_ w. case create_dir q w of
                (Inr u, w) \<Rightarrow> (Ok u, w)
              | (Inl e, w) \<Rightarrow> if is_dir w q then (Ok (), w) else (Err e, w))
          else if is_dir w q then (Ok (), w)
          else (Err e, w))"

definition create_dir_all :: "path \<Rightarrow> fsys \<Rightarrow> (io_error + unit) \<times> fsys" where
  "create_dir_all p = create_dir_all_upto p (length p)"

definition remove_file :: "path \<Rightarrow> fsys \<Rightarrow> (io_error + unit) \<times> fsys" where
  "remove_file p = faulty (\<lambda>w. case resolve_path w False p of
       Inl e \<Rightarrow> (Err e, w)
     | Inr q \<Rightarrow> (case lookup w q of
           None \<Rightarrow> (Err (os_error KNotFound), w)
         | Some e \<Rightarrow> if fnode e = Dir then (Err (os_error KIsADirectory), w)
                     else (Ok (), del_entry q w)))"

text \<open>\<open>rename\<close> of a file; the sources rename nothing else.\<close>

definition rename_file :: "path \<Rightarrow> path \<Rightarrow> fsys \<Rightarrow> (io_error + unit) \<times> fsys" where
  "rename_file src dst = faulty (\<lambda>w. case resolve_path w False src of
       Inl e \<Rightarrow> (Err e, w)
     | Inr p \<Rightarrow> (case lookup w p of
           None \<Rightarrow> (Err (os_error KNotFound), w)
         | Some e \<Rightarrow> (case resolve_path w False dst of
               Inl e \<Rightarrow> (Err e, w)
             | Inr q \<Rightarrow>
                 (case lookup w q of
                    Some d \<Rightarrow> if fnode d = Dir then (Err (os_error KIsADirectory), w)
                              else if q = p then (Ok (), w)
                              else (Ok (), put_entry q e (del_entry p w))
                  | None \<Rightarrow> (Ok (), put_entry q e (del_entry p w))))))"

text \<open>\<open>OpenOptions\<close> with \<open>create_new(true)\<close>: \<open>O_CREAT|O_EXCL\<close>, which never follows a link. The handle is
  the place of the new file.\<close>

definition open_create_new :: "path \<Rightarrow> u32 \<Rightarrow> fsys \<Rightarrow> (io_error + path) \<times> fsys" where
  "open_create_new p m = faulty (\<lambda>w. case resolve_path w False p of
       Inl e \<Rightarrow> (Err e, w)
     | Inr q \<Rightarrow> (case lookup w q of
           Some e \<Rightarrow> (Err (os_error KAlreadyExists), w)
         | None \<Rightarrow> (Ok q, put_entry q (new_entry w (File []) m) w)))"

definition write_all :: "path \<Rightarrow> string \<Rightarrow> fsys \<Rightarrow> (io_error + unit) \<times> fsys" where
  "write_all q d = faulty (\<lambda>w. case lookup w q of
       Some e \<Rightarrow> (Ok (), put_entry q (e\<lparr>fnode := File d\<rparr>) w)
     | None \<Rightarrow> (Ok (), w))"

definition sync_all :: "path \<Rightarrow> fsys \<Rightarrow> (io_error + unit) \<times> fsys" where
  "sync_all q = faulty (\<lambda>w. (Ok (), w))"

text \<open>Opening for writing with \<open>O_CREAT|O_TRUNC\<close>, following links, so that the place holds no link.\<close>

definition open_truncate :: "path \<Rightarrow> u32 \<Rightarrow> fsys \<Rightarrow> (io_error + path) \<times> fsys" where
  "open_truncate p m = faulty (\<lambda>w. case resolve_path w True p of
       Inl e \<Rightarrow> (Err e, w)
     | Inr q \<Rightarrow> (case lookup w q of
           None \<Rightarrow> (Ok q, put_entry q (new_entry w (File []) m) w)
         | Some e \<Rightarrow> (case fnode e of
               Dir \<Rightarrow> (Err (os_error KIsADirectory), w)
             | Link s \<Rightarrow> (Err (os_error KFilesystemLoop), w)
             | File d \<Rightarrow> (Ok q, put_entry q (e\<lparr>fnode := File []\<rparr>) w))))"

definition write_file :: "path \<Rightarrow> string \<Rightarrow> fsys \<Rightarrow> (io_error + unit) \<times> fsys" where
  "write_file p d w = io_bind (open_truncate p 0x1B6 w) (\<lambda>q w. write_all q d w)"

definition chown :: "path \<Rightarrow> u32 \<Rightarrow> u32 \<Rightarrow> fsys \<Rightarrow> (io_error + unit) \<times> fsys" where
  "chown p u g = faulty (\<lambda>w. case resolve_path w True p of
       Inl e \<Rightarrow> (Err e, w)
     | Inr q \<Rightarrow> (case lookup w q of
           None \<Rightarrow> (Err (os_error KNotFound), w)
         | Some e \<Rightarrow> (Ok (), put_entry q (e\<lparr>fuid := u, fgid := g\<rparr>) w)))"

definition set_permissions :: "path \<Rightarrow> u32 \<Rightarrow> fsys \<Rightarrow> (io_error + unit) \<times> fsys" where
  "set_permissions p m = faulty (\<lambda>w. case resolve_path w True p of
       Inl e \<Rightarrow> (Err e, w)
     | Inr q \<Rightarrow> (case lookup w q of
           None \<Rightarrow> (Err (os_error KNotFound), w)
         | Some e \<Rightarrow> (Ok (), put_entry q (e\<lparr>fmode := m AND 0xFFF\<rparr>) w)))"

text \<open>\<open>std::fs::copy\<close>: open the source, truncate or create the destination with the source's mode, then
  copy the bytes. A file copied onto itself is emptied.\<close>

definition copy :: "path \<Rightarrow> path \<Rightarrow> fsys \<Rightarrow> (io_error + unit) \<times> fsys" where
  "copy src dst w = (case metadata w src of
       Inl e \<Rightarrow> (Err e, w)
     | Inr s \<Rightarrow> (case fnode s of
           File d \<Rightarrow>
             io_bind (open_truncate dst (fmode s) w) (\<lambda>q w.
             io_bind (set_permissions dst (fmode s) w) (\<lambda>_ w.
             write_all q (if resolve_path w True src = Ok q then [] else d) w))
         | _ \<Rightarrow> (Err (os_error KInvalidInput), w)))"

section \<open>Paths without links on the way\<close>

definition is_dir_at :: "(path \<Rightarrow> fentry option) \<Rightarrow> path \<Rightarrow> bool" where
  "is_dir_at t p \<longleftrightarrow> (case t p of Some e \<Rightarrow> fnode e = Dir | None \<Rightarrow> False)"

definition is_link_at :: "(path \<Rightarrow> fentry option) \<Rightarrow> path \<Rightarrow> bool" where
  "is_link_at t p \<longleftrightarrow> (case t p of Some e \<Rightarrow> is_link e | None \<Rightarrow> False)"

definition real_path :: "(path \<Rightarrow> fentry option) \<Rightarrow> path \<Rightarrow> bool" where
  "real_path t p \<longleftrightarrow> ''..'' \<notin> set p \<and> list_all (\<lambda>n. is_dir_at t (take n p)) [0..<length p]"

lemma is_dir_at_Some: "is_dir_at t p \<longleftrightarrow> (\<exists>e. t p = Some e \<and> fnode e = Dir)"
  by (auto simp: is_dir_at_def split: option.splits)

lemma is_link_at_Some: "is_link_at t p \<longleftrightarrow> (\<exists>e s. t p = Some e \<and> fnode e = Link s)"
  by (auto simp: is_link_at_def is_link_def split: option.splits)

lemma real_path_iff:
  "real_path t p \<longleftrightarrow> ''..'' \<notin> set p \<and> (\<forall>n<length p. is_dir_at t (take n p))"
  by (auto simp: real_path_def list_all_iff)

lemma walk_real:
  assumes "''..'' \<notin> set cs" "\<And>n. 0 < n \<Longrightarrow> n < length cs \<Longrightarrow> is_dir_at t (cur @ take n cs)"
    and "fl \<Longrightarrow> cs \<noteq> [] \<Longrightarrow> \<not> is_link_at t (cur @ cs)"
  shows "walk b t fl cur cs = Ok (cur @ cs)"
  using assms
proof (induction cs arbitrary: cur)
  case (Cons c cs)
  show ?case
  proof (cases "cs = []")
    case True
    with Cons.prems show ?thesis
      by (auto simp: is_link_at_Some split: option.splits fnode.splits)
  next
    case False
    then obtain e where e: "t (cur @ [c]) = Some e" "fnode e = Dir"
      using Cons.prems(2) [of 1] by (cases cs) (auto simp: is_dir_at_Some)
    have "walk b t fl (cur @ [c]) cs = Ok ((cur @ [c]) @ cs)"
    proof (rule Cons.IH)
      fix n assume "0 < n" "n < length cs"
      then show "is_dir_at t ((cur @ [c]) @ take n cs)"
        using Cons.prems(2) [of "Suc n"] by simp
    qed (use Cons.prems in auto)
    with e Cons.prems(1) show ?thesis by auto
  qed
qed simp

lemma resolve_real:
  assumes "real_path (lookup w) p" "fl \<Longrightarrow> p \<noteq> [] \<Longrightarrow> \<not> is_link_at (lookup w) p"
  shows "resolve_path w fl p = Ok p"
proof -
  have "walk 40 (lookup w) fl [] p = Ok ([] @ p)"
    by (rule walk_real) (use assms in \<open>auto simp: real_path_iff\<close>)
  then show ?thesis by (simp add: resolve_path_def)
qed

lemma real_path_cong:
  assumes "\<And>n. n < length p \<Longrightarrow> t' (take n p) = t (take n p)"
  shows "real_path t' p = real_path t p"
  using assms by (auto simp: real_path_iff is_dir_at_def)

lemma real_path_take: "real_path t p \<Longrightarrow> real_path t (take n p)"
  by (auto simp: real_path_iff min_def dest: in_set_takeD)

lemma real_path_butlast: "real_path t p \<Longrightarrow> real_path t (butlast p)"
  by (simp add: butlast_conv_take real_path_take)

text \<open>A change at or below a path that is no directory on the way keeps the way.\<close>

lemma real_path_upd_Dir:
  "real_path t p \<Longrightarrow> fnode e = Dir \<Longrightarrow> real_path (t(q \<mapsto> e)) p"
  by (auto simp: real_path_iff is_dir_at_Some)

lemma real_path_upd:
  assumes "real_path t p" "\<not> is_dir_at t q"
  shows "real_path (t(q := x)) p"
  using assms by (auto simp: real_path_iff is_dir_at_def)

lemma real_path_upd_self:
  assumes "real_path t p"
  shows "real_path (t(p := x)) p"
  using assms by (auto simp: real_path_iff is_dir_at_def dest: arg_cong [where f = length])

lemma symlink_metadata_real:
  "real_path (lookup w) p \<Longrightarrow> symlink_metadata w p = ok_or (os_error KNotFound) (lookup w p)"
  by (simp add: symlink_metadata_def entry_at_def resolve_real)

lemma metadata_real:
  assumes "real_path (lookup w) p" "\<not> is_link_at (lookup w) p"
  shows "metadata w p = ok_or (os_error KNotFound) (lookup w p)"
  by (simp add: metadata_def entry_at_def resolve_real assms)

section \<open>What a successful operation did\<close>

lemma faulty_Ok: "faulty f w = (Ok a, w') \<Longrightarrow> \<exists>fs. f (w\<lparr>faults := fs\<rparr>) = (Ok a, w')"
proof -
  have w: "w\<lparr>faults := faults w\<rparr> = w" by simp
  show "faulty f w = (Ok a, w') \<Longrightarrow> \<exists>fs. f (w\<lparr>faults := fs\<rparr>) = (Ok a, w')"
    by (auto simp: faulty_def split: list.splits option.splits) (metis w)
qed

lemma faulty_cases:
  assumes "faulty f w = (r, w')"
  shows "(\<exists>e. r = Err e \<and> lookup w' = lookup w \<and> umask w' = umask w) \<or> (\<exists>fs. f (w\<lparr>faults := fs\<rparr>) = (r, w'))"
proof (cases "faults w")
  case Nil
  then have "w\<lparr>faults := []\<rparr> = w" by simp
  moreover have "f w = (r, w')" using Nil assms by (simp add: faulty_def)
  ultimately show ?thesis by metis
next
  case (Cons x fs)
  with assms show ?thesis by (cases x) (auto simp: faulty_def)
qed

lemma resolve_path_faults [simp]: "resolve_path (w\<lparr>faults := fs\<rparr>) fl p = resolve_path w fl p"
  by (simp add: resolve_path_def)

lemma umask_simps [simp]: "umask (put_entry p e w) = umask w" "umask (del_entry p w) = umask w"
  by (simp_all add: put_entry_def del_entry_def)

lemma new_entry_sel [simp]: "fnode (new_entry w n m) = n" "fuid (new_entry w n m) = 0"
  "fgid (new_entry w n m) = 0" "fmode (new_entry w n m) = m AND NOT (umask w)"
  by (simp_all add: new_entry_def)

lemma create_dir_Ok:
  assumes "create_dir p w = (Ok u, w')" "real_path (lookup w) p"
  shows "lookup w p = None \<and> (\<exists>e. fnode e = Dir \<and> fuid e = 0 \<and> lookup w' = (lookup w)(p \<mapsto> e))"
  using assms(1) resolve_real [of w p False] assms(2)
  by (auto simp: create_dir_def dest!: faulty_Ok split: option.splits intro!: exI [of _ "new_entry w Dir 0x1FF"]
      simp: new_entry_def)

lemma remove_file_Ok:
  assumes "remove_file p w = (Ok u, w')" "real_path (lookup w) p"
  shows "\<exists>e. lookup w p = Some e \<and> fnode e \<noteq> Dir \<and> lookup w' = (lookup w)(p := None)"
  using assms(1) resolve_real [of w p False] assms(2)
  by (auto simp: remove_file_def dest!: faulty_Ok split: option.splits if_splits)

lemma remove_file_cases:
  assumes "remove_file p w = (r, w')" "real_path (lookup w) p"
  shows "lookup w' = lookup w
    \<or> (r = Ok () \<and> lookup w p \<noteq> None \<and> \<not> is_dir_at (lookup w) p \<and> lookup w' = (lookup w)(p := None))"
  using faulty_cases [OF assms(1) [unfolded remove_file_def]] resolve_real [of w p False] assms(2)
  by (auto simp: is_dir_at_Some split: option.splits if_splits)

lemma chown_Ok:
  assumes "chown p u g w = (Ok x, w')" "real_path (lookup w) p" "\<not> is_link_at (lookup w) p"
  shows "\<exists>e. lookup w p = Some e \<and> lookup w' = (lookup w)(p \<mapsto> e\<lparr>fuid := u, fgid := g\<rparr>)"
  using assms(1) resolve_real [of w p True] assms(2,3)
  by (auto simp: chown_def dest!: faulty_Ok split: option.splits)

lemma set_permissions_Ok:
  assumes "set_permissions p m w = (Ok x, w')" "real_path (lookup w) p" "\<not> is_link_at (lookup w) p"
  shows "\<exists>e. lookup w p = Some e \<and> lookup w' = (lookup w)(p \<mapsto> e\<lparr>fmode := m AND 0xFFF\<rparr>)"
  using assms(1) resolve_real [of w p True] assms(2,3)
  by (auto simp: set_permissions_def dest!: faulty_Ok split: option.splits)

section \<open>Writing through links\<close>

definition plain_at :: "(path \<Rightarrow> fentry option) \<Rightarrow> path \<Rightarrow> bool" where
  "plain_at t p \<longleftrightarrow> (case t p of None \<Rightarrow> True | Some e \<Rightarrow> (case fnode e of File d \<Rightarrow> True | _ \<Rightarrow> False))"

text \<open>The place a walk ends in is not on the way when it holds no directory and no link, so writing
  there keeps the walk.\<close>

lemma walk_put_file:
  assumes "walk b t fl cur cs = Ok q" "plain_at t q" "fnode e = File d" "cs \<noteq> []"
  shows "walk b (t(q \<mapsto> e)) fl cur cs = Ok q"
  using assms
proof (induction b t fl cur cs rule: walk.induct)
  case (2 b t fl cur c cs)
  show ?case
  proof (cases "c = ''..''")
    case True
    with 2 show ?thesis by (cases cs) auto
  next
    case False
    show ?thesis
    proof (cases "t (cur @ [c])")
      case None
      with 2 False show ?thesis by (auto split: if_splits)
    next
      case (Some x)
      show ?thesis
      proof (cases "fnode x")
        case (File f)
        with 2 False Some show ?thesis by (auto split: if_splits)
      next
        case Dir
        show ?thesis
        proof (cases cs)
          case Nil
          with 2(4-) False Some Dir show ?thesis by (auto simp: plain_at_def)
        next
          case (Cons d ds)
          have "q \<noteq> cur @ [c]"
            using 2(5) Some Dir by (auto simp: plain_at_def)
          with 2(2) [OF False Some Dir] 2(4-) False Some Dir Cons show ?thesis by simp
        qed
      next
        case (Link s)
        show ?thesis
        proof (cases "cs = [] \<and> \<not> fl")
          case True
          with 2(4-) False Some Link show ?thesis by (auto simp: plain_at_def)
        next
          case follow: False
          have q: "q \<noteq> cur @ [c]"
            using 2(5) Some Link by (auto simp: plain_at_def)
          show ?thesis
          proof (cases b)
            case 0
            with 2(4) False Some Link follow show ?thesis by simp
          next
            case (Suc b')
            have step: "walk b t' fl cur (c # cs)
                = walk b' t' fl (if is_absolute s then [] else cur) (path_of s @ cs)"
              if "t' (cur @ [c]) = Some x" for t'
              using that False Link follow Suc by (cases cs; cases fl) auto
            have "walk b' (t(q \<mapsto> e)) fl (if is_absolute s then [] else cur) (path_of s @ cs) = Ok q"
            proof (cases "path_of s @ cs = []")
              case True
              with 2(4) step [of t, OF Some] show ?thesis by simp
            next
              case nonempty: False
              show ?thesis
                by (rule 2(3) [OF False Some Link follow Suc])
                   (use 2(4-) step [of t, OF Some] nonempty in simp_all)
            qed
            then show ?thesis
              using q Some by (subst step) simp_all
          qed
        qed
      qed
    qed
  qed
qed simp

lemma resolve_put_file:
  assumes "resolve_path w fl p = Ok q" "plain_at (lookup w) q" "p \<noteq> []" "fnode e = File d"
    and "lookup w' = (lookup w)(q \<mapsto> e)"
  shows "resolve_path w' fl p = Ok q"
  using walk_put_file [OF assms(1) [unfolded resolve_path_def] assms(2,4,3)] assms(5)
  by (simp add: resolve_path_def)

lemma open_truncate_Ok:
  assumes "open_truncate p m w = (Ok q, w')"
  shows "resolve_path w True p = Ok q \<and> plain_at (lookup w) q
    \<and> (\<exists>e. fnode e = File [] \<and> lookup w' = (lookup w)(q \<mapsto> e)
        \<and> (lookup w q = None \<and> fuid e = 0
           \<or> (\<exists>e0 d. lookup w q = Some e0 \<and> fnode e0 = File d \<and> e = e0\<lparr>fnode := File []\<rparr>)))"
  using assms
  by (auto simp: open_truncate_def plain_at_def dest!: faulty_Ok split: sum.splits option.splits fnode.splits)
     (metis new_entry_sel(1,2))

lemma write_all_Ok:
  assumes "write_all q d w = (Ok u, w')" "lookup w q = Some e"
  shows "lookup w' = (lookup w)(q \<mapsto> e\<lparr>fnode := File d\<rparr>)"
  using assms by (auto simp: write_all_def dest!: faulty_Ok)

lemma write_file_read:
  assumes "write_file p d w = (Ok u, w')" "p \<noteq> []"
  shows "read_to_string w' p = Ok d"
proof -
  from assms(1) obtain q w1 where o: "open_truncate p 0x1B6 w = (Ok q, w1)"
    and a: "write_all q d w1 = (Ok u, w')"
    by (auto simp: write_file_def io_bind_Ok_iff)
  from open_truncate_Ok [OF o] obtain e where q: "resolve_path w True p = Ok q" "plain_at (lookup w) q"
    and e: "fnode e = File []" "lookup w1 = (lookup w)(q \<mapsto> e)" by blast
  have w': "lookup w' = (lookup w1)(q \<mapsto> e\<lparr>fnode := File d\<rparr>)"
    by (rule write_all_Ok [OF a]) (simp add: e)
  have "resolve_path w' True p = Ok q"
    by (rule resolve_put_file [OF q assms(2), of "e\<lparr>fnode := File d\<rparr>" d]) (simp_all add: w' e)
  then show ?thesis
    by (simp add: read_to_string_def metadata_def entry_at_def w')
qed

section \<open>Paths without links, whose directories may be missing\<close>

definition linkfree :: "(path \<Rightarrow> fentry option) \<Rightarrow> path \<Rightarrow> bool" where
  "linkfree t p \<longleftrightarrow> ''..'' \<notin> set p \<and> is_dir_at t [] \<and> list_all (\<lambda>n. \<not> is_link_at t (take n p)) [0..<length p]"

lemma linkfree_iff:
  "linkfree t p \<longleftrightarrow> ''..'' \<notin> set p \<and> is_dir_at t [] \<and> (\<forall>n<length p. \<not> is_link_at t (take n p))"
  by (auto simp: linkfree_def list_all_iff)

lemma linkfree_take: "linkfree t p \<Longrightarrow> linkfree t (take n p)"
  by (auto simp: linkfree_iff min_def dest: in_set_takeD)

lemma linkfree_butlast: "linkfree t p \<Longrightarrow> linkfree t (butlast p)"
  by (simp add: butlast_conv_take linkfree_take)

lemma walk_linkfree:
  assumes "walk b t fl cur cs = Ok q" "''..'' \<notin> set cs"
    and "\<And>n. 0 < n \<Longrightarrow> n < length cs \<Longrightarrow> \<not> is_link_at t (cur @ take n cs)"
    and "fl \<Longrightarrow> cs \<noteq> [] \<Longrightarrow> \<not> is_link_at t (cur @ cs)"
  shows "q = cur @ cs \<and> (\<forall>n. 0 < n \<longrightarrow> n < length cs \<longrightarrow> is_dir_at t (cur @ take n cs))"
  using assms
proof (induction cs arbitrary: cur)
  case (Cons c cs)
  show ?case
  proof (cases "cs = []")
    case True
    with Cons.prems show ?thesis
      by (cases fl) (auto simp: is_link_at_Some split: option.splits fnode.splits)
  next
    case False
    have nl: "\<not> is_link_at t (cur @ [c])"
      using Cons.prems(3) [of 1] False by (cases cs) auto
    with Cons.prems(1,2) False obtain e where e: "t (cur @ [c]) = Some e" "fnode e = Dir"
      and w: "walk b t fl (cur @ [c]) cs = Ok q"
      by (auto simp: is_link_at_Some split: option.splits fnode.splits)
    have "q = (cur @ [c]) @ cs \<and> (\<forall>n. 0 < n \<longrightarrow> n < length cs \<longrightarrow> is_dir_at t ((cur @ [c]) @ take n cs))"
    proof (rule Cons.IH [OF w])
      fix n assume "0 < n" "n < length cs"
      then show "\<not> is_link_at t ((cur @ [c]) @ take n cs)"
        using Cons.prems(3) [of "Suc n"] by simp
    qed (use Cons.prems in auto)
    moreover have "is_dir_at t (cur @ take n (c # cs))"
      if "0 < n" "n < Suc (length cs)" "\<forall>n. 0 < n \<longrightarrow> n < length cs \<longrightarrow> is_dir_at t ((cur @ [c]) @ take n cs)" for n
      using that e by (cases n; cases "n - 1") (auto simp: is_dir_at_Some)
    ultimately show ?thesis by simp
  qed
qed simp

lemma resolve_linkfree:
  assumes "resolve_path w fl p = Ok q" "linkfree (lookup w) p"
    and "fl \<Longrightarrow> p \<noteq> [] \<Longrightarrow> \<not> is_link_at (lookup w) p"
  shows "q = p \<and> real_path (lookup w) p"
proof -
  have "q = [] @ p \<and> (\<forall>n. 0 < n \<longrightarrow> n < length p \<longrightarrow> is_dir_at (lookup w) ([] @ take n p))"
    by (rule walk_linkfree [OF assms(1) [unfolded resolve_path_def]])
       (use assms(2,3) in \<open>auto simp: linkfree_iff\<close>)
  moreover have "is_dir_at (lookup w) (take 0 p)"
    using assms(2) by (simp add: linkfree_iff)
  ultimately have "q = p" and "n < length p \<Longrightarrow> is_dir_at (lookup w) (take n p)" for n
    by (simp, cases "n = 0", simp_all)
  then show ?thesis
    using assms(2) by (simp add: real_path_iff linkfree_iff)
qed

lemma create_dir_linkfree:
  assumes "create_dir p w = (Ok u, w')" "linkfree (lookup w) p"
  shows "real_path (lookup w) p"
  using assms(1) resolve_linkfree [of w False p] assms(2)
  by (auto simp: create_dir_def dest!: faulty_Ok split: sum.splits)

lemma create_dir_Err:
  assumes "create_dir p w = (Err e, w')"
  shows "lookup w' = lookup w"
  using faulty_cases [OF assms [unfolded create_dir_def]]
proof (elim disjE exE conjE)
  fix fs
  assume f: "(\<lambda>w. case resolve_path w False p of
      Inl e \<Rightarrow> (Err e, w)
    | Inr q \<Rightarrow> (case lookup w q of
          Some e \<Rightarrow> (Err (os_error KAlreadyExists), w)
        | None \<Rightarrow> (Ok (), put_entry q (new_entry w Dir 0x1FF) w))) (w\<lparr>faults := fs\<rparr>) = (Err e, w')"
  show ?thesis
  proof (cases "resolve_path w False p")
    case (Inr q)
    with f show ?thesis by (cases "lookup w q") auto
  qed (use f in auto)
qed

text \<open>What \<open>create_dir_all\<close> changes: it adds missing directories on the way, and when it succeeds they are
  all there.\<close>

definition dirs_added :: "path \<Rightarrow> (path \<Rightarrow> fentry option) \<Rightarrow> (path \<Rightarrow> fentry option) \<Rightarrow> bool" where
  "dirs_added p t t' \<longleftrightarrow> (\<forall>q. t' q = t q
     \<or> (t q = None \<and> prefix q p \<and> (\<exists>e. t' q = Some e \<and> fnode e = Dir \<and> fuid e = 0)))"

lemma dirs_added_refl [simp]: "dirs_added p t t"
  by (simp add: dirs_added_def)

lemma dirs_added_trans: "dirs_added p t t1 \<Longrightarrow> dirs_added p t1 t2 \<Longrightarrow> dirs_added p t t2"
  unfolding dirs_added_def by (metis option.distinct(1))

lemma dirs_added_put:
  "t q = None \<Longrightarrow> prefix q p \<Longrightarrow> fnode e = Dir \<Longrightarrow> fuid e = 0 \<Longrightarrow> dirs_added p t (t(q \<mapsto> e))"
  by (auto simp: dirs_added_def)

lemma dirs_added_link: "dirs_added p t t' \<Longrightarrow> is_link_at t' q = is_link_at t q"
  unfolding dirs_added_def is_link_at_Some by (metis fnode.distinct(5) option.inject option.distinct(1))

lemma dirs_added_dir: "dirs_added p t t' \<Longrightarrow> is_dir_at t q \<Longrightarrow> is_dir_at t' q"
  unfolding dirs_added_def is_dir_at_Some by (metis option.distinct(1))

lemma dirs_added_linkfree: "dirs_added p t t' \<Longrightarrow> linkfree t q \<Longrightarrow> linkfree t' q"
  by (auto simp: linkfree_iff dirs_added_link dirs_added_dir)

lemma create_dir_all_upto_spec:
  assumes "create_dir_all_upto p n w = (r, w')" "linkfree (lookup w) p" "\<not> is_link_at (lookup w) p"
  shows "dirs_added p (lookup w) (lookup w')
    \<and> (is_ok r \<longrightarrow> (\<forall>k\<le>n. is_dir_at (lookup w') (take k p)))"
  using assms
proof (induction p n w arbitrary: r w' rule: create_dir_all_upto.induct)
  case (1 p w)
  obtain r1 w1 where c: "create_dir [] w = (r1, w1)" by fastforce
  have lf: "linkfree (lookup w) []" using 1 linkfree_take [of "lookup w" p 0] by simp
  have "lookup w [] \<noteq> None" using lf by (auto simp: linkfree_iff is_dir_at_Some)
  moreover have "real_path (lookup w) []" by (simp add: real_path_iff)
  ultimately have w1: "lookup w1 = lookup w"
    using create_dir_Ok [of "[]" w "()" w1] create_dir_Err [of "[]" w _ w1] c by (cases r1) auto
  have "w' = w1"
    using 1(1) c by (auto split: sum.splits if_splits)
  with w1 lf show ?case by (simp add: linkfree_iff)
next
  case (2 p n w)
  define q where "q = take (Suc n) p"
  have lf: "linkfree (lookup w) q" and nl: "\<not> is_link_at (lookup w) q"
    using 2(3,4) linkfree_take [of "lookup w" p "Suc n"]
    by (auto simp: q_def linkfree_iff) (metis not_le take_all)
  have pre: "prefix q p" by (simp add: q_def take_is_prefix)
  have dirs: "\<forall>k\<le>Suc n. is_dir_at t (take k p)" if "real_path t q" "is_dir_at t q" for t
  proof (intro allI impI)
    fix k assume "k \<le> Suc n"
    then show "is_dir_at t (take k p)"
      using that by (cases "k < length q") (auto simp: real_path_iff q_def min_def split: if_splits)
  qed
  have is_dir: "real_path (lookup v) q \<and> is_dir_at (lookup v) q"
    if "is_dir v q" "linkfree (lookup v) q" "\<not> is_link_at (lookup v) q" for v
    using that resolve_linkfree [of v True q]
    by (auto simp: is_dir_def metadata_def entry_at_def rbind_Ok_iff is_dir_at_Some split: sum.splits)
  obtain r1 w1 where c: "create_dir q w = (r1, w1)" by fastforce
  have created: "dirs_added p (lookup v) (lookup v')
      \<and> (is_ok s \<longrightarrow> real_path (lookup v') q \<and> is_dir_at (lookup v') q)
      \<and> (\<not> is_ok s \<longrightarrow> lookup v' = lookup v)"
    if "create_dir q v = (s, v')" "linkfree (lookup v) q" for s v v'
proof (cases s)
    case (Inl e)
    with create_dir_Err [of q v e v'] that(1) show ?thesis by simp
  next
    case (Inr u)
    with that have "real_path (lookup v) q" by (simp add: create_dir_linkfree)
    with create_dir_Ok [of q v u v'] that Inr obtain e where "lookup v q = None" "fnode e = Dir"
      "fuid e = 0" "lookup v' = (lookup v)(q \<mapsto> e)" by auto
    with Inr pre \<open>real_path (lookup v) q\<close> dirs_added_put [of "lookup v" q p e] show ?thesis
      by (simp add: real_path_upd_Dir is_dir_at_Some)
  qed
  show ?case
  proof (cases r1)
    case (Inr u)
    with 2(2) c have "r = Ok u" "w' = w1" by (auto simp: q_def)
    with created [OF c lf] dirs Inr show ?thesis by simp
  next
    case (Inl e)
    with created [OF c lf] have w1: "lookup w1 = lookup w" by simp
    show ?thesis
    proof (cases "kind e = KNotFound")
      case False
      with 2(2) c Inl have "w' = w1" "is_ok r \<longrightarrow> is_dir w1 q"
        by (auto simp: q_def split: if_splits)
      with w1 dirs is_dir [of w1] lf nl show ?thesis by auto
    next
      case True
      obtain r2 w2 where a: "create_dir_all_upto p n w1 = (r2, w2)" by fastforce
      have IH: "dirs_added p (lookup w) (lookup w2)"
        using 2(1) [OF refl c [symmetric, unfolded q_def] Inl True a] 2(3,4) w1 by simp
      show ?thesis
      proof (cases r2)
        case (Inl e2)
        with 2(2) c \<open>r1 = Inl e\<close> True a have "w' = w2" "r = Err e2" by (auto simp: q_def)
        with IH show ?thesis by simp
      next
        case (Inr u2)
        obtain r3 w3 where c3: "create_dir q w2 = (r3, w3)" by fastforce
        have lf2: "linkfree (lookup w2) q" and nl2: "\<not> is_link_at (lookup w2) q"
          using dirs_added_linkfree [OF IH lf] dirs_added_link [OF IH, of q] nl by auto
        note c3' = created [OF c3 lf2]
        from 2(2) c \<open>r1 = Inl e\<close> True a Inr c3 have w': "w' = w3"
          "is_ok r \<longrightarrow> is_ok r3 \<or> is_dir w3 q"
          by (cases r3; auto simp: q_def split: if_splits)+
        show ?thesis
        proof (cases "is_ok r3")
          case True
          with c3' dirs w' dirs_added_trans [OF IH] show ?thesis by simp
        next
          case False
          with c3' have "lookup w3 = lookup w2" by simp
          with w' False IH dirs is_dir [of w3] lf2 nl2 show ?thesis by auto
        qed
      qed
    qed
  qed
qed

lemma create_dir_all_spec:
  assumes "create_dir_all p w = (r, w')" "linkfree (lookup w) p" "\<not> is_link_at (lookup w) p"
  shows "dirs_added p (lookup w) (lookup w')"
    and "is_ok r \<Longrightarrow> real_path (lookup w') p \<and> is_dir_at (lookup w') p"
  using create_dir_all_upto_spec [OF assms(1) [unfolded create_dir_all_def] assms(2,3)] assms(2)
  by (auto simp: real_path_iff linkfree_iff)

section \<open>Failing calls change nothing\<close>

lemma faulty_Err:
  "faulty f w = (Err e, w') \<Longrightarrow> lookup w' = lookup w \<or> (\<exists>fs. f (w\<lparr>faults := fs\<rparr>) = (Err e, w'))"
  using faulty_cases [of f w "Err e" w'] by blast

lemma open_create_new_Err: "open_create_new p m w = (Err e, w') \<Longrightarrow> lookup w' = lookup w"
  by (auto simp: open_create_new_def dest!: faulty_Err split: sum.splits option.splits)

lemma write_all_Err: "write_all q d w = (Err e, w') \<Longrightarrow> lookup w' = lookup w"
  by (auto simp: write_all_def dest!: faulty_Err split: option.splits)

lemma sync_all_lookup: "sync_all q w = (r, w') \<Longrightarrow> lookup w' = lookup w"
  by (auto simp: sync_all_def dest!: faulty_cases)

lemma rename_file_Err: "rename_file p q w = (Err e, w') \<Longrightarrow> lookup w' = lookup w"
  by (auto simp: rename_file_def dest!: faulty_Err split: sum.splits option.splits if_splits)

lemma open_truncate_Err: "open_truncate p m w = (Err e, w') \<Longrightarrow> lookup w' = lookup w"
  by (auto simp: open_truncate_def dest!: faulty_Err split: sum.splits option.splits fnode.splits)

lemma remove_file_Err: "remove_file p w = (Err e, w') \<Longrightarrow> lookup w' = lookup w"
  by (auto simp: remove_file_def dest!: faulty_Err split: sum.splits option.splits if_splits)

lemma chown_Err: "chown p u g w = (Err e, w') \<Longrightarrow> lookup w' = lookup w"
  by (auto simp: chown_def dest!: faulty_Err split: sum.splits option.splits)

lemma set_permissions_Err: "set_permissions p m w = (Err e, w') \<Longrightarrow> lookup w' = lookup w"
  by (auto simp: set_permissions_def dest!: faulty_Err split: sum.splits option.splits)

lemma open_create_new_Ok:
  assumes "open_create_new p m w = (Ok q, w')" "real_path (lookup w) p"
  shows "q = p \<and> lookup w p = None \<and> lookup w' = (lookup w)(p \<mapsto> new_entry w (File []) m)"
  using assms(1) resolve_real [of w p False] assms(2)
  by (auto simp: open_create_new_def new_entry_def dest!: faulty_Ok split: option.splits)

lemma rename_file_Ok:
  assumes "rename_file src dst w = (Ok u, w')" "real_path (lookup w) src" "real_path (lookup w) dst"
    and "src \<noteq> dst"
  shows "\<exists>e. lookup w src = Some e \<and> \<not> is_dir_at (lookup w) dst
    \<and> lookup w' = (lookup w)(src := None, dst \<mapsto> e)"
  using assms(1) resolve_real [of w _ False] assms(2-)
  by (auto simp: rename_file_def is_dir_at_Some dest!: faulty_Ok split: option.splits if_splits)

end
