(* ===== verification/State.thy ===== *)
theory State
  imports Fs Json
begin

text \<open>
  \<open>src/state.rs\<close>: the machine-wide state directory and the runtime file in it. \<open>serde_json\<close> is the
  interface \<open>json_ops\<close> with its printer and parser; what \<open>derive(Serialize, Deserialize)\<close> makes of
  \<open>RuntimeInfo\<close> is written out. Paths are POSIX paths; \<open>cwd\<close> is the working directory a relative override is
  taken from.
\<close>

definition ENV_STATE_DIR :: string where "ENV_STATE_DIR = ''DIG_DNS_STATE_DIR''"
definition RUNTIME_FILE :: string where "RUNTIME_FILE = ''runtime.json''"

record runtime_info =
  pid :: u32
  rt_loopback_ip :: string
  rt_http_port :: u16
  rt_dns_active :: bool

definition env_nonblank :: "string option \<Rightarrow> string option" where
  "env_nonblank v = opt_filter (\<lambda>s. s \<noteq> []) (map_option trim v)"

text \<open>\<open>PathBuf::join\<close> on Windows: a separator is added unless there is one or the base is a bare drive.\<close>

definition windows_join :: "string \<Rightarrow> string \<Rightarrow> string" where
  "windows_join base name =
     (if base = [] \<or> last base = CHR 0x5C \<or> last base = CHR ''/''
         \<or> (length base = 2 \<and> base ! 1 = CHR '':'' \<and> (is_lower (base ! 0) \<or> is_upper (base ! 0)))
      then base @ name else base @ [CHR 0x5C] @ name)"

fun default_state_dir :: "os \<Rightarrow> (string \<Rightarrow> string option) \<Rightarrow> string" where
  "default_state_dir Windows get =
     windows_join (unwrap_or (env_nonblank (get ''ProgramData'')) (''C:'' @ [CHR 0x5C] @ ''ProgramData''))
       ''DigDns''"
| "default_state_dir MacOs get = ''/Library/Application Support/DigDns''"
| "default_state_dir Linux get = ''/var/lib/dig-dns''"

definition resolve_state_dir :: "os \<Rightarrow> (string \<Rightarrow> string option) \<Rightarrow> string" where
  "resolve_state_dir platform get =
     (case env_nonblank (get ENV_STATE_DIR) of
        Some dir \<Rightarrow> dir
      | None \<Rightarrow> default_state_dir platform get)"

definition runtime_path :: "path \<Rightarrow> path" where
  "runtime_path dir = dir @ [RUNTIME_FILE]"

section \<open>The runtime file\<close>

record 'v json_text_ops =
  to_string_pretty :: "'v \<Rightarrow> string option"
  from_slice :: "string \<Rightarrow> 'v option"

definition runtime_to_json :: "'v json_ops \<Rightarrow> runtime_info \<Rightarrow> 'v" where
  "runtime_to_json J info = jobj J
     [(''pid'', ju64 J (ucast (pid info))), (''loopback_ip'', jstr J (rt_loopback_ip info)),
      (''http_port'', ju64 J (ucast (rt_http_port info))), (''dns_active'', jbool J (rt_dns_active info))]"

text \<open>An integer field is refused when it does not fit its type.\<close>

definition as_u32 :: "'v json_ops \<Rightarrow> 'v \<Rightarrow> u32 option" where
  "as_u32 J v = (case as_u64 J v of
       Some n \<Rightarrow> if unat n < 2 ^ 32 then Some (ucast n) else None
     | None \<Rightarrow> None)"

definition as_u16 :: "'v json_ops \<Rightarrow> 'v \<Rightarrow> u16 option" where
  "as_u16 J v = (case as_u64 J v of
       Some n \<Rightarrow> if unat n < 2 ^ 16 then Some (ucast n) else None
     | None \<Rightarrow> None)"

definition runtime_fields :: "'v json_ops \<Rightarrow> 'v \<Rightarrow> 'v \<Rightarrow> 'v \<Rightarrow> 'v \<Rightarrow> runtime_info option" where
  "runtime_fields J p ip port active =
     (case (as_u32 J p, as_str J ip, as_u16 J port, as_bool J active) of
        (Some p, Some ip, Some port, Some active) \<Rightarrow>
          Some \<lparr>pid = p, rt_loopback_ip = ip, rt_http_port = port, rt_dns_active = active\<rparr>
      | _ \<Rightarrow> None)"

text \<open>A struct is read from an object, whose other fields are ignored, or from an array of its fields.\<close>

definition runtime_from_json :: "'v json_ops \<Rightarrow> 'v \<Rightarrow> runtime_info option" where
  "runtime_from_json J v =
     (case as_array J v of
        Some vs \<Rightarrow> (case vs of [p, ip, port, active] \<Rightarrow> runtime_fields J p ip port active | _ \<Rightarrow> None)
      | None \<Rightarrow>
          (case (jget J v ''pid'', jget J v ''loopback_ip'', jget J v ''http_port'', jget J v ''dns_active'') of
             (Some p, Some ip, Some port, Some active) \<Rightarrow> runtime_fields J p ip port active
           | _ \<Rightarrow> None))"

definition write_runtime_to ::
  "'v json_ops \<Rightarrow> 'v json_text_ops \<Rightarrow> path \<Rightarrow> runtime_info \<Rightarrow> fsys \<Rightarrow> (io_error + unit) \<times> fsys" where
  "write_runtime_to J T dir info w =
     io_bind (create_dir_all dir w) (\<lambda>_ w.
     case to_string_pretty T (runtime_to_json J info) of
       None \<Rightarrow> (Err (IoError KInvalidData []), w)
     | Some json \<Rightarrow> write_file (runtime_path dir) json w)"

definition read_runtime_from :: "'v json_ops \<Rightarrow> 'v json_text_ops \<Rightarrow> path \<Rightarrow> fsys \<Rightarrow> runtime_info option" where
  "read_runtime_from J T dir w =
     (case read_to_string w (runtime_path dir) of
        Inl e \<Rightarrow> None
      | Inr bytes \<Rightarrow> Option.bind (from_slice T bytes) (runtime_from_json J))"

text \<open>The state directory of the process, from its platform, environment and working directory.\<close>

definition state_dir :: "os \<Rightarrow> (string \<Rightarrow> string option) \<Rightarrow> path \<Rightarrow> path" where
  "state_dir platform get cwd = absolute cwd (resolve_state_dir platform get)"

definition write_runtime ::
  "'v json_ops \<Rightarrow> 'v json_text_ops \<Rightarrow> os \<Rightarrow> (string \<Rightarrow> string option) \<Rightarrow> path \<Rightarrow> runtime_info \<Rightarrow> fsys
     \<Rightarrow> (io_error + unit) \<times> fsys" where
  "write_runtime J T platform get cwd = write_runtime_to J T (state_dir platform get cwd)"

definition read_runtime ::
  "'v json_ops \<Rightarrow> 'v json_text_ops \<Rightarrow> os \<Rightarrow> (string \<Rightarrow> string option) \<Rightarrow> path \<Rightarrow> fsys \<Rightarrow> runtime_info option" where
  "read_runtime J T platform get cwd = read_runtime_from J T (state_dir platform get cwd)"

definition remove_runtime :: "path \<Rightarrow> fsys \<Rightarrow> fsys" where
  "remove_runtime dir w = snd (remove_file (runtime_path dir) w)"

text \<open>\<open>RuntimeGuard\<close>: recording is best effort, dropping removes the file. \<open>guarded\<close> is a body run while a
  guard is held.\<close>

record runtime_guard =
  guard_dir :: path

definition guard_record ::
  "'v json_ops \<Rightarrow> 'v json_text_ops \<Rightarrow> path \<Rightarrow> runtime_info \<Rightarrow> fsys \<Rightarrow> runtime_guard \<times> fsys" where
  "guard_record J T dir info w = (\<lparr>guard_dir = dir\<rparr>, snd (write_runtime_to J T dir info w))"

definition guard_drop :: "runtime_guard \<Rightarrow> fsys \<Rightarrow> fsys" where
  "guard_drop g w = snd (remove_file (runtime_path (guard_dir g)) w)"

section \<open>Properties\<close>

lemma runtime_json_roundtrip:
  assumes "json_values J"
  shows "runtime_from_json J (runtime_to_json J info) = Some info"
proof -
  note laws = json_values.arr_obj [OF assms] json_values.get_obj [OF assms] json_values.u64_u64 [OF assms]
    json_values.str_str [OF assms] json_values.bool_bool [OF assms]
  have [simp]: "unat (ucast x :: u64) = unat x" "unat (ucast y :: u64) = unat y"
    "unat x < 4294967296" "unat y < 65536" "ucast (ucast x :: u64) = x" "ucast (ucast y :: u64) = y"
    for x :: u32 and y :: u16
proof -
    have "unat x < 2 ^ 32" "unat y < 2 ^ 16"
      using unsigned_less [of x] unsigned_less [of y] by simp_all
    then show "unat (ucast x :: u64) = unat x" "unat (ucast y :: u64) = unat y"
      "unat x < 4294967296" "unat y < 65536"
      by (simp_all add: unsigned_ucast_eq take_bit_nat_eq_self)
    show "ucast (ucast x :: u64) = x" "ucast (ucast y :: u64) = y"
      by (simp_all add: ucast_up_ucast_id is_up)
  qed
  show ?thesis
    by (cases info)
       (simp add: runtime_from_json_def runtime_to_json_def runtime_fields_def as_u32_def as_u16_def laws)
qed

lemma recorded_read:
  assumes "json_values J" "\<And>v s. to_string_pretty T v = Some s \<Longrightarrow> from_slice T s = Some v"
    and "is_ok (fst (write_runtime_to J T dir info w))" "w' = snd (write_runtime_to J T dir info w)"
  shows "read_runtime_from J T dir w' = Some info"
proof -
  obtain u where "write_runtime_to J T dir info w = (Ok u, w')"
    using assms(3,4) by (cases "write_runtime_to J T dir info w"; cases "fst (write_runtime_to J T dir info w)") auto
  then obtain s w1 where "to_string_pretty T (runtime_to_json J info) = Some s"
    and "write_file (runtime_path dir) s w1 = (Ok u, w')"
    by (auto simp: write_runtime_to_def io_bind_Ok_iff split: option.splits)
  with assms(2) runtime_json_roundtrip [OF assms(1)] write_file_read show ?thesis
    by (fastforce simp: read_runtime_from_def runtime_path_def)
qed

text \<open>The command line finds the running service: whatever the file system holds (links, leftovers of
  an earlier run) and whichever calls fail, if recording the runtime information succeeds then reading it
  back, as any user does, gives exactly that information.\<close>

theorem runtime_roundtrip:
  assumes "json_values J" "\<And>v s. to_string_pretty T v = Some s \<Longrightarrow> from_slice T s = Some v"
    and "write_runtime_to J T dir info w = (Ok u, w')"
  shows "read_runtime_from J T dir w' = Some info"
  by (rule recorded_read [OF assms(1,2), where w = w]) (simp_all add: assms(3))

definition demo_info :: runtime_info where
  "demo_info = \<lparr>pid = 4711, rt_loopback_ip = ''127.0.0.5'', rt_http_port = 8053, rt_dns_active = True\<rparr>"

definition demo_text :: "json json_text_ops" where
  "demo_text = \<lparr>to_string_pretty = (\<lambda>v. if v = runtime_to_json json_tree demo_info then Some (json_text v) else None),
     from_slice = (\<lambda>s. if s = json_text (runtime_to_json json_tree demo_info)
                       then Some (runtime_to_json json_tree demo_info) else None)\<rparr>"

definition state_root :: fsys where
  "state_root = \<lparr>tree = [([], \<lparr>fnode = Dir, fuid = 0, fgid = 0, fmode = 0x1ED\<rparr>)], faults = [], umask = 0x12\<rparr>"

theorem runtime_roundtrip_witness:
  "read_runtime_from json_tree demo_text [''var''] (snd (write_runtime_to json_tree demo_text [''var''] demo_info
     state_root)) = Some demo_info"
proof (rule runtime_roundtrip [OF tree.json_values_axioms])
  show "write_runtime_to json_tree demo_text [''var''] demo_info state_root
    = (Ok (), snd (write_runtime_to json_tree demo_text [''var''] demo_info state_root))"
    by (simp add: write_runtime_to_def create_dir_all_def create_dir_def faulty_def state_root_def
        resolve_path_def lookup_def put_entry_def write_file_def open_truncate_def runtime_path_def
        write_all_def demo_text_def numeral_2_eq_2 RUNTIME_FILE_def)
qed (simp add: demo_text_def split: if_splits)

end
