(* ===== verification/SystemTool.thy ===== *)
theory SystemTool
  imports Io
begin

text \<open>
  \<open>src/system_tool.rs\<close>: the absolute path of a system tool, so that a privileged process is never
  found through the search path. \<open>exists\<close> is the file test of the machine and \<open>system32\<close> what
  \<open>system_directory\<close> returned.
\<close>

text \<open>\<open>syscall\<close> is the text \<open>GetSystemDirectoryW\<close> wrote, when it reports a length within the buffer.\<close>

definition system_directory :: "string option \<Rightarrow> (string \<Rightarrow> string option) \<Rightarrow> string" where
  "system_directory syscall env =
     (case syscall of
        Some d \<Rightarrow> d
      | None \<Rightarrow> unwrap_or (env ''SystemRoot'') (''C:'' @ [CHR 0x5C] @ ''Windows'')
                @ [CHR 0x5C] @ ''System32'')"

definition system_tool_candidates :: "string \<Rightarrow> string list" where
  "system_tool_candidates name =
     (let dirs = (if name = ''ifconfig'' then [''/sbin'', ''/usr/sbin'']
                  else if name = ''launchctl'' then [''/bin'', ''/usr/bin'']
                  else [''/usr/bin'', ''/bin'', ''/usr/sbin'', ''/sbin''])
      in map (\<lambda>d. d @ ''/'' @ name) dirs)"

definition resolve_system_tool :: "os \<Rightarrow> string \<Rightarrow> (string \<Rightarrow> bool) \<Rightarrow> string \<Rightarrow> string" where
  "resolve_system_tool platform system32 exists name =
     (if platform = Windows then
        (if name = ''powershell''
         then system32 @ [CHR 0x5C] @ ''WindowsPowerShell'' @ [CHR 0x5C] @ ''v1.0'' @ [CHR 0x5C]
              @ ''powershell.exe''
         else system32 @ [CHR 0x5C] @ unwrap_or (strip_suffix name ''.exe'') name @ ''.exe'')
      else
        (let candidates = system_tool_candidates name
         in unwrap_or (List.find exists candidates) (candidates ! 0)))"

lemma candidates_nonempty: "system_tool_candidates name \<noteq> []"
  by (simp add: system_tool_candidates_def)

lemma resolve_in_candidates:
  assumes "platform \<noteq> Windows"
  shows "resolve_system_tool platform s exists name \<in> set (system_tool_candidates name)"
proof (cases "List.find exists (system_tool_candidates name)")
  case None
  with assms candidates_nonempty [of name] show ?thesis
    by (simp add: resolve_system_tool_def)
next
  case (Some p)
  then have "p \<in> set (system_tool_candidates name)"
    by (auto simp: find_Some_iff)
  with assms Some show ?thesis
    by (simp add: resolve_system_tool_def)
qed

section \<open>Properties\<close>

text \<open>A tool is always run by an absolute path in a system directory: on Unix the path is one of
  the root-owned tool directories followed by the name, whatever exists on the machine, and the first
  existing candidate is taken; on Windows it lies under the system directory.\<close>

theorem system_tool_absolute:
  "(platform \<noteq> Windows \<longrightarrow>
      (\<exists>d \<in> {''/usr/bin'', ''/bin'', ''/usr/sbin'', ''/sbin''}.
         resolve_system_tool platform system32 exists name = d @ ''/'' @ name)
      \<and> (\<forall>p \<in> set (system_tool_candidates name). exists p \<longrightarrow>
           exists (resolve_system_tool platform system32 exists name)))
   \<and> (platform = Windows \<longrightarrow>
        starts_with (resolve_system_tool platform system32 exists name) (system32 @ [CHR 0x5C]))"
proof (cases "platform = Windows")
  case True
  then show ?thesis
    by (auto simp: resolve_system_tool_def starts_with_iff)
next
  case False
  have "\<exists>d \<in> {''/usr/bin'', ''/bin'', ''/usr/sbin'', ''/sbin''}.
      resolve_system_tool platform system32 exists name = d @ ''/'' @ name"
    using resolve_in_candidates [OF False, of system32 exists name]
    by (auto simp: system_tool_candidates_def Let_def split: if_splits)
  moreover have "\<forall>p \<in> set (system_tool_candidates name). exists p \<longrightarrow>
      exists (resolve_system_tool platform system32 exists name)"
  proof (cases "List.find exists (system_tool_candidates name)")
    case None
    then show ?thesis by (auto simp: find_None_iff)
  next
    case (Some p)
    then have "exists p" by (auto simp: find_Some_iff)
    with Some False show ?thesis by (simp add: resolve_system_tool_def)
  qed
  ultimately show ?thesis using False by blast
qed

theorem system_tool_absolute_witness:
  "\<exists>d \<in> {''/usr/bin'', ''/bin'', ''/usr/sbin'', ''/sbin''}.
     resolve_system_tool Linux [] (\<lambda>p. p = ''/bin/id'') ''id'' = d @ ''/'' @ ''id''"
  using system_tool_absolute [of Linux "[]" "\<lambda>p. p = ''/bin/id''" "''id''"] by simp

end
