(* ===== verification/Machine.thy ===== *)
theory Machine
  imports Fs SystemTool
begin

text \<open>
  The machine the privileged commands work on: a file system and the processes \<open>'m\<close> they start, with what
  the code reads off the platform. A started process (\<open>launchctl\<close>, \<open>resolvectl\<close>, \<open>reg\<close> and so on) changes \<open>'m\<close>
  only: what such tools do to files is outside the model. The exception are the tools of the service manager, which
  work on the whole machine (see \<open>LinuxService\<close> and \<open>System\<close>).
\<close>

section \<open>The machine\<close>

record 'm host =
  disk :: fsys
  procs :: 'm

definition on_disk :: "(fsys \<Rightarrow> 'a \<times> fsys) \<Rightarrow> 'm host \<Rightarrow> 'a \<times> 'm host" where
  "on_disk f h = (let (r, d) = f (disk h) in (r, h\<lparr>disk := d\<rparr>))"

definition on_procs :: "('m \<Rightarrow> 'a \<times> 'm) \<Rightarrow> 'm host \<Rightarrow> 'a \<times> 'm host" where
  "on_procs f h = (let (r, m) = f (procs h) in (r, h\<lparr>procs := m\<rparr>))"

lemma on_disk_eq: "on_disk f h = (r, h') \<longleftrightarrow> (\<exists>d. f (disk h) = (r, d) \<and> h' = h\<lparr>disk := d\<rparr>)"
  by (cases "f (disk h)") (auto simp: on_disk_def)

lemma disk_on_procs: "on_procs f h = (r, h') \<Longrightarrow> disk h' = disk h"
  by (cases "f (procs h)") (auto simp: on_procs_def)

text \<open>\<open>IpAddr\<close>.\<close>

datatype ip_addr = V4 ipv4 | V6 "128 word"

text \<open>\<open>os_const\<close> is \<open>std::env::consts::OS\<close>, \<open>system32\<close> the directory \<open>system_directory\<close> returns, \<open>process_id\<close> is
  \<open>std::process::id\<close>, and \<open>getaddrinfo\<close> is \<open>ToSocketAddrs\<close> on a name, with no address when it fails.\<close>

record 'm machine =
  sys :: "'m sys_ops"
  os_const :: string
  system32 :: string
  process_id :: nat
  getaddrinfo :: "string \<Rightarrow> 'm \<Rightarrow> ip_addr list \<times> 'm"

definition platform_of :: "string \<Rightarrow> os" where
  "platform_of s = (if s = ''windows'' then Windows else if s = ''macos'' then MacOs else Linux)"

definition tool :: "'m machine \<Rightarrow> 'm host \<Rightarrow> string \<Rightarrow> string" where
  "tool M h name = resolve_system_tool (platform_of (os_const M)) (system32 M)
     (\<lambda>p. path_exists (disk h) (path_of p)) name"

section \<open>Characters outside ASCII, in UTF-8\<close>

definition EM_DASH :: string where "EM_DASH = [CHR 0xE2, CHR 0x80, CHR 0x94]"

end
