(* ===== verification/Server.thy ===== *)
theory Server
  imports Gateway Dns State Machine
begin

text \<open>
  \<open>src/server.rs\<close> and \<open>src/dig_local.rs\<close>: binding, the conversion between \<open>hyper\<close> and the gateway, the DNS
  sockets, the reverse proxy of \<open>dig.local\<close>, and the service that runs them all until it is stopped. Sockets,
  \<open>hyper\<close> and \<open>reqwest\<close> are parameters. The \<open>select!\<close> loops are step relations, since which ready branch runs is
  not determined; \<open>flag\<close> is the shared shutdown flag.
\<close>

section \<open>Binding\<close>

text \<open>\<open>'l\<close> is a TCP listener and \<open>'u\<close> a UDP socket.\<close>

record ('l, 'u, 'w) net_ops =
  bind_tcp :: "ipv4 \<times> u16 \<Rightarrow> 'w \<Rightarrow> (io_error + 'l) \<times> 'w"
  local_port :: "'l \<Rightarrow> u16 option"
  bind_udp :: "ipv4 \<times> u16 \<Rightarrow> 'w \<Rightarrow> (io_error + 'u) \<times> 'w"

definition show_addr :: "ipv4 \<times> u16 \<Rightarrow> string" where
  "show_addr a = show_ipv4 (fst a) @ '':'' @ show_word (snd a)"

definition bind_listener ::
  "('l, 'u, 'w) net_ops \<Rightarrow> ipv4 \<times> u16 \<Rightarrow> ipv4 \<times> u16 \<Rightarrow> 'w \<Rightarrow> (io_error + 'l \<times> u16 \<times> bool) \<times> 'w" where
  "bind_listener N primary fallback w =
     (case bind_tcp N primary w of
        (Inr l, w) \<Rightarrow> (Ok (l, unwrap_or (local_port N l) (snd primary), False), w)
      | (Inl primary_err, w) \<Rightarrow>
          (case bind_tcp N fallback w of
             (Inr l, w) \<Rightarrow> (Ok (l, unwrap_or (local_port N l) (snd fallback), True), w)
           | (Inl fallback_err, w) \<Rightarrow>
               (Err (IoError (kind fallback_err)
                  (''could not bind primary '' @ show_addr primary @ '' ('' @ message primary_err @ '') nor fallback ''
                   @ show_addr fallback @ '' ('' @ message fallback_err @ '')'')), w)))"

definition bind_dns :: "('l, 'u, 'w) net_ops \<Rightarrow> ipv4 \<Rightarrow> u16 \<Rightarrow> 'w \<Rightarrow> (io_error + 'u \<times> 'l) \<times> 'w" where
  "bind_dns N ip port w =
     io_bind (bind_udp N (ip, port) w) (\<lambda>udp w.
     io_bind (bind_tcp N (ip, port) w) (\<lambda>tcp w.
     (Ok (udp, tcp), w)))"

section \<open>HTTP\<close>

text \<open>\<open>head_ok\<close> is whether \<open>hyper\<close>'s response builder accepts a status and headers.\<close>

definition to_hyper :: "(u16 \<Rightarrow> (string \<times> string) list \<Rightarrow> bool) \<Rightarrow> gateway_response \<Rightarrow> gateway_response" where
  "to_hyper head_ok gw =
     (if head_ok (Gateway.status gw) (headers gw) then gw
      else \<lparr>status = 500, headers = [], body = str_bytes ''internal error''\<rparr>)"

text \<open>A request; header names are in lower case, as \<open>hyper\<close> keeps them, and \<open>to_str\<close> gives the value when it is
  visible ASCII.\<close>

record request =
  req_method :: string
  req_uri :: uri
  req_path_and_query :: "string option"
  req_headers :: "(string \<times> string) list"
  req_body :: "bytes option"

definition to_str :: "string \<Rightarrow> string option" where
  "to_str v = (if list_all (\<lambda>c. graphic c \<or> c = CHR '' '' \<or> c = CHR 0x09) v then Some v else None)"

definition header_str :: "request \<Rightarrow> string \<Rightarrow> string option" where
  "header_str req name = Option.bind (map_of (req_headers req) name) to_str"

text \<open>\<open>None\<close> is a panic of the handler.\<close>

definition respond_http ::
  "codec_ops \<Rightarrow> 'v json_ops \<Rightarrow> ('b, 'p, 'k) digstore_ops \<Rightarrow> (u16 \<Rightarrow> (string \<times> string) list \<Rightarrow> bool)
     \<Rightarrow> 'w node_client \<Rightarrow> ctx \<Rightarrow> request \<Rightarrow> 'w \<Rightarrow> gateway_response option \<times> 'w" where
  "respond_http C J D head_ok client c req w =
     (let (gw, w) = handle C J D client c (req_method req) (req_uri req) (header_str req ''host'')
                      (header_str req ''range'') w
      in (map_option (to_hyper head_ok) gw, w))"

section \<open>DNS over TCP\<close>

record 'w stream_ops =
  read_exact :: "nat \<Rightarrow> 'w \<Rightarrow> (io_error + bytes) \<times> 'w"
  stream_write :: "bytes \<Rightarrow> 'w \<Rightarrow> (io_error + unit) \<times> 'w"
  stream_flush :: "'w \<Rightarrow> (io_error + unit) \<times> 'w"

definition handle_dns_tcp ::
  "'w stream_ops \<Rightarrow> ipv4 \<Rightarrow> string \<Rightarrow> u32 \<Rightarrow> 'w \<Rightarrow> (io_error + unit) \<times> 'w" where
  "handle_dns_tcp S ip t ttl w =
     io_bind (read_exact S 2 w) (\<lambda>len_buf w.
     io_bind (read_exact S (unat (be16 (len_buf ! 0) (len_buf ! 1))) w) (\<lambda>msg w.
     case respond msg ip t ttl Tcp of
       None \<Rightarrow> (Ok (), w)
     | Some resp \<Rightarrow>
         io_bind (stream_write S (to_be16 (of_nat (length resp))) w) (\<lambda>_ w.
         io_bind (stream_write S resp w) (\<lambda>_ w.
         stream_flush S w))))"

text \<open>A connection on which the peer sends \<open>input\<close> and then closes its side: what is left to read, and what was
  written.\<close>

definition pipe :: "(bytes \<times> bytes) stream_ops" where
  "pipe = \<lparr>read_exact = (\<lambda>n (inp, out).
       if n \<le> length inp then (Ok (take n inp), (drop n inp, out))
       else (Err (IoError KOther ''failed to fill whole buffer''), ([], out))),
     stream_write = (\<lambda>bs (inp, out). (Ok (), (inp, out @ bs))),
     stream_flush = (\<lambda>w. (Ok (), w))\<rparr>"

section \<open>The accept loops\<close>

text \<open>\<open>serve_on\<close> and the loop of the \<open>dig.local\<close> proxy: until the flag is seen, each accepted connection gets its
  own task; a failed accept changes nothing.\<close>

record 'c accept_loop =
  running :: bool
  spawned :: "'c list"

inductive serve_on_step :: "bool \<Rightarrow> 'c accept_loop \<Rightarrow> 'c accept_loop \<Rightarrow> bool" for flag where
  stop_loop: "flag \<Longrightarrow> running s \<Longrightarrow> serve_on_step flag s (s\<lparr>running := False\<rparr>)"
| accept: "running s \<Longrightarrow> serve_on_step flag s (s\<lparr>spawned := spawned s @ [c]\<rparr>)"
| accept_failed: "running s \<Longrightarrow> serve_on_step flag s s"

definition serve_dig_local_proxy_step :: "bool \<Rightarrow> 'c accept_loop \<Rightarrow> 'c accept_loop \<Rightarrow> bool" where
  "serve_dig_local_proxy_step = serve_on_step"

text \<open>\<open>serve_dns\<close>: a datagram is read into a buffer of 4096 bytes and answered inline; \<open>sent\<close> are the replies that
  were sent, with the peer and the datagram they answer.\<close>

definition UDP_BUFFER :: nat where "UDP_BUFFER = 4096"

record ('c, 'p) dns_loop =
  dns_running :: bool
  dns_spawned :: "'c list"
  sent :: "('p \<times> bytes \<times> bytes) list"

inductive serve_dns_step ::
  "ipv4 \<Rightarrow> string \<Rightarrow> u32 \<Rightarrow> bool \<Rightarrow> ('c, 'p) dns_loop \<Rightarrow> ('c, 'p) dns_loop \<Rightarrow> bool"
  for ip t ttl flag where
  stop_dns: "flag \<Longrightarrow> dns_running s \<Longrightarrow> serve_dns_step ip t ttl flag s (s\<lparr>dns_running := False\<rparr>)"
| answered: "dns_running s \<Longrightarrow> respond (take UDP_BUFFER msg) ip t ttl Udp = Some resp
    \<Longrightarrow> serve_dns_step ip t ttl flag s (s\<lparr>sent := sent s @ [(peer, msg, resp)]\<rparr>)"
| send_failed: "dns_running s \<Longrightarrow> respond (take UDP_BUFFER msg) ip t ttl Udp = Some resp
    \<Longrightarrow> serve_dns_step ip t ttl flag s s"
| unanswered: "dns_running s \<Longrightarrow> respond (take UDP_BUFFER msg) ip t ttl Udp = None
    \<Longrightarrow> serve_dns_step ip t ttl flag s s"
| recv_failed: "dns_running s \<Longrightarrow> serve_dns_step ip t ttl flag s s"
| tcp_accept: "dns_running s \<Longrightarrow> serve_dns_step ip t ttl flag s (s\<lparr>dns_spawned := dns_spawned s @ [c]\<rparr>)"
| tcp_accept_failed: "dns_running s \<Longrightarrow> serve_dns_step ip t ttl flag s s"

inductive_cases serve_on_stepE: "serve_on_step flag s s'"
inductive_cases serve_dns_stepE: "serve_dns_step ip t ttl flag s s'"

section \<open>The \<open>dig.local\<close> mapping\<close>

datatype ensure_outcome = AlreadyMapped | Established u16 | Unavailable string

definition should_establish :: "bool \<Rightarrow> bool" where
  "should_establish already_mapped \<longleftrightarrow> \<not> already_mapped"

text \<open>\<open>node_port\<close> is \<open>dig_constants::DIG_NODE_PORT\<close>.\<close>

definition local_node_target :: "u16 \<Rightarrow> config \<Rightarrow> string" where
  "local_node_target node_port cfg =
     (case node_url cfg of
        Some url \<Rightarrow> trim_end_matches CHR ''/'' url
      | None \<Rightarrow> ''http://localhost:'' @ show_word node_port)"

definition probe_and_bind_dig_local ::
  "('l, 'u, 'w) net_ops \<Rightarrow> ('w, 'v) http_ops \<Rightarrow> ipv4 \<Rightarrow> u16 \<Rightarrow> 'w
     \<Rightarrow> (ensure_outcome \<times> 'l option) \<times> 'w" where
  "probe_and_bind_dig_local N http ip port w =
     (let (mapped, w) = probe http (''http://'' @ show_addr (ip, port)) w
      in if mapped then ((AlreadyMapped, None), w)
         else case bind_tcp N (ip, port) w of
             (Inr l, w) \<Rightarrow> ((Established (unwrap_or (local_port N l) port), Some l), w)
           | (Inl e, w) \<Rightarrow> ((Unavailable (message e), None), w))"

text \<open>\<open>serve\<close> is the proxy loop with the client, on the listener, for the target, until the shutdown.\<close>

definition ensure_dig_local_mapping ::
  "(string + unit) \<Rightarrow> (bool \<Rightarrow> string + ('w, 'v) http_ops) \<Rightarrow> ('l, 'u, 'w) net_ops \<Rightarrow> u16
     \<Rightarrow> (('w, 'v) http_ops \<Rightarrow> 'l \<Rightarrow> string \<Rightarrow> 'w \<Rightarrow> 'w) \<Rightarrow> (node_error \<Rightarrow> string) \<Rightarrow> config \<Rightarrow> 'w \<Rightarrow> ensure_outcome \<times> 'w" where
  "ensure_dig_local_mapping mk_resolver mk_client N node_port serve show_err cfg w =
     (case build_http_client mk_resolver mk_client (secure_upstream cfg) of
        Inl e \<Rightarrow> (Unavailable (show_err e), w)
      | Inr http \<Rightarrow>
          (let ((outcome, listener), w) = probe_and_bind_dig_local N http (dig_local_ip cfg) (dig_local_port cfg) w
           in (outcome, case (outcome, listener) of
                 (Established p, Some l) \<Rightarrow> serve http l (local_node_target node_port cfg) w
               | _ \<Rightarrow> w)))"

text \<open>\<open>spawn_dig_local_ensure\<close>: after an attempt the task ends when the address is mapped, waits for the retry
  interval when it is unavailable, and serves an established mapping until the flag is seen.\<close>

definition DIG_LOCAL_RETRY_SECS :: nat where "DIG_LOCAL_RETRY_SECS = 30"

datatype ensure_phase = Attempting | Serving | Waiting | Finished

fun after_attempt :: "ensure_outcome \<Rightarrow> ensure_phase" where
  "after_attempt AlreadyMapped = Finished"
| "after_attempt (Established port) = Serving"
| "after_attempt (Unavailable reason) = Waiting"

inductive ensure_step :: "bool \<Rightarrow> ensure_phase \<Rightarrow> ensure_phase \<Rightarrow> bool" for flag where
  attempt: "ensure_step flag Attempting (after_attempt outcome)"
| served: "flag \<Longrightarrow> ensure_step flag Serving Finished"
| retry: "ensure_step flag Waiting Attempting"
| stopped_waiting: "flag \<Longrightarrow> ensure_step flag Waiting Finished"

inductive_cases ensure_stepE: "ensure_step flag s s'"

section \<open>The reverse proxy\<close>

definition is_hop_by_hop_header :: "string \<Rightarrow> bool" where
  "is_hop_by_hop_header name \<longleftrightarrow>
     to_ascii_lowercase name \<in> {''host'', ''connection'', ''content-length'', ''transfer-encoding'', ''keep-alive'',
       ''proxy-connection'', ''proxy-authenticate'', ''proxy-authorization'', ''te'', ''trailer'', ''upgrade''}"

definition proxy_text :: "(u16 \<Rightarrow> (string \<times> string) list \<Rightarrow> bool) \<Rightarrow> u16 \<Rightarrow> string \<Rightarrow> gateway_response" where
  "proxy_text head_ok st msg = to_hyper head_ok (text_response st msg)"

text \<open>\<open>method_ok\<close> is \<open>Method::from_bytes\<close>, \<open>send\<close> the request of \<open>reqwest\<close>: \<open>None\<close> when it fails, otherwise the
  status, the headers and the body (\<open>None\<close> when reading it fails).\<close>

record forwarded =
  fwd_method :: string
  fwd_url :: string
  fwd_headers :: "(string \<times> string) list"
  fwd_body :: bytes

definition forward :: "string \<Rightarrow> request \<Rightarrow> forwarded" where
  "forward target_base req =
     \<lparr>fwd_method = req_method req,
      fwd_url = target_base @ unwrap_or (req_path_and_query req) ''/'',
      fwd_headers = [(n, v). (n, v) \<leftarrow> req_headers req, \<not> is_hop_by_hop_header n \<and> to_str v \<noteq> None],
      fwd_body = unwrap_or (req_body req) []\<rparr>"

definition proxy_respond ::
  "(u16 \<Rightarrow> (string \<times> string) list \<Rightarrow> bool) \<Rightarrow> (string \<Rightarrow> bool)
     \<Rightarrow> (forwarded \<Rightarrow> 'w \<Rightarrow> (u16 \<times> (string \<times> string) list \<times> bytes option) option \<times> 'w)
     \<Rightarrow> string \<Rightarrow> request \<Rightarrow> 'w \<Rightarrow> gateway_response \<times> 'w" where
  "proxy_respond head_ok method_ok send target_base req w =
     (if \<not> method_ok (req_method req) then (proxy_text head_ok 400 ''invalid method'', w)
      else case send (forward target_base req) w of
          (None, w) \<Rightarrow> (proxy_text head_ok 502 ''dig-node unreachable'', w)
        | (Some (st, hs, bs), w) \<Rightarrow>
            (let hs = filter (\<lambda>(n, v). \<not> is_hop_by_hop_header n) hs
             in if head_ok st hs then \<lparr>status = st, headers = hs, body = unwrap_or bs []\<rparr>
                else proxy_text head_ok 500 ''internal error'', w))"

section \<open>One-shot requests\<close>

fun probe_ports :: "(string \<Rightarrow> 'w \<Rightarrow> u16 option \<times> 'w) \<Rightarrow> ipv4 \<Rightarrow> u16 list \<Rightarrow> 'w \<Rightarrow> u16 option \<times> 'w" where
  "probe_ports get_status ip [] w = (None, w)"
| "probe_ports get_status ip (port # ports) w =
     (let (st, w) = get_status (''http://'' @ show_addr (ip, port) @ ''/.dig/resolve-probe'') w
      in if st = Some 204 then (Some port, w) else probe_ports get_status ip ports w)"

text \<open>\<open>client\<close> is the client, when it can be built.\<close>

definition probe_gateway_port ::
  "(string \<Rightarrow> 'w \<Rightarrow> u16 option \<times> 'w) option \<Rightarrow> ipv4 \<Rightarrow> u16 \<Rightarrow> u16 \<Rightarrow> 'w \<Rightarrow> u16 option \<times> 'w" where
  "probe_gateway_port client ip primary fallback w =
     (case client of
        None \<Rightarrow> (None, w)
      | Some get_status \<Rightarrow> probe_ports get_status ip [primary, fallback] w)"

text \<open>\<open>parse_uri\<close> is \<open>str::parse::<Uri>\<close>.\<close>

definition split_target :: "(string \<Rightarrow> uri option) \<Rightarrow> string \<Rightarrow> string \<Rightarrow> string \<times> string" where
  "split_target parse_uri target path =
     (case Option.bind (parse_uri target) (\<lambda>u. if uri_scheme u = None then None
             else map_option (\<lambda>h. (h, if uri_path u = [] then ''/'' else uri_path u)) (uri_authority_host u)) of
        Some hp \<Rightarrow> hp
      | None \<Rightarrow>
          (case split_once CHR ''/'' target of
             Some (host, rest) \<Rightarrow> (host, CHR ''/'' # trim_start_matches CHR ''/'' rest)
           | None \<Rightarrow> (target, path)))"

datatype server_error = NodeFailed node_error | IoFailed io_error | InvalidPath string

text \<open>The inner option is a panic of the handler; \<open>b64\<close> is the decoder of the node contract.\<close>

definition fetch_resource ::
  "codec_ops \<Rightarrow> 'v json_ops \<Rightarrow> ('b, 'p, 'k) digstore_ops \<Rightarrow> (string \<Rightarrow> bytes option) \<Rightarrow> (string + unit)
     \<Rightarrow> (bool \<Rightarrow> string + ('w, 'v) http_ops) \<Rightarrow> u16 \<Rightarrow> (string \<Rightarrow> uri option) \<Rightarrow> config \<Rightarrow> string \<Rightarrow> string
     \<Rightarrow> 'w \<Rightarrow> (server_error + gateway_response option) \<times> 'w" where
  "fetch_resource C J D b64 mk_resolver mk_client node_port parse_uri cfg target path w =
     (case resolve mk_resolver mk_client node_port cfg w of
        (Inl e, w) \<Rightarrow> (Err (NodeFailed e), w)
      | (Inr (http, base), w) \<Rightarrow>
          (let (host, res_path) = split_target parse_uri target path
           in case parse_uri res_path of
                None \<Rightarrow> (Err (InvalidPath res_path), w)
              | Some u \<Rightarrow>
                  (let (gw, w) = handle C J D (reqwest_node_client J b64 http base)
                         \<lparr>config = cfg, bound_port = 0, dns_active = False, uptime_secs = 0\<rparr> ''GET'' u (Some host) None w
                   in (Ok gw, w))))"

section \<open>The service\<close>

text \<open>\<open>serve_with_shutdown\<close> up to the loops: resolve the node, bind the gateway, try to bind DNS, record the runtime
  file, run the tasks until the shutdown (\<open>tasks\<close>), and drop the guard. Times and identifiers are arguments.\<close>

definition serve_with_shutdown ::
  "'v json_ops \<Rightarrow> 'v json_text_ops \<Rightarrow> (string \<Rightarrow> bytes option) \<Rightarrow> (string + unit)
     \<Rightarrow> (bool \<Rightarrow> string + ('m, 'v) http_ops) \<Rightarrow> u16 \<Rightarrow> ('l, 'u, 'm) net_ops \<Rightarrow> path \<Rightarrow> u32
     \<Rightarrow> ('m node_client \<Rightarrow> ctx \<Rightarrow> 'l \<Rightarrow> (io_error + 'u \<times> 'l) \<Rightarrow> 'm host \<Rightarrow> 'm host)
     \<Rightarrow> config \<Rightarrow> 'm host \<Rightarrow> (server_error + unit) \<times> 'm host" where
  "serve_with_shutdown J TJ b64 mk_resolver mk_client node_port N dir process tasks cfg h =
     (case on_procs (resolve mk_resolver mk_client node_port cfg) h of
        (Inl e, h) \<Rightarrow> (Err (NodeFailed e), h)
      | (Inr (http, base), h) \<Rightarrow>
          (case on_procs (bind_listener N (loopback_ip cfg, http_port cfg) (loopback_ip cfg, http_fallback_port cfg)) h of
             (Inl e, h) \<Rightarrow> (Err (IoFailed e), h)
           | (Inr (listener, port, used_fallback), h) \<Rightarrow>
               (let (dns, h) = on_procs (bind_dns N (loopback_ip cfg) (dns_port cfg)) h;
                    (guard, h) = on_disk (guard_record J TJ dir
                      \<lparr>pid = process, rt_loopback_ip = show_ipv4 (loopback_ip cfg), rt_http_port = port,
                       rt_dns_active = is_ok dns\<rparr>) h;
                    h = tasks (reqwest_node_client J b64 http base)
                      \<lparr>config = cfg, bound_port = port, dns_active = is_ok dns, uptime_secs = 0\<rparr> listener dns h
                in (Ok (), h\<lparr>disk := guard_drop guard (disk h)\<rparr>))))"

section \<open>Properties\<close>

lemma proxy_text_status: "status (proxy_text head_ok st msg) \<in> {st, 500}" "status (proxy_text head_ok 500 msg) = 500"
  by (simp_all add: proxy_text_def to_hyper_def)

text \<open>The headers no proxy may relay (RFC 9110, section 7.6.1, and the two the HTTP layers set themselves), in the
  spelling of the names in lower case, and the header values that are text: visible ASCII, spaces and tabs.\<close>

definition end_to_end :: "string \<times> string \<Rightarrow> bool" where
  "end_to_end header \<longleftrightarrow> (\<forall>name \<in> {''host'', ''connection'', ''content-length'', ''transfer-encoding'', ''keep-alive'',
     ''proxy-connection'', ''proxy-authenticate'', ''proxy-authorization'', ''te'', ''trailer'', ''upgrade''}.
     \<not> eq_ignore_ascii_case (fst header) name)"

definition textual :: "string \<times> string \<Rightarrow> bool" where
  "textual header \<longleftrightarrow> (\<forall>c \<in> set (snd header). 32 \<le> char_code c \<and> char_code c \<le> 126 \<or> c = CHR 0x09)"

lemma hop_by_hop_end_to_end: "\<not> is_hop_by_hop_header (fst header) \<longleftrightarrow> end_to_end header"
proof -
  let ?names = "[''host'', ''connection'', ''content-length'', ''transfer-encoding'', ''keep-alive'',
     ''proxy-connection'', ''proxy-authenticate'', ''proxy-authorization'', ''te'', ''trailer'', ''upgrade'']"
  have "\<forall>name \<in> set ?names. to_ascii_lowercase name = name" by code_simp
  then have "\<forall>name \<in> set ?names. eq_ignore_ascii_case (fst header) name \<longleftrightarrow> to_ascii_lowercase (fst header) = name"
    by (simp add: eq_ignore_ascii_case_def)
  then show ?thesis by (simp add: is_hop_by_hop_header_def end_to_end_def)
qed

lemma to_str_textual: "to_str (snd header) \<noteq> None \<longleftrightarrow> textual header"
proof -
  have "char_code CHR '' '' = 32" by code_simp
  then have "char_code c = 32 \<longleftrightarrow> c = CHR '' ''" for c by (metis char_code_inj)
  moreover have "graphic c \<or> char_code c = 32 \<longleftrightarrow> 32 \<le> char_code c \<and> char_code c \<le> 126" for c
    unfolding graphic_def by linarith
  ultimately have "graphic c \<or> c = CHR '' '' \<longleftrightarrow> 32 \<le> char_code c \<and> char_code c \<le> 126" for c by blast
  then show ?thesis by (simp add: to_str_def textual_def list_all_iff disj_assoc [symmetric])
qed

lemma forward_headers: "fwd_headers (forward base req) = filter (\<lambda>h. end_to_end h \<and> textual h) (req_headers req)"
proof -
  have "[(n, v). (n, v) \<leftarrow> xs, \<not> is_hop_by_hop_header n \<and> to_str v \<noteq> None]
      = filter (\<lambda>h. \<not> is_hop_by_hop_header (fst h) \<and> to_str (snd h) \<noteq> None) xs" for xs :: "(string \<times> string) list"
    by (induction xs) auto
  note fwd = this
  show ?thesis unfolding forward_def forwarded.simps fwd hop_by_hop_end_to_end to_str_textual ..
qed

text \<open>C35. The proxy of \<open>dig.local\<close> forwards to the user's own node and relays it: a request with a valid method is
  sent once, to the configured node or else the local port, never to the public gateway, under its own path and
  query, with its body, and with those of its headers, in their order, that are end to end and whose value is
  text. A whole answer of the node comes back with its status, its end-to-end headers and its body unchanged; 502
  says that the node cannot be reached, 500 that the answer has a head the server cannot build; a request with
  another method is answered without contacting the node. Two cases where bytes are lost, and the program stays
  silent about it, are part of the statement: a request body that cannot be read is sent empty, and an answer
  whose body cannot be read comes back with the node's status and no body. What the client library does inside
  its one \<open>send\<close>, such as following a redirect, is outside.\<close>

theorem proxy_forwards:
  assumes "proxy_respond head_ok method_ok send (local_node_target node_port cfg) req w = (r, w')"
  shows "if \<not> method_ok (req_method req) then w' = w \<and> status r \<in> {400, 500}
    else \<exists>q reply. send q w = (reply, w') \<and> fwd_method q = req_method req
      \<and> fwd_url q = unwrap_or (map_option (trim_end_matches CHR ''/'') (node_url cfg)) (''http://localhost:'' @ show_word node_port)
          @ unwrap_or (req_path_and_query req) ''/''
      \<and> fwd_headers q = filter (\<lambda>h. end_to_end h \<and> textual h) (req_headers req)
      \<and> fwd_body q = unwrap_or (req_body req) []
      \<and> (case reply of
            None \<Rightarrow> status r \<in> {502, 500}
          | Some (st, hs, answer) \<Rightarrow>
              if head_ok st (filter end_to_end hs)
              then status r = st \<and> headers r = filter end_to_end hs
                \<and> body r = (case answer of Some whole \<Rightarrow> whole | None \<Rightarrow> [])
              else status r = 500)"
proof (cases "method_ok (req_method req)")
  case False
  with assms proxy_text_status show ?thesis by (auto simp: proxy_respond_def)
next
  case True
  let ?q = "forward (local_node_target node_port cfg) req"
  obtain reply w1 where s: "send ?q w = (reply, w1)" by (rule prod.exhaust)
  have q: "fwd_method ?q = req_method req" "fwd_body ?q = unwrap_or (req_body req) []"
    "fwd_url ?q = unwrap_or (map_option (trim_end_matches CHR ''/'') (node_url cfg)) (''http://localhost:'' @ show_word node_port)
          @ unwrap_or (req_path_and_query req) ''/''"
    by (simp_all add: forward_def local_node_target_def split: option.split)
  have hop: "filter (\<lambda>(n, v). \<not> is_hop_by_hop_header n) hs = filter end_to_end hs" for hs :: "(string \<times> string) list"
    by (rule filter_cong) (auto simp: hop_by_hop_end_to_end [symmetric])
  have "w1 = w'" "case reply of
            None \<Rightarrow> status r \<in> {502, 500}
          | Some (st, hs, answer) \<Rightarrow>
              if head_ok st (filter end_to_end hs)
              then status r = st \<and> headers r = filter end_to_end hs
                \<and> body r = (case answer of Some whole \<Rightarrow> whole | None \<Rightarrow> [])
              else status r = 500"
    using assms True s proxy_text_status
    by (auto simp: proxy_respond_def Let_def hop unwrap_or_def split: option.splits if_splits)
  with True q forward_headers [of "local_node_target node_port cfg" req] s show ?thesis
    by (subst if_not_P, simp) (intro exI [of _ ?q] exI [of _ reply] conjI; simp only:)
qed

text \<open>A request with a header for its own connection, to a node that answers with one.\<close>

definition demo_send :: "forwarded \<Rightarrow> nat \<Rightarrow> (u16 \<times> (string \<times> string) list \<times> bytes option) option \<times> nat" where
  "demo_send q w = (Some (200, [(''Keep-Alive'', ''5''), (''etag'', ''7'')], Some [1, 2]), Suc w)"

definition demo_proxied :: request where
  "demo_proxied = \<lparr>req_method = ''GET'', req_uri = demo_uri, req_path_and_query = Some ''/a?b'',
     req_headers = [(''host'', ''dig.local''), (''te'', ''gzip''), (''accept'', ''*'')], req_body = Some []\<rparr>"

theorem proxy_forwards_witness:
  "\<exists>q. fwd_url q = ''http://n/a?b'' \<and> fwd_headers q = [(''accept'', ''*'')]
     \<and> proxy_respond (\<lambda>_ _. True) (\<lambda>_. True) demo_send
           (local_node_target 9778 (default_config\<lparr>node_url := Some ''http://n/''\<rparr>)) demo_proxied 0
       = (\<lparr>status = 200, headers = [(''etag'', ''7'')], body = [1, 2]\<rparr>, snd (demo_send q 0))"
proof -
  obtain r w' where p: "proxy_respond (\<lambda>_ _. True) (\<lambda>_. True) demo_send (local_node_target 9778 (default_config\<lparr>node_url := Some ''http://n/''\<rparr>)) demo_proxied 0
      = (r, w')"
    by (rule prod.exhaust)
  have c: "\<not> end_to_end (''host'', ''dig.local'')" "\<not> end_to_end (''te'', ''gzip'')" "\<not> end_to_end (''Keep-Alive'', ''5'')"
    "end_to_end (''accept'', ''*'')" "textual (''accept'', ''*'')" "end_to_end (''etag'', ''7'')"
    "trim_end_matches CHR ''/'' ''http://n/'' = ''http://n''"
    by code_simp+
  have ev: "filter (\<lambda>h. end_to_end h \<and> textual h) (req_headers demo_proxied) = [(''accept'', ''*'')]"
    "filter end_to_end [(''Keep-Alive'', ''5''), (''etag'', ''7'')] = [(''etag'', ''7'')]"
    "unwrap_or (map_option (trim_end_matches CHR ''/'') (node_url (default_config\<lparr>node_url := Some ''http://n/''\<rparr>))) (''http://localhost:'' @ show_word (9778 :: u16))
       @ unwrap_or (req_path_and_query demo_proxied) ''/'' = ''http://n/a?b''"
    by (simp_all add: demo_proxied_def c)
  from proxy_forwards [OF p, unfolded ev not_True_eq_False if_False] obtain q :: forwarded where
    "fwd_url q = ''http://n/a?b''" "fwd_headers q = [(''accept'', ''*'')]"
    "w' = Suc 0" "status r = 200" "headers r = [(''etag'', ''7'')]" "body r = [1, 2]"
    by (auto simp: demo_send_def c)
  with p show ?thesis by (auto simp: demo_send_def intro!: gateway_response.equality)
qed

end
