(* ===== verification/Service.thy ===== *)
theory Service
  imports Config Json Io SystemTool
begin

text \<open>
  \<open>src/service.rs\<close>: the install plan, the clean reinstall over a service backend, the commands of the
  CLI and the loopback probes. The trait \<open>ServiceBackend\<close> is the record \<open>service_backend\<close> of its
  operations on the world \<open>'w\<close>; what they promise is the locale \<open>service_registry\<close>, which the systemd
  backend of \<open>LinuxService\<close> implements. The first parameter of type \<open>os\<close> stands for \<open>cfg!\<close>.
\<close>

section \<open>Plans and backends\<close>

definition SERVICE_LABEL :: string where "SERVICE_LABEL = ''net.dignetwork.dig-dns''"
definition SERVICE_DISPLAY_NAME :: string where "SERVICE_DISPLAY_NAME = ''DIG NETWORK: DNS''"
definition REMOVAL_POLL_ATTEMPTS :: nat where "REMOVAL_POLL_ATTEMPTS = 40"
definition REMOVAL_POLL_INTERVAL_MS :: nat where "REMOVAL_POLL_INTERVAL_MS = 500"

definition PREFERS_USER_LEVEL :: "os \<Rightarrow> bool" where "PREFERS_USER_LEVEL p \<longleftrightarrow> p = MacOs"
definition INSTALL_REQUIRES_ELEVATION :: "os \<Rightarrow> bool" where
  "INSTALL_REQUIRES_ELEVATION p \<longleftrightarrow> p \<noteq> MacOs"

record install_plan =
  plan_label :: string
  display_name :: string
  program :: string
  args :: "string list"
  environment :: "(string \<times> string) list"
  autostart :: bool

record 'w service_backend =
  is_installed :: "'w \<Rightarrow> (io_error + bool) \<times> 'w"
  stop :: "'w \<Rightarrow> (io_error + unit) \<times> 'w"
  delete :: "'w \<Rightarrow> (io_error + unit) \<times> 'w"
  create :: "install_plan \<Rightarrow> 'w \<Rightarrow> (io_error + unit) \<times> 'w"
  start :: "'w \<Rightarrow> (io_error + unit) \<times> 'w"

record reinstall_report =
  existed :: bool
  stopped :: bool
  deleted :: bool
  created :: bool
  started :: bool

definition default_report :: reinstall_report where
  "default_report = \<lparr>existed = False, stopped = False, deleted = False, created = False, started = False\<rparr>"

text \<open>The loop of \<open>wait_for_removal\<close> with \<open>n\<close> attempts left; \<open>sleep\<close> is \<open>thread::sleep\<close>.\<close>

definition still_present_error :: io_error where
  "still_present_error = IoError KTimedOut
     (''dig-dns: service '' @ QT @ SERVICE_LABEL @ QT @ '' was deleted but is still present after ''
      @ ''waiting for removal; cannot cleanly recreate it (a handle may be held open '' @
      [CHR 0xE2, CHR 0x80, CHR 0x94] @ '' close the Services console and retry)'')"

fun wait_for_removal ::
  "nat \<Rightarrow> (nat \<Rightarrow> 'w \<Rightarrow> 'w) \<Rightarrow> 'w service_backend \<Rightarrow> 'w \<Rightarrow> (io_error + unit) \<times> 'w" where
  "wait_for_removal 0 sleep B w = (Err still_present_error, w)"
| "wait_for_removal (Suc n) sleep B w =
     io_bind (is_installed B w) (\<lambda>present w.
       if \<not> present then (Ok (), w)
       else wait_for_removal n sleep B (sleep REMOVAL_POLL_INTERVAL_MS w))"

definition reinstall ::
  "(nat \<Rightarrow> 'w \<Rightarrow> 'w) \<Rightarrow> 'w service_backend \<Rightarrow> install_plan \<Rightarrow> 'w
     \<Rightarrow> (io_error + reinstall_report) \<times> 'w" where
  "reinstall sleep B plan w =
     io_bind (is_installed B w) (\<lambda>present w.
     io_bind
       (if present then
          let report = default_report\<lparr>existed := True\<rparr>;
              (s, w) = stop B w;
              report = (if is_ok s then report\<lparr>stopped := True\<rparr> else report)
          in io_bind (delete B w) (\<lambda>_ w.
             io_bind (wait_for_removal REMOVAL_POLL_ATTEMPTS sleep B w) (\<lambda>_ w.
             (Ok (report\<lparr>deleted := True\<rparr>), w)))
        else (Ok default_report, w)) (\<lambda>report w.
     io_bind (create B plan w) (\<lambda>_ w.
     io_bind (start B w) (\<lambda>_ w.
     (Ok (report\<lparr>created := True, started := True\<rparr>), w)))))"

definition build_plan :: "os \<Rightarrow> config \<Rightarrow> string \<Rightarrow> install_plan" where
  "build_plan platform cfg prog =
     (let entry_arg = (if platform = Windows then ''run-service'' else ''serve'');
          env = [(ENV_IP, show_ipv4 (loopback_ip cfg)),
                 (ENV_DNS_PORT, show_word (dns_port cfg)),
                 (ENV_HTTP_PORT, show_word (http_port cfg)),
                 (ENV_HTTP_FALLBACK_PORT, show_word (http_fallback_port cfg)),
                 (ENV_TLD, tld cfg),
                 (ENV_DNS_TTL, show_word (dns_ttl_secs cfg))]
              @ (case node_url cfg of
                   Some url \<Rightarrow> if trim url \<noteq> [] then [(ENV_NODE_URL, trim url)] else []
                 | None \<Rightarrow> [])
      in \<lparr>plan_label = SERVICE_LABEL, display_name = SERVICE_DISPLAY_NAME, program = prog,
          args = [entry_arg], environment = env, autostart = True\<rparr>)"

definition display_name_config_args :: "string \<Rightarrow> string \<Rightarrow> string list" where
  "display_name_config_args service_name dname = [''config'', service_name, ''displayname='', dname]"

section \<open>The commands\<close>

text \<open>A summary for humans and a JSON object.\<close>

type_synonym 'v service_outcome = "string \<times> 'v"

text \<open>What the commands use of the platform: the elevation check, the acquisition of the backend (with
  whether it works at user level) and the path of the program to install.\<close>

record 'w platform_ops =
  has_required_elevation :: "'w \<Rightarrow> bool \<times> 'w"
  new_backend :: "io_error + 'w service_backend \<times> bool"
  resolve_install_program :: "'w \<Rightarrow> (io_error + string) \<times> 'w"
  thread_sleep :: "nat \<Rightarrow> 'w \<Rightarrow> 'w"

text \<open>\<open>has_required_elevation\<close> on Windows; where a tool lies does not depend on what exists there.\<close>

definition elevation_windows :: "'w sys_ops \<Rightarrow> string \<Rightarrow> 'w \<Rightarrow> bool \<times> 'w" where
  "elevation_windows S system32 w =
     (let (r, w') = cmd_status S (resolve_system_tool Windows system32 (\<lambda>p. False) ''net'')
                      [''session''] w
      in (case r of Inl e \<Rightarrow> False | Inr success \<Rightarrow> success, w'))"

definition elevation_refusal :: "os \<Rightarrow> string \<Rightarrow> io_error" where
  "elevation_refusal platform action =
     IoError KPermissionDenied
       (''dig-dns: '' @ action @ '' the service requires '' @
        (if platform = Windows
         then ''an elevated (Administrator) console. Re-run this in a terminal opened with '' @ QT
              @ ''Run as administrator'' @ QT @ ''.''
         else ''root. Re-run with sudo.''))"

text \<open>\<open>if INSTALL_REQUIRES_ELEVATION && !has_required_elevation()\<close>.\<close>

definition elevation_missing :: "os \<Rightarrow> 'w platform_ops \<Rightarrow> 'w \<Rightarrow> bool \<times> 'w" where
  "elevation_missing platform P w =
     (if INSTALL_REQUIRES_ELEVATION platform
      then let (ok, w') = has_required_elevation P w in (\<not> ok, w')
      else (False, w))"

definition install ::
  "os \<Rightarrow> 'v json_ops \<Rightarrow> 'w platform_ops \<Rightarrow> config \<Rightarrow> 'w \<Rightarrow> (io_error + 'v service_outcome) \<times> 'w" where
  "install platform J P cfg w =
     (let (missing, w) = elevation_missing platform P w
      in if missing then (Err (elevation_refusal platform ''installing''), w)
         else case new_backend P of
             Inl e \<Rightarrow> (Err e, w)
           | Inr (B, user_level) \<Rightarrow>
               io_bind (resolve_install_program P w) (\<lambda>prog w.
               io_bind (reinstall (thread_sleep P) B (build_plan platform cfg prog) w) (\<lambda>report w.
               let scope = (if user_level then ''user'' else ''system'');
                   action = (if existed report
                     then ''reinstalled (stopped + deleted the existing service, then recreated it)''
                     else ''installed'');
                   addr = show_ipv4 (loopback_ip cfg) @ '':'' @ show_word (http_port cfg)
               in (Ok (''dig-dns: '' @ action @ '' as a '' @ scope @ ''-level service'' @ NL @
                       ''  id:      '' @ SERVICE_LABEL @ NL @
                       ''  display: '' @ SERVICE_DISPLAY_NAME @ NL @
                       ''  program: '' @ prog @ NL @
                       ''  serves:  http://'' @ addr @ '' (+ DNS :'' @ show_word (dns_port cfg) @ '')'' @ NL @
                       ''  The service was started; check it with: dig-dns status'',
                       jobj J [(''installed'', jbool J True),
                               (''reinstalled'', jbool J (existed report)),
                               (''started'', jbool J (started report)),
                               (''label'', jstr J SERVICE_LABEL),
                               (''display_name'', jstr J SERVICE_DISPLAY_NAME),
                               (''scope'', jstr J scope),
                               (''program'', jstr J prog),
                               (''addr'', jstr J addr)]), w))))"

definition uninstall ::
  "os \<Rightarrow> 'v json_ops \<Rightarrow> 'w platform_ops \<Rightarrow> 'w \<Rightarrow> (io_error + 'v service_outcome) \<times> 'w" where
  "uninstall platform J P w =
     (let (missing, w) = elevation_missing platform P w
      in if missing then (Err (elevation_refusal platform ''uninstalling''), w)
         else case new_backend P of
             Inl e \<Rightarrow> (Err e, w)
           | Inr (B, user_level) \<Rightarrow>
               let (s, w) = stop B w
               in io_bind (delete B w) (\<lambda>_ w.
                  (Ok (''dig-dns: uninstalled service '' @ QT @ SERVICE_LABEL @ QT,
                       jobj J [(''installed'', jbool J False), (''label'', jstr J SERVICE_LABEL)]), w)))"

definition start_service ::
  "'v json_ops \<Rightarrow> 'w platform_ops \<Rightarrow> 'w \<Rightarrow> (io_error + 'v service_outcome) \<times> 'w" where
  "start_service J P w =
     (case new_backend P of
        Inl e \<Rightarrow> (Err e, w)
      | Inr (B, user_level) \<Rightarrow>
          io_bind (start B w) (\<lambda>_ w.
          (Ok (''dig-dns: start requested for '' @ QT @ SERVICE_LABEL @ QT,
               jobj J [(''started'', jbool J True), (''label'', jstr J SERVICE_LABEL)]), w)))"

definition stop_service ::
  "'v json_ops \<Rightarrow> 'w platform_ops \<Rightarrow> 'w \<Rightarrow> (io_error + 'v service_outcome) \<times> 'w" where
  "stop_service J P w =
     (case new_backend P of
        Inl e \<Rightarrow> (Err e, w)
      | Inr (B, user_level) \<Rightarrow>
          io_bind (stop B w) (\<lambda>_ w.
          (Ok (''dig-dns: stop requested for '' @ QT @ SERVICE_LABEL @ QT,
               jobj J [(''stopped'', jbool J True), (''label'', jstr J SERVICE_LABEL)]), w)))"

section \<open>Loopback probes\<close>

text \<open>A TCP stream of the standard library, with the timeouts the code sets. A failed call is \<open>None\<close> or
  \<open>False\<close>, as the code treats it; received bytes are the text \<open>String::from_utf8_lossy\<close> makes of them.\<close>

record ('c, 'w) tcp_ops =
  tcp_connect :: "ipv4 \<times> u16 \<Rightarrow> 'w \<Rightarrow> 'c option \<times> 'w"
  tcp_write_all :: "'c \<Rightarrow> string \<Rightarrow> 'w \<Rightarrow> bool \<times> 'w"
  tcp_read :: "'c \<Rightarrow> nat \<Rightarrow> 'w \<Rightarrow> string option \<times> 'w"
  tcp_read_to_end :: "'c \<Rightarrow> 'w \<Rightarrow> string option \<times> 'w"

text \<open>\<open>addr.parse::<SocketAddr>()\<close> of an IPv4 address and a port.\<close>

definition parse_socket_addr :: "string \<Rightarrow> (ipv4 \<times> u16) option" where
  "parse_socket_addr s =
     (case split_once CHR '':'' s of
        None \<Rightarrow> None
      | Some (h, p) \<Rightarrow> (case (parse_ipv4 h, parse_u16 p) of
            (Some ip, Some port) \<Rightarrow> Some (ip, port)
          | _ \<Rightarrow> None))"

definition is_2xx_status_line :: "string \<Rightarrow> bool" where
  "is_2xx_status_line response_head =
     (let first = (case str_lines response_head of [] \<Rightarrow> [] | l # _ \<Rightarrow> l)
      in if \<not> starts_with first ''HTTP/'' then False
         else case slice_get (split_whitespace first) 1 of
             None \<Rightarrow> False
           | Some code \<Rightarrow> (case parse_u16 code of
                 None \<Rightarrow> False
               | Some c \<Rightarrow> 200 \<le> c \<and> c < 300))"

definition split_http_message :: "string \<Rightarrow> (string \<times> string) option" where
  "split_http_message response =
     (case split_at_str (CRLF @ CRLF) response of
        Some p \<Rightarrow> Some p
      | None \<Rightarrow> split_at_str (NL @ NL) response)"

definition probe_request :: "string \<Rightarrow> string \<Rightarrow> string" where
  "probe_request path addr =
     ''GET '' @ path @ '' HTTP/1.0'' @ CRLF @ ''Host: '' @ addr @ CRLF @ ''Connection: close'' @ CRLF @ CRLF"

definition fetch_control_body ::
  "('c, 'w) tcp_ops \<Rightarrow> string \<Rightarrow> u16 \<Rightarrow> string \<Rightarrow> 'w \<Rightarrow> string option \<times> 'w" where
  "fetch_control_body T ip port path w =
     (let addr = ip @ '':'' @ show_word port
      in case parse_socket_addr addr of
           None \<Rightarrow> (None, w)
         | Some sa \<Rightarrow>
             (case tcp_connect T sa w of
                (None, w) \<Rightarrow> (None, w)
              | (Some c, w) \<Rightarrow>
                  (case tcp_write_all T c (probe_request path addr) w of
                     (False, w) \<Rightarrow> (None, w)
                   | (True, w) \<Rightarrow>
                       (case tcp_read_to_end T c w of
                          (None, w) \<Rightarrow> (None, w)
                        | (Some txt, w) \<Rightarrow>
                            (Option.bind (split_http_message txt) (\<lambda>(head, body).
                               if is_2xx_status_line head then Some body else None), w)))))"

definition probe_resolve :: "('c, 'w) tcp_ops \<Rightarrow> string \<Rightarrow> u16 \<Rightarrow> 'w \<Rightarrow> bool \<times> 'w" where
  "probe_resolve T ip port w =
     (let addr = ip @ '':'' @ show_word port
      in case parse_socket_addr addr of
           None \<Rightarrow> (False, w)
         | Some sa \<Rightarrow>
             (case tcp_connect T sa w of
                (None, w) \<Rightarrow> (False, w)
              | (Some c, w) \<Rightarrow>
                  (case tcp_write_all T c (probe_request ''/.dig/resolve-probe'' addr) w of
                     (False, w) \<Rightarrow> (False, w)
                   | (True, w) \<Rightarrow>
                       (let (r, w) = tcp_read T c 256 w
                        in (is_2xx_status_line (unwrap_or r []), w)))))"

definition probe_serving :: "('c, 'w) tcp_ops \<Rightarrow> config \<Rightarrow> 'w \<Rightarrow> bool \<times> 'w" where
  "probe_serving T cfg w =
     (let ip = show_ipv4 (loopback_ip cfg); (ok, w) = probe_resolve T ip (http_port cfg) w
      in if ok then (True, w) else probe_resolve T ip (http_fallback_port cfg) w)"

definition health ::
  "'v json_ops \<Rightarrow> (string \<Rightarrow> 'v option) \<Rightarrow> ('c, 'w) tcp_ops \<Rightarrow> config \<Rightarrow> 'w
     \<Rightarrow> 'v service_outcome \<times> 'w" where
  "health J from_str T cfg w =
     (let ip = show_ipv4 (loopback_ip cfg);
          (fetched, w) = (case fetch_control_body T ip (http_port cfg) ''/.dig/health'' w of
              (Some b, w) \<Rightarrow> (Some b, w)
            | (None, w) \<Rightarrow> fetch_control_body T ip (http_fallback_port cfg) ''/.dig/health'' w)
      in (case Option.bind fetched from_str of
            Some h \<Rightarrow>
              (let bound = (case Option.bind (jget J h ''bound_port'') (as_u64 J) of
                     Some p \<Rightarrow> ip @ '':'' @ show_word p
                   | None \<Rightarrow> ip @ '':'' @ show_word (http_port cfg));
                   node_reachable = unwrap_or (Option.bind (Option.bind (jget J h ''node'')
                     (\<lambda>n. jget J n ''reachable'')) (as_bool J)) False
               in (''dig-dns: SERVING on http://'' @ bound @ '' (node reachable: ''
                     @ (if node_reachable then ''true'' else ''false'') @ '')'',
                   jobj J [(''serving'', jbool J True), (''health'', h)]))
          | None \<Rightarrow>
              (''dig-dns: NOT responding on http://'' @ ip @ '':'' @ show_word (http_port cfg) @ '' ''
                 @ [CHR 0xE2, CHR 0x80, CHR 0x94]
                 @ '' the service may be stopped or not installed (see: dig-dns status)'',
               jobj J [(''serving'', jbool J False), (''label'', jstr J SERVICE_LABEL)]), w))"

section \<open>The reinstall\<close>

lemma wait_for_removal_Ok:
  "wait_for_removal n sleep B w = (Ok u, w') \<Longrightarrow> \<exists>v. is_installed B v = (Ok False, w')"
  by (induction n arbitrary: w) (auto simp: io_bind_Ok_iff split: if_splits)

lemma reinstall_Ok_iff:
  "reinstall sleep B plan w = (Ok report, w') \<longleftrightarrow>
     (\<exists>present w1 w5 w6. is_installed B w = (Ok present, w1)
        \<and> (if present
           then \<exists>s w2 w3. stop B w1 = (s, w2) \<and> delete B w2 = (Ok (), w3)
                  \<and> wait_for_removal REMOVAL_POLL_ATTEMPTS sleep B w3 = (Ok (), w5)
                  \<and> report = \<lparr>existed = True, stopped = is_ok s, deleted = True,
                              created = True, started = True\<rparr>
           else w5 = w1 \<and> report = \<lparr>existed = False, stopped = False, deleted = False,
                                    created = True, started = True\<rparr>)
        \<and> create B plan w5 = (Ok (), w6) \<and> start B w6 = (Ok (), w'))"
proof (cases "is_installed B w")
  case (Pair r w1)
  obtain s w2 where s: "stop B w1 = (s, w2)" by fastforce
  with Pair show ?thesis
  proof (cases r)
    case (Inr present)
    with Pair s show ?thesis
      by (cases present; cases "is_ok s")
         (simp_all add: reinstall_def io_bind_assoc Let_def, simp_all add: io_bind_Ok_iff default_report_def,
          safe, blast+)
  qed (simp add: reinstall_def)
qed

text \<open>Two backends that differ only in what \<open>create\<close> does to a state in which the service is still
  registered behave alike.\<close>

lemma wait_for_removal_create [simp]:
  "wait_for_removal n sleep (B\<lparr>create := c\<rparr>) w = wait_for_removal n sleep B w"
  by (induction n arbitrary: w) (simp_all cong: if_cong)

section \<open>What a backend promises\<close>

text \<open>In the states \<open>ok\<close>, \<open>installed\<close> is whether a registration exists and \<open>registered plan\<close> whether it is the
  one of the plan: asking answers truly and changes nothing, deleting removes the registration, creating
  makes the one of the plan, and stopping and starting keep it.\<close>

locale service_registry =
  fixes B :: "'w service_backend" and ok :: "'w \<Rightarrow> bool" and installed :: "'w \<Rightarrow> bool"
    and registered :: "install_plan \<Rightarrow> 'w \<Rightarrow> bool"
  assumes asked: "ok w \<Longrightarrow> is_installed B w = (r, w') \<Longrightarrow> r = Ok (installed w) \<and> w' = w"
    and stop_keeps: "ok w \<Longrightarrow> stop B w = (s, w') \<Longrightarrow> (registered plan w \<longrightarrow> registered plan w') \<and> ok w'"
    and deleted: "ok w \<Longrightarrow> delete B w = (Ok u, w') \<Longrightarrow> \<not> installed w' \<and> ok w'"
    and created: "ok w \<Longrightarrow> create B plan w = (Ok u, w') \<Longrightarrow> registered plan w' \<and> ok w'"
    and start_keeps: "ok w \<Longrightarrow> start B w = (s, w') \<Longrightarrow> (registered plan w \<longrightarrow> registered plan w') \<and> ok w'"
    and registered_installed: "registered plan w \<Longrightarrow> ok w \<Longrightarrow> installed w"
begin

lemma wait_immediate:
  assumes "ok w" "\<not> installed w"
  shows "wait_for_removal (Suc n) sleep B w = (Ok (), w)"
proof -
  obtain r w' where i: "is_installed B w = (r, w')" by fastforce
  from asked [OF assms(1) i] assms(2) i show ?thesis by simp
qed

lemma reinstall_Ok:
  assumes "ok w" "reinstall sleep B plan w = (Ok report, w')"
  shows "registered plan w' \<and> ok w' \<and> existed report = installed w \<and> deleted report = installed w
    \<and> created report \<and> started report"
proof -
  from assms(2) obtain b w1 w5 w6 where i: "is_installed B w = (Ok b, w1)"
    and r: "existed report = b" "deleted report = b" "created report" "started report"
    and branch: "if b then \<exists>s w2 w3. stop B w1 = (s, w2) \<and> delete B w2 = (Ok (), w3)
        \<and> wait_for_removal REMOVAL_POLL_ATTEMPTS sleep B w3 = (Ok (), w5) else w5 = w1"
    and c: "create B plan w5 = (Ok (), w6)" "start B w6 = (Ok (), w')"
    by (auto simp: reinstall_Ok_iff split: if_splits)
  have a: "b = installed w" "w1 = w" using asked [OF assms(1) i] by auto
  have "ok w5"
  proof (cases b)
    case True
    with branch obtain s w2 w3 where sd: "stop B w1 = (s, w2)" "delete B w2 = (Ok (), w3)"
      and w: "wait_for_removal REMOVAL_POLL_ATTEMPTS sleep B w3 = (Ok (), w5)" by auto
    have "ok w2" using stop_keeps [of w1 s w2] sd a assms(1) by simp
    with deleted [of w2] sd have "\<not> installed w3" "ok w3" by auto
    with wait_immediate [of w3 39 sleep] w show ?thesis by (simp add: REMOVAL_POLL_ATTEMPTS_def)
  qed (use branch a assms(1) in simp)
  with created [of w5] c(1) have "registered plan w6" "ok w6" by auto
  with start_keeps [of w6] c(2) r a show ?thesis by auto
qed

text \<open>Right after a successful reinstall, another one finds the service and recreates it.\<close>

lemma reinstall_again:
  assumes "ok w" "reinstall sleep B plan w = (Ok report, w')" "reinstall sleep B plan' w' = (Ok report', w'')"
  shows "existed report' \<and> registered plan' w''"
  using reinstall_Ok [OF assms(1,2)] reinstall_Ok [of w', OF _ assms(3)] registered_installed by blast

end

section \<open>Properties\<close>

text \<open>C23. The clean reinstall never creates onto an existing registration: whatever the backend answers,
  and whichever call fails, \<open>create\<close> is only ever applied to a state in which the backend has just
  answered that the service is not installed. What \<open>create\<close> would do elsewhere cannot matter.\<close>

theorem reinstall_creates_only_when_absent:
  assumes "\<And>v v'. is_installed B v = (Ok False, v') \<Longrightarrow> c plan v' = create B plan v'"
  shows "reinstall sleep (B\<lparr>create := c\<rparr>) plan w = reinstall sleep B plan w"
proof -
  obtain r w1 where i: "is_installed B w = (r, w1)" by fastforce
  obtain s w2 where s: "stop B w1 = (s, w2)" by fastforce
  show ?thesis
  proof (cases r)
    case (Inr present)
    show ?thesis
    proof (cases present)
      case True
      have eq: "io_bind (wait_for_removal n sleep B v) (\<lambda>a w. io_bind (c plan w) g)
          = io_bind (wait_for_removal n sleep B v) (\<lambda>a w. io_bind (create B plan w) g)" for n v g
        by (rule io_bind_cong_Ok) (auto dest!: wait_for_removal_Ok simp: assms)
      from i s Inr True show ?thesis
        by (simp add: reinstall_def Let_def io_bind_assoc eq)
    next
      case False
      with i Inr assms [of w w1] show ?thesis
        by (simp add: reinstall_def)
    qed
  qed (simp add: reinstall_def i)
qed

text \<open>C24. The installed service runs on the configuration it was installed with: loading the baked
  environment reproduces every field that \<open>build_plan\<close> bakes (the node URL trimmed, a blank one
  dropped). The three fields it does not bake, the \<open>dig.local\<close> address and port and the upstream toggle,
  come back as their defaults, whatever the installing invocation had.\<close>

theorem build_plan_environment:
  assumes "config_ok cfg"
  shows "from_env (map_of (environment (build_plan platform cfg prog)))
    = Ok (cfg\<lparr>node_url := opt_filter (\<lambda>s. s \<noteq> []) (map_option trim (node_url cfg)),
               dig_local_ip := Ipv4Addr 127 0 0 2, dig_local_port := 80, secure_upstream := True\<rparr>)"
    (is "from_env ?get = Ok ?cfg")
proof (rule from_env_complete)
  have ports: "dns_port cfg \<noteq> 0" "http_port cfg \<noteq> 0" "http_fallback_port cfg \<noteq> 0"
    and t: "is_safe_tld (tld cfg)"
    using assms by (auto simp: config_ok_def)
  have get: "?get ENV_IP = Some (show_ipv4 (loopback_ip cfg))"
    "?get ENV_DNS_PORT = Some (show_word (dns_port cfg))"
    "?get ENV_HTTP_PORT = Some (show_word (http_port cfg))"
    "?get ENV_HTTP_FALLBACK_PORT = Some (show_word (http_fallback_port cfg))"
    "?get ENV_TLD = Some (tld cfg)" "?get ENV_DNS_TTL = Some (show_word (dns_ttl_secs cfg))"
    "?get ENV_NODE_URL = opt_filter (\<lambda>s. s \<noteq> []) (map_option trim (node_url cfg))"
    "?get ENV_DIG_LOCAL_IP = None" "?get ENV_DIG_LOCAL_PORT = None" "?get ENV_SECURE_UPSTREAM = None"
    by (simp_all add: build_plan_def Let_def env_names split: option.splits)
  show "env_spec ?get ?cfg"
    unfolding env_spec_def get
    by (simp add: env_value_def parse_ip_var_def parse_port_def parse_ttl_var_def ports t
        normalize_safe_tld trim_simps opt_filter_def split: option.splits)
  show "config_ok ?cfg"
    using assms set_trim [of "the (node_url cfg)"]
    by (auto simp: config_ok_def is_safe_node_url_def list_ex_iff opt_filter_def
        split: option.splits)
qed

theorem build_plan_environment_witness:
  "from_env (map_of (environment (build_plan Linux
      (default_config\<lparr>http_port := 8080, dig_local_port := 8081\<rparr>) ''/bin/x'')))
    = Ok (default_config\<lparr>http_port := 8080\<rparr>)"
proof -
  have "config_ok (default_config\<lparr>http_port := 8080, dig_local_port := 8081\<rparr>)"
    using default_config_ok by (simp add: config_ok_def default_config_def)
  from build_plan_environment [OF this, of Linux "''/bin/x''"] show ?thesis
    by (simp add: default_config_def)
qed

theorem reinstall_creates_only_when_absent_witness:
  "reinstall (\<lambda>_ w. w)
     (\<lparr>is_installed = \<lambda>w. (Ok w, w), stop = \<lambda>w. (Ok (), w), delete = \<lambda>w. (Ok (), False),
       create = \<lambda>_ w. (if w then Err (io_other ''1073'') else Ok (), True),
       start = \<lambda>w. (Ok (), w)\<rparr>\<lparr>create := \<lambda>_ w. (Ok (), True)\<rparr>) (build_plan Linux default_config ''/x'') True
   = reinstall (\<lambda>_ w. w)
     \<lparr>is_installed = \<lambda>w. (Ok w, w), stop = \<lambda>w. (Ok (), w), delete = \<lambda>w. (Ok (), False),
       create = \<lambda>_ w. (if w then Err (io_other ''1073'') else Ok (), True),
       start = \<lambda>w. (Ok (), w)\<rparr> (build_plan Linux default_config ''/x'') True"
  by (rule reinstall_creates_only_when_absent) simp

end
