(* ===== verification/Artifacts.thy ===== *)
theory Artifacts
  imports Fs
begin

text \<open>
  The small I/O helpers of \<open>src/os_config.rs\<close>, on Unix: the ownership markers, the symlink-safe atomic
  writer (also used for the systemd unit) and the idempotent writer and remover built on it.
\<close>

definition MARKER :: string where "MARKER = ''managed by dig-dns configure-os''"
definition LEGACY_INSTALLER_MARKER :: string where
  "LEGACY_INSTALLER_MARKER = ''managed by dig-installer (dig-dns, task #177)''"

definition content_is_ours :: "string \<Rightarrow> ipv4 \<Rightarrow> bool" where
  "content_is_ours content our_ip \<longleftrightarrow>
     contains_str content MARKER \<or> contains_str content LEGACY_INSTALLER_MARKER
     \<or> trim content = ''nameserver '' @ show_ipv4 our_ip"

text \<open>The sibling temporary file of \<open>path\<close> for the process \<open>pid\<close>.\<close>

definition temp_path :: "nat \<Rightarrow> path \<Rightarrow> path" where
  "temp_path pid p = butlast p @ [''.'' @ last p @ ''.dig-dns.'' @ show_nat pid @ ''.tmp'']"

definition atomic_write :: "nat \<Rightarrow> path \<Rightarrow> string \<Rightarrow> fsys \<Rightarrow> (string + unit) \<times> fsys" where
  "atomic_write pid p content w =
     (if p = [] then (Err (show_path p @ '': no parent directory''), w)
      else if last p = ''..'' then (Err (show_path p @ '': no file name''), w)
      else
        let tmp = temp_path pid p;
            (opened, w) = io_bind (open_create_new tmp 0x1A4 w) (\<lambda>f w.
                          io_bind (write_all f content w) (\<lambda>_ w.
                          sync_all f w))
        in case opened of
             Inl e \<Rightarrow> (Err (''write '' @ show_path tmp @ '': '' @ message e), w)
           | Inr u \<Rightarrow>
               (case rename_file tmp p w of
                  (Inl e, w) \<Rightarrow>
                    let (ignored, w) = remove_file tmp w
                    in (Err (''install '' @ show_path p @ '': '' @ message e), w)
                | (Inr u, w) \<Rightarrow> (Ok (), w)))"

definition file_is_ours :: "fsys \<Rightarrow> path \<Rightarrow> ipv4 \<Rightarrow> bool" where
  "file_is_ours w p our_ip =
     (case read_to_string w p of Inl e \<Rightarrow> False | Inr c \<Rightarrow> content_is_ours c our_ip)"

definition write_if_changed :: "nat \<Rightarrow> path \<Rightarrow> string \<Rightarrow> fsys \<Rightarrow> (string + bool) \<times> fsys" where
  "write_if_changed pid p content w =
     (if read_to_string w p = Ok content then (Ok False, w)
      else
        let (made, w) = (case path_parent p of
               None \<Rightarrow> (Ok (), w)
             | Some parent \<Rightarrow>
                 (case create_dir_all parent w of
                    (Inl e, w) \<Rightarrow> (Err (''create '' @ show_path parent @ '': '' @ message e), w)
                  | (Inr u, w) \<Rightarrow> (Ok (), w)))
        in case made of
             Inl e \<Rightarrow> (Err e, w)
           | Inr u \<Rightarrow>
               (case atomic_write pid p content w of
                  (Inl e, w) \<Rightarrow> (Err e, w)
                | (Inr u, w) \<Rightarrow> (Ok True, w)))"

definition remove_if_ours :: "path \<Rightarrow> ipv4 \<Rightarrow> fsys \<Rightarrow> (string + bool) \<times> fsys" where
  "remove_if_ours p our_ip w =
     (if file_is_ours w p our_ip then
        (case remove_file p w of
           (Inl e, w) \<Rightarrow> (Err (''remove '' @ show_path p @ '': '' @ message e), w)
         | (Inr u, w) \<Rightarrow> (Ok True, w))
      else (Ok False, w))"

section \<open>The atomic writer\<close>

lemma temp_path_props:
  assumes "p \<noteq> []"
  shows "temp_path pid p \<noteq> p" "temp_path pid p \<noteq> []" "butlast (temp_path pid p) = butlast p"
    "length (temp_path pid p) = length p" "last (temp_path pid p) \<noteq> ''..''"
proof -
  have "length (last (temp_path pid p)) > length (last p)"
    by (simp add: temp_path_def)
  then show "temp_path pid p \<noteq> p" by auto
  have "length (last (temp_path pid p)) > 2"
    by (simp add: temp_path_def)
  then show "last (temp_path pid p) \<noteq> ''..''" by auto
qed (use assms in \<open>simp_all add: temp_path_def\<close>)

lemma take_temp_path:
  assumes "p \<noteq> []" "n < length p"
  shows "take n (temp_path pid p) = take n p"
  using assms by (simp add: temp_path_def take_butlast)

lemma real_temp_path:
  assumes "p \<noteq> []" "real_path t p"
  shows "real_path t (temp_path pid p)"
proof -
  have "set (temp_path pid p) = set (butlast p) \<union> {last (temp_path pid p)}"
    using temp_path_props(2,3) [OF assms(1), of pid]
    by (metis append_butlast_last_id set_append list.set(1,2))
  with assms temp_path_props [of p pid] take_temp_path [of p] show ?thesis
    by (auto simp: real_path_iff dest: in_set_butlastD)
qed

lemma real_path_same_dir:
  assumes "p \<noteq> []" "real_path t p"
  shows "real_path (t(temp_path pid p := x)) p" "real_path (t(p := x)) (temp_path pid p)"
  using assms real_temp_path [OF assms, of pid] temp_path_props(4) [of p pid] take_temp_path [of p _ pid]
  by (auto simp: real_path_iff is_dir_at_def) (metis length_take less_irrefl min.absorb4)+

text \<open>Without injected faults the writer fails only on a leftover temporary file or a directory in its way.\<close>

lemma atomic_write_succeeds:
  assumes "p \<noteq> []" "real_path (lookup w) p" "faults w = []"
    and "lookup w (temp_path pid p) = None" "\<not> is_dir_at (lookup w) p"
  shows "is_ok (fst (atomic_write pid p content w))"
proof -
  let ?t = "temp_path pid p"
  have last: "last p \<noteq> ''..''"
    using assms(1,2) by (metis last_in_set real_path_iff)
  have r1: "resolve_path w False ?t = Ok ?t"
    by (rule resolve_real [OF real_temp_path [OF assms(1,2)]]) simp
  have r2: "resolve_path v False p = Ok p" "resolve_path v False ?t = Ok ?t"
    if "lookup v = (lookup w)(?t \<mapsto> e)" for v e
    using that real_path_same_dir(1) [OF assms(1,2), of pid "Some e"]
      real_path_upd_self [OF real_temp_path [OF assms(1,2), of pid]]
    by (auto intro!: resolve_real)
  have [simp]: "p \<noteq> ?t" "?t \<noteq> p" using temp_path_props(1) [OF assms(1), of pid] by auto
  have f: "faulty g v = g v" if "faults v = []" for g :: "fsys \<Rightarrow> (io_error + 'a) \<times> fsys" and v
    using that by (simp add: faulty_def)
  show ?thesis
    using assms(1,3-5) last r1
    by (auto simp: atomic_write_def open_create_new_def f write_all_def sync_all_def rename_file_def
        put_entry_def [THEN arg_cong [where f = faults]] r2 is_dir_at_Some Let_def
        split: option.splits)
qed

lemma atomic_write_cases:
  assumes "p \<noteq> []" "real_path (lookup w) p" "atomic_write pid p content w = (r, w')"
  shows "(is_ok r \<and> (\<exists>e. fnode e = File content \<and> fuid e = 0 \<and> lookup w' = (lookup w)(p \<mapsto> e)))
    \<or> (\<not> is_ok r \<and> (\<forall>q. q \<noteq> temp_path pid p \<longrightarrow> lookup w' q = lookup w q))"
proof -
  let ?t = "temp_path pid p"
  have last: "last p \<noteq> ''..''"
    using assms(1,2) by (metis last_in_set real_path_iff)
  note ne = temp_path_props(1) [OF assms(1), of pid]
  note rt = real_temp_path [OF assms(1,2), of pid]
  obtain r1 w1 where o: "open_create_new ?t 0x1A4 w = (r1, w1)" by fastforce
  show ?thesis
  proof (cases r1)
    case (Inl e)
    with open_create_new_Err o have "lookup w1 = lookup w" by blast
    with assms(1,3) last o Inl show ?thesis by (auto simp: atomic_write_def)
  next
    case (Inr f)
    with open_create_new_Ok o rt have f: "f = ?t" "lookup w ?t = None"
      "lookup w1 = (lookup w)(?t \<mapsto> new_entry w (File []) 0x1A4)" by blast+
    obtain r2 w2 where wr: "write_all ?t content w1 = (r2, w2)" by fastforce
    show ?thesis
    proof (cases r2)
      case (Inl e)
      with write_all_Err wr have "lookup w2 = lookup w1" by blast
      with assms(1,3) last o \<open>r1 = Inr f\<close> f wr Inl show ?thesis by (auto simp: atomic_write_def)
    next
      case r2: (Inr u)
      let ?e = "(new_entry w (File []) 0x1A4)\<lparr>fnode := File content\<rparr>"
      have w2: "lookup w2 = (lookup w)(?t \<mapsto> ?e)"
        using write_all_Ok [OF wr [unfolded r2], of "new_entry w (File []) 0x1A4"] f by simp
      obtain r3 w3 where sy: "sync_all ?t w2 = (r3, w3)" by fastforce
      with sync_all_lookup w2 have w3: "lookup w3 = (lookup w)(?t \<mapsto> ?e)" by metis
      show ?thesis
      proof (cases r3)
        case (Inl e)
        with assms(1,3) last o Inr f wr r2 sy w3 show ?thesis by (auto simp: atomic_write_def)
      next
        case r3: (Inr u3)
        have real: "real_path (lookup w3) ?t" "real_path (lookup w3) p"
          using real_path_upd_self [OF rt] real_path_same_dir(1) [OF assms(1,2), of pid] by (simp_all add: w3)
        obtain r4 w4 where rn: "rename_file ?t p w3 = (r4, w4)" by fastforce
        show ?thesis
        proof (cases r4)
          case (Inr u4)
          with rename_file_Ok rn real ne obtain e where "lookup w3 ?t = Some e"
            "lookup w4 = (lookup w3)(?t := None, p \<mapsto> e)" by blast
          then have "lookup w4 = (lookup w)(p \<mapsto> ?e)"
            using w3 f(2) by auto
          with assms(1,3) last o \<open>r1 = Inr f\<close> f wr r2 sy r3 rn Inr show ?thesis
            by (auto simp: atomic_write_def intro!: exI [of _ ?e])
        next
          case (Inl e4)
          with rename_file_Err rn have w4: "lookup w4 = lookup w3" by blast
          obtain r5 w5 where rm: "remove_file ?t w4 = (r5, w5)" by fastforce
          have "lookup w5 q = lookup w q" if "q \<noteq> ?t" for q
            using remove_file_cases [OF rm] real w4 w3 that by auto
          with assms(1,3) last o \<open>r1 = Inr f\<close> f wr r2 sy r3 rn Inl rm show ?thesis
            by (auto simp: atomic_write_def)
        qed
      qed
    qed
  qed
qed

section \<open>The idempotent writer\<close>

lemma linkfree_parent:
  assumes "linkfree t p" "p \<noteq> []"
  shows "linkfree t (butlast p)" "\<not> is_link_at t (butlast p)"
proof -
  show "linkfree t (butlast p)" using assms(1) by (rule linkfree_butlast)
  have "length p - 1 < length p" using assms(2) by simp
  then show "\<not> is_link_at t (butlast p)"
    using assms(1) by (simp add: linkfree_iff butlast_conv_take)
qed

lemma real_path_from_parent:
  assumes "real_path t (butlast p)" "is_dir_at t (butlast p)" "''..'' \<notin> set p"
  shows "real_path t p"
proof -
  have "is_dir_at t (take n p)" if "n < length p" for n
  proof (cases "n = length p - 1")
    case True
    with assms(2) show ?thesis by (simp add: butlast_conv_take)
  next
    case False
    with that assms(1) show ?thesis
      by (auto simp: real_path_iff take_butlast)
  qed
  with assms(3) show ?thesis by (simp add: real_path_iff)
qed

lemma read_real_file:
  assumes "real_path (lookup w) p" "lookup w p = Some e" "fnode e = File c"
  shows "read_to_string w p = Ok c"
proof -
  have "\<not> is_link_at (lookup w) p" using assms(2,3) by (auto simp: is_link_at_Some)
  with assms show ?thesis by (simp add: read_to_string_def metadata_real)
qed

text \<open>Success leaves the content at the path, whatever was there, and changes nothing else but missing
  directories on the way.\<close>

lemma write_if_changed_Ok:
  assumes "write_if_changed pid p content w = (Ok b, w')" "linkfree (lookup w) p" "p \<noteq> []"
  shows "read_to_string w' p = Ok content
    \<and> (b \<longrightarrow> real_path (lookup w') p \<and> (\<exists>t e. dirs_added (butlast p) (lookup w) t \<and> lookup w' = t(p \<mapsto> e)
                \<and> fnode e = File content \<and> fuid e = 0))
    \<and> (\<not> b \<longrightarrow> w' = w)"
proof (cases "read_to_string w p = Ok content")
  case True
  with assms(1) show ?thesis by (auto simp: write_if_changed_def)
next
  case False
  obtain r1 w1 where d: "create_dir_all (butlast p) w = (r1, w1)" by fastforce
  obtain r2 w2 where a: "atomic_write pid p content w1 = (r2, w2)" by fastforce
  from assms(1,3) False d a have ok: "is_ok r1" "is_ok r2" "b" "w' = w2"
    by (auto simp: write_if_changed_def path_parent_def is_ok_iff split: sum.splits)
  note ad = create_dir_all_spec [OF d linkfree_parent [OF assms(2,3)]]
  have "''..'' \<notin> set p" using assms(2) by (simp add: linkfree_iff)
  with ad(2) [OF ok(1)] have real: "real_path (lookup w1) p"
    by (simp add: real_path_from_parent)
  from atomic_write_cases [OF assms(3) real a] ok(2) obtain e
    where e: "fnode e = File content" "fuid e = 0" "lookup w2 = (lookup w1)(p \<mapsto> e)" by blast
  have "real_path (lookup w2) p" using real by (simp add: e real_path_upd_self)
  with ok e ad(1) read_real_file [of w2 p e content] show ?thesis by auto
qed

lemma write_if_changed_Err:
  assumes "write_if_changed pid p content w = (Err m, w')" "linkfree (lookup w) p" "p \<noteq> []"
  shows "\<exists>t. dirs_added (butlast p) (lookup w) t \<and> (\<forall>q. q \<noteq> temp_path pid p \<longrightarrow> lookup w' q = t q)"
proof -
  have False: "read_to_string w p \<noteq> Ok content"
    using assms(1) by (auto simp: write_if_changed_def)
  obtain r1 w1 where d: "create_dir_all (butlast p) w = (r1, w1)" by fastforce
  obtain r2 w2 where a: "atomic_write pid p content w1 = (r2, w2)" by fastforce
  note ad = create_dir_all_spec [OF d linkfree_parent [OF assms(2,3)]]
  show ?thesis
  proof (cases "is_ok r1")
    case True
    with assms(1,3) False d a have "\<not> is_ok r2" "w' = w2"
      by (auto simp: write_if_changed_def path_parent_def is_ok_iff split: sum.splits)
    have "''..'' \<notin> set p" using assms(2) by (simp add: linkfree_iff)
    with ad(2) [OF True] have real: "real_path (lookup w1) p"
      by (simp add: real_path_from_parent)
    from atomic_write_cases [OF assms(3) real a] \<open>\<not> is_ok r2\<close> \<open>w' = w2\<close> ad(1)
    show ?thesis by auto
  next
    case no: False
    with assms(1,3) False d have "w' = w1"
      by (auto simp: write_if_changed_def path_parent_def is_ok_iff split: sum.splits)
    with ad(1) show ?thesis by auto
  qed
qed

lemma remove_if_ours_cases:
  assumes "remove_if_ours p ip w = (r, w')" "linkfree (lookup w) p"
  shows "(file_is_ours w p ip \<and> r = Ok True \<and> lookup w p \<noteq> None \<and> lookup w' = (lookup w)(p := None))
    \<or> (r \<noteq> Ok True \<and> lookup w' = lookup w \<and> (file_is_ours w p ip \<longrightarrow> \<not> is_ok r))"
proof (cases "file_is_ours w p ip")
  case True
  obtain r1 w1 where rm: "remove_file p w = (r1, w1)" by fastforce
  show ?thesis
  proof (cases r1)
    case (Inl e)
    with True rm assms(1) remove_file_Err show ?thesis by (auto simp: remove_if_ours_def)
  next
    case (Inr u)
    with rm have "real_path (lookup w) p"
      using resolve_linkfree [of w False p, OF _ assms(2)]
      by (auto simp: remove_file_def dest!: faulty_Ok split: sum.splits)
    with remove_file_Ok rm Inr have "\<exists>e. lookup w p = Some e \<and> lookup w1 = (lookup w)(p := None)" by blast
    with True rm Inr assms(1) show ?thesis by (auto simp: remove_if_ours_def)
  qed
qed (use assms(1) in \<open>auto simp: remove_if_ours_def\<close>)

section \<open>Properties\<close>

text \<open>C25. The privileged writer is atomic and does not follow links: with real directories above the
  path, whatever is at the path itself (a link to any file, an old version, nothing) and whichever of its
  calls fails, either it reports success and the path holds a new root-owned file with exactly the new
  content and nothing else changed, or it reports an error and every path but its own temporary file is
  as before. Without failing calls it succeeds unless a directory or a leftover temporary file is in
  the way.\<close>

theorem atomic_write_atomic:
  assumes "p \<noteq> []" "real_path (lookup w) p" "atomic_write pid p content w = (r, w')"
  shows "(is_ok r \<longrightarrow> (\<exists>e. fnode e = File content \<and> fuid e = 0 \<and> lookup w' = (lookup w)(p \<mapsto> e)))
    \<and> (\<not> is_ok r \<longrightarrow> (\<forall>q. q \<noteq> temp_path pid p \<longrightarrow> lookup w' q = lookup w q))
    \<and> (faults w = [] \<and> lookup w (temp_path pid p) = None \<and> \<not> is_dir_at (lookup w) p \<longrightarrow> is_ok r)"
  using atomic_write_cases [OF assms] atomic_write_succeeds [OF assms(1,2), of pid content] assms(3)
  by auto

text \<open>A planted link at \<open>/etc/unit\<close> and a failing \<open>fsync\<close>.\<close>

definition planted :: fsys where
  "planted = \<lparr>tree = [([], \<lparr>fnode = Dir, fuid = 0, fgid = 0, fmode = 0x1ED\<rparr>),
       ([''etc''], \<lparr>fnode = Dir, fuid = 0, fgid = 0, fmode = 0x1ED\<rparr>),
       ([''etc'', ''unit''], \<lparr>fnode = Link ''/etc/shadow'', fuid = 1000, fgid = 0, fmode = 0x1FF\<rparr>),
       ([''etc'', ''shadow''], \<lparr>fnode = File ''secret'', fuid = 0, fgid = 0, fmode = 0x180\<rparr>)],
     faults = [None, None, Some (os_error KOther)], umask = 0x12\<rparr>"

theorem atomic_write_atomic_witness:
  "lookup (snd (atomic_write 7 [''etc'', ''unit''] ''x'' planted)) [''etc'', ''unit'']
     = lookup planted [''etc'', ''unit'']
   \<and> lookup (snd (atomic_write 7 [''etc'', ''unit''] ''x'' planted)) [''etc'', ''shadow'']
     = lookup planted [''etc'', ''shadow'']"
proof -
  have r: "real_path (lookup planted) [''etc'', ''unit'']"
    by (simp add: real_path_def is_dir_at_def planted_def lookup_def upt_conv_Cons)
  have res: "resolve_path w False (temp_path 7 [''etc'', ''unit'']) = Ok (temp_path 7 [''etc'', ''unit''])"
    if "lookup w = lookup planted" for w
    by (rule resolve_real) (use real_temp_path [OF _ r, of 7] that in simp_all)
  have "lookup planted (temp_path 7 [''etc'', ''unit'']) = None"
    by (simp add: planted_def lookup_def temp_path_def)
  with res [of "planted\<lparr>faults := [None, Some (os_error KOther)]\<rparr>"]
  have "\<not> is_ok (fst (atomic_write 7 [''etc'', ''unit''] ''x'' planted))"
    by (simp add: atomic_write_def open_create_new_def faulty_def write_all_def sync_all_def Let_def
        put_entry_def lookup_def planted_def)
  with atomic_write_atomic [OF _ r, of 7 "''x''"]
  have "lookup (snd (atomic_write 7 [''etc'', ''unit''] ''x'' planted)) q = lookup planted q"
    if "q \<noteq> temp_path 7 [''etc'', ''unit'']" for q
    using that by (metis list.discI prod.collapse)
  then show ?thesis by (simp add: temp_path_def)
qed

text \<open>The idempotent writer: when it reports success the file reads back as the content, so running it
  again, in any process, reports that nothing had to be written and changes nothing.\<close>

theorem write_if_changed_idempotent:
  assumes "write_if_changed pid p content w = (Ok b, w')" "linkfree (lookup w) p" "p \<noteq> []"
  shows "write_if_changed pid' p content w' = (Ok False, w')"
  using write_if_changed_Ok [OF assms] by (simp add: write_if_changed_def)

theorem write_if_changed_idempotent_witness:
  "write_if_changed 8 [''etc'', ''d'', ''f''] ''x'' (snd (write_if_changed 7 [''etc'', ''d'', ''f''] ''x''
      (planted\<lparr>faults := []\<rparr>)))
   = (Ok False, snd (write_if_changed 7 [''etc'', ''d'', ''f''] ''x'' (planted\<lparr>faults := []\<rparr>)))"
proof (rule write_if_changed_idempotent)
  show "linkfree (lookup (planted\<lparr>faults := []\<rparr>)) [''etc'', ''d'', ''f'']"
    by (simp add: linkfree_def is_dir_at_def is_link_at_def is_link_def planted_def lookup_def upt_conv_Cons)
  show "write_if_changed 7 [''etc'', ''d'', ''f''] ''x'' (planted\<lparr>faults := []\<rparr>)
    = (Ok True, snd (write_if_changed 7 [''etc'', ''d'', ''f''] ''x'' (planted\<lparr>faults := []\<rparr>)))"
    by code_simp
qed simp

end
