(* ===== verification/Staging.thy ===== *)
theory Staging
  imports Artifacts
begin

unbundle bit_operations_syntax

text \<open>
  The Linux staging of \<open>src/service.rs\<close>: the binary a root unit will run is copied into a root-owned
  directory, after the whole prefix has been checked. The property is about what happens later: no
  unprivileged user can replace what the unit runs.
\<close>

definition LINUX_PROGRAM_DIR :: path where "LINUX_PROGRAM_DIR = [''usr'', ''local'', ''lib'', ''dig-dns'']"
definition LINUX_PROGRAM_NAME :: string where "LINUX_PROGRAM_NAME = ''dig-dns''"

definition linux_program_dest :: path where
  "linux_program_dest = LINUX_PROGRAM_DIR @ [LINUX_PROGRAM_NAME]"

section \<open>Ownership guards\<close>

definition root_owned_not_writable :: "u32 \<Rightarrow> u32 \<Rightarrow> bool" where
  "root_owned_not_writable u m \<longleftrightarrow> u = 0 \<and> m AND 0x12 = 0"

text \<open>\<open>{:o}\<close>.\<close>

fun show_octal :: "nat \<Rightarrow> string" where
  "show_octal n = (if n < 8 then [digit_char n] else show_octal (n div 8) @ [digit_char (n mod 8)])"

declare show_octal.simps [simp del]

definition ensure_root_owned_not_writable :: "fsys \<Rightarrow> path \<Rightarrow> io_error + unit" where
  "ensure_root_owned_not_writable w p =
     rbind (symlink_metadata w p) (\<lambda>meta.
     if \<not> root_owned_not_writable (fuid meta) (st_mode meta)
     then Err (IoError KPermissionDenied
       (''dig-dns: refusing to install a root service that execs '' @ show_path p @ '' '' @
        [CHR 0xE2, CHR 0x80, CHR 0x94] @ '' it must be owned by ''
        @ ''root (uid 0) and not group/world-writable, but it is owned by uid '' @ show_word (fuid meta)
        @ '' with mode '' @ show_octal (unat (st_mode meta AND 0xFFF))
        @ ''. Install dig-dns to a root-owned prefix and retry.''))
     else Ok ())"

definition prefix_component_safe :: "u32 \<Rightarrow> u32 \<Rightarrow> bool \<Rightarrow> bool" where
  "prefix_component_safe u m is_symlink \<longleftrightarrow> \<not> is_symlink \<and> root_owned_not_writable u m"

fun check_components :: "fsys \<Rightarrow> path \<Rightarrow> path list \<Rightarrow> io_error + unit" where
  "check_components w dir [] = Ok ()"
| "check_components w dir (component # cs) =
     (case symlink_metadata w component of
        Inr meta \<Rightarrow>
          if \<not> prefix_component_safe (fuid meta) (st_mode meta) (is_link meta)
          then Err (IoError KPermissionDenied
            (''dig-dns: refusing to stage a root service under '' @ show_path dir @ '' '' @
             [CHR 0xE2, CHR 0x80, CHR 0x94] @ '' the path component '' @ show_path component
             @ '' must be a non-symlink directory owned by root (uid 0) and not group/world-''
             @ ''writable, but it is owned by uid '' @ show_word (fuid meta) @ '' with mode ''
             @ show_octal (unat (st_mode meta AND 0xFFF)) @ (if is_link meta then '' (a symlink)'' else [])
             @ ''. Install dig-dns under a root-owned, root-only-writable prefix and retry.''))
          else check_components w dir cs
      | Inl e \<Rightarrow> if kind e = KNotFound then check_components w dir cs else Err e)"

definition ensure_prefix_root_owned_not_writable :: "fsys \<Rightarrow> path \<Rightarrow> io_error + unit" where
  "ensure_prefix_root_owned_not_writable w dir = check_components w dir (ancestors dir)"

section \<open>Staging\<close>

text \<open>The loop that walks up from \<open>current\<close> collecting what does not exist, deepest first.\<close>

fun collect_missing :: "fsys \<Rightarrow> path \<Rightarrow> nat \<Rightarrow> path list" where
  "collect_missing w p 0 = (if path_exists w [] then [] else [[]])"
| "collect_missing w p (Suc n) =
     (if path_exists w (take (Suc n) p) then [] else take (Suc n) p # collect_missing w p n)"

fun create_each :: "path list \<Rightarrow> fsys \<Rightarrow> (io_error + unit) \<times> fsys" where
  "create_each [] w = (Ok (), w)"
| "create_each (p # ps) w =
     io_bind (create_dir p w) (\<lambda>_ w.
     io_bind (chown p 0 0 w) (\<lambda>_ w.
     io_bind (set_permissions p 0x1ED w) (\<lambda>_ w.
     create_each ps w)))"

definition create_missing_intermediates :: "path \<Rightarrow> fsys \<Rightarrow> (io_error + unit) \<times> fsys" where
  "create_missing_intermediates dir w =
     (let target = unwrap_or (path_parent dir) dir
      in if path_exists w target then (Ok (), w)
         else create_each (rev (collect_missing w target (length target))) w)"

definition ensure_real_leaf_dir :: "path \<Rightarrow> fsys \<Rightarrow> (io_error + unit) \<times> fsys" where
  "ensure_real_leaf_dir dir w =
     (case symlink_metadata w dir of
        Inr meta \<Rightarrow>
          if fnode meta = Dir then (Ok (), w)
          else io_bind (remove_file dir w) (\<lambda>_ w. create_dir dir w)
      | Inl e \<Rightarrow> if kind e = KNotFound then create_dir dir w else (Err e, w))"

text \<open>\<open>current_exe\<close> is what \<open>std::env::current_exe\<close> answers.\<close>

definition stage_service_program :: "io_error + path \<Rightarrow> fsys \<Rightarrow> (io_error + path) \<times> fsys" where
  "stage_service_program current_exe w =
     io_bind (current_exe, w) (\<lambda>source w.
     let dir = LINUX_PROGRAM_DIR; pre = unwrap_or (path_parent dir) dir in
     io_bind (ensure_prefix_root_owned_not_writable w pre, w) (\<lambda>_ w.
     io_bind (create_missing_intermediates dir w) (\<lambda>_ w.
     io_bind (ensure_real_leaf_dir dir w) (\<lambda>_ w.
     io_bind (chown dir 0 0 w) (\<lambda>_ w.
     io_bind (set_permissions dir 0x1ED w) (\<lambda>_ w.
     let dest = linux_program_dest; (ignored, w) = remove_file dest w in
     io_bind (copy source dest w) (\<lambda>_ w.
     io_bind (chown dest 0 0 w) (\<lambda>_ w.
     io_bind (set_permissions dest 0x1ED w) (\<lambda>_ w.
     io_bind (ensure_root_owned_not_writable w dir, w) (\<lambda>_ w.
     io_bind (ensure_root_owned_not_writable w dest, w) (\<lambda>_ w.
     (Ok dest, w))))))))))))"

section \<open>What unprivileged users can do\<close>

text \<open>A step of the user \<open>u\<close>, over-approximated: it may change an entry it owns or that group or others can
  write in any way, and below a directory it owns or that group or others can write it may create, remove
  and replace entries of any owner and mode.\<close>

inductive user_step :: "(path \<Rightarrow> fentry option) \<Rightarrow> (path \<Rightarrow> fentry option) \<Rightarrow> bool" where
  modify: "u \<noteq> 0 \<Longrightarrow> t p = Some e \<Longrightarrow> fuid e = u \<or> st_mode e AND 0x12 \<noteq> 0
     \<Longrightarrow> (\<And>q. q \<noteq> p \<Longrightarrow> t' q = t q) \<Longrightarrow> user_step t t'"
| replace: "u \<noteq> 0 \<Longrightarrow> p \<noteq> [] \<Longrightarrow> t (butlast p) = Some d \<Longrightarrow> fuid d = u \<or> st_mode d AND 0x12 \<noteq> 0
     \<Longrightarrow> (\<And>q. \<not> prefix p q \<Longrightarrow> t' q = t q) \<Longrightarrow> user_step t t'"

inductive_cases user_stepE: "user_step t t'"

definition protected :: "(path \<Rightarrow> fentry option) \<Rightarrow> path \<Rightarrow> bool" where
  "protected t p \<longleftrightarrow>
     (\<forall>n\<le>length p. \<forall>e. t (take n p) = Some e \<longrightarrow> root_owned_not_writable (fuid e) (st_mode e))"

lemma protected_prefix:
  "protected t p \<Longrightarrow> prefix q p \<Longrightarrow> t q = Some e \<Longrightarrow> root_owned_not_writable (fuid e) (st_mode e)"
proof -
  assume p: "protected t p" "prefix q p" "t q = Some e"
  then have "take (length q) p = q" "length q \<le> length p"
    by (auto simp: prefix_def)
  with p(1,3) show ?thesis by (metis protected_def)
qed

lemma user_step_protected:
  assumes "user_step t t'" "protected t p"
  shows "\<forall>q. prefix q p \<longrightarrow> t' q = t q"
  using assms(1)
proof (rule user_stepE)
  fix u r e
  assume "u \<noteq> 0" "t r = Some e" "fuid e = u \<or> st_mode e AND 0x12 \<noteq> 0" and same: "\<And>q. q \<noteq> r \<Longrightarrow> t' q = t q"
  with protected_prefix [OF assms(2), of r e] have "\<not> prefix r p"
    by (auto simp: root_owned_not_writable_def)
  with same show ?thesis by metis
next
  fix u r d
  assume s: "u \<noteq> 0" "r \<noteq> []" "t (butlast r) = Some d" "fuid d = u \<or> st_mode d AND 0x12 \<noteq> 0"
    "\<And>q. \<not> prefix r q \<Longrightarrow> t' q = t q"
  have "\<not> prefix r q" if "prefix q p" for q
  proof
    assume "prefix r q"
    with that have "prefix (butlast r) p"
      by (meson prefix_order.trans prefixeq_butlast)
    with protected_prefix [OF assms(2) _ s(3)] s show False
      by (auto simp: root_owned_not_writable_def)
  qed
  with s(5) show ?thesis by blast
qed

lemma user_steps_protected:
  assumes "user_step\<^sup>*\<^sup>* t t'" "protected t p"
  shows "protected t' p \<and> (\<forall>q. prefix q p \<longrightarrow> t' q = t q)"
  using assms
proof (induction rule: rtranclp_induct)
  case (step t1 t2)
  then have "\<forall>q. prefix q p \<longrightarrow> t2 q = t1 q" by (intro user_step_protected) auto
  with step show ?case
    by (auto simp: protected_def take_is_prefix)
qed simp

section \<open>What staging establishes\<close>

text \<open>In a file system the parent of every entry is a directory.\<close>

definition wf_tree :: "fsys \<Rightarrow> bool" where
  "wf_tree w \<longleftrightarrow> is_dir_at (lookup w) []
     \<and> list_all (\<lambda>(p, e). p \<noteq> [] \<longrightarrow> is_dir_at (lookup w) (butlast p)) (tree w)"

lemma wf_tree_parent: "wf_tree w \<Longrightarrow> lookup w p = Some e \<Longrightarrow> p \<noteq> [] \<Longrightarrow> is_dir_at (lookup w) (butlast p)"
  by (auto simp: wf_tree_def lookup_def list_all_iff dest!: map_of_SomeD)

lemma wf_tree_dirs:
  "wf_tree w \<Longrightarrow> lookup w p = Some e \<Longrightarrow> n < length p \<Longrightarrow> is_dir_at (lookup w) (take n p)"
proof (induction "length p" arbitrary: p e)
  case (Suc k)
  then have parent: "is_dir_at (lookup w) (butlast p)"
    by (intro wf_tree_parent) auto
  show ?case
  proof (cases "n = k")
    case True
    with parent Suc(2) [symmetric] show ?thesis by (simp add: butlast_conv_take)
  next
    case False
    with Suc(2,5) have "n < length (butlast p)" "k = length (butlast p)" by auto
    moreover obtain e' where "lookup w (butlast p) = Some e'"
      using parent by (auto simp: is_dir_at_Some)
    ultimately have "is_dir_at (lookup w) (take n (butlast p))"
      using Suc(1,3) by blast
    with Suc(5) show ?thesis by (simp add: take_butlast)
  qed
qed simp

lemma wf_tree_real: "wf_tree w \<Longrightarrow> lookup w p = Some e \<Longrightarrow> ''..'' \<notin> set p \<Longrightarrow> real_path (lookup w) p"
  by (auto simp: real_path_iff intro: wf_tree_dirs)

abbreviation safe_entry :: "fentry \<Rightarrow> bool" where
  "safe_entry e \<equiv> prefix_component_safe (fuid e) (st_mode e) (is_link e)"

lemma check_components_Ok:
  "check_components w dir cs = Ok u \<Longrightarrow> c \<in> set cs \<Longrightarrow> symlink_metadata w c = Ok e \<Longrightarrow> safe_entry e"
  by (induction w dir cs rule: check_components.induct) (auto split: sum.splits if_splits)

lemma checked_prefix:
  assumes "wf_tree w" "''..'' \<notin> set p" "ensure_prefix_root_owned_not_writable w p = Ok u"
    and "n \<le> length p" "lookup w (take n p) = Some e"
  shows "safe_entry e"
proof (rule check_components_Ok [OF assms(3) [unfolded ensure_prefix_root_owned_not_writable_def]])
  show "take n p \<in> set (ancestors p)" using assms(4) by (auto simp: ancestors_def)
  have "real_path (lookup w) (take n p)"
    by (rule wf_tree_real [OF assms(1,5)]) (use assms(2) in_set_takeD in fast)
  then show "symlink_metadata w (take n p) = Ok e"
    by (simp add: symlink_metadata_real assms(5))
qed

lemma made_dir_safe: "fnode e = Dir \<Longrightarrow> fuid e = 0 \<Longrightarrow> fmode e = 0x1ED AND 0xFFF \<Longrightarrow> safe_entry e"
  by (simp add: prefix_component_safe_def root_owned_not_writable_def st_mode_def is_link_simps)

text \<open>Creating one directory and giving it to root.\<close>

lemma create_one:
  assumes "create_dir p w = (Ok u1, w1)" "chown p 0 0 w1 = (Ok u2, w2)"
    and "set_permissions p 0x1ED w2 = (Ok u3, w3)" "linkfree (lookup w) p"
  shows "real_path (lookup w) p \<and> lookup w p = None
    \<and> (\<exists>e. fnode e = Dir \<and> safe_entry e \<and> lookup w3 = (lookup w)(p \<mapsto> e))"
proof -
  have real: "real_path (lookup w) p" using create_dir_linkfree assms(1,4) by blast
  with create_dir_Ok assms(1) obtain e1 where e1: "lookup w p = None" "fnode e1 = Dir" "fuid e1 = 0"
    "lookup w1 = (lookup w)(p \<mapsto> e1)" by blast
  have "lookup w2 = (lookup w1)(p \<mapsto> e1\<lparr>fuid := 0, fgid := 0\<rparr>)"
    using chown_Ok [OF assms(2)] real e1 by (auto simp: real_path_upd_self is_link_at_Some)
  moreover from this have "lookup w3 = (lookup w2)(p \<mapsto> e1\<lparr>fuid := 0, fgid := 0, fmode := 0x1ED AND 0xFFF\<rparr>)"
    using set_permissions_Ok [OF assms(3)] real e1 by (auto simp: real_path_upd_self is_link_at_Some)
  ultimately show ?thesis
    using real e1 by (auto intro!: exI [of _ "e1\<lparr>fuid := 0, fgid := 0, fmode := 0x1ED AND 0xFFF\<rparr>"] made_dir_safe)
qed

text \<open>The chain \<open>p\<close> is safe up to length \<open>k\<close>: directories of root that nobody else can write.\<close>

definition safe_upto :: "(path \<Rightarrow> fentry option) \<Rightarrow> path \<Rightarrow> nat \<Rightarrow> bool" where
  "safe_upto t p k \<longleftrightarrow> ''..'' \<notin> set p
     \<and> (\<forall>n<k. \<exists>e. t (take n p) = Some e \<and> fnode e = Dir \<and> safe_entry e)"

lemma safe_upto_real: "safe_upto t p k \<Longrightarrow> m \<le> k \<Longrightarrow> real_path t (take m p)"
  by (auto simp: safe_upto_def real_path_iff is_dir_at_Some dest: in_set_takeD)
     (metis less_le_trans min.strict_boundedE min.absorb1 less_imp_le)

lemma safe_upto_linkfree: "safe_upto t p k \<Longrightarrow> 0 < k \<Longrightarrow> m \<le> k \<Longrightarrow> linkfree t (take m p)"
  using safe_upto_real [of t p k m]
  by (auto simp: safe_upto_def linkfree_iff real_path_iff is_dir_at_Some is_link_at_Some)

lemma safe_upto_upd:
  assumes "safe_upto t p k" "k \<le> length p" "fnode e = Dir" "safe_entry e"
  shows "safe_upto (t(take k p \<mapsto> e)) p (Suc k)"
proof -
  have "take n p \<noteq> take k p" if "n < k" for n
    using that assms(2) by (metis length_take min.absorb2 less_imp_le less_le_trans nat_neq_iff)
  with assms show ?thesis by (auto simp: safe_upto_def less_Suc_eq)
qed

lemma create_each_safe:
  assumes "create_each (map (\<lambda>i. take i p) [k..<Suc m]) w = (Ok u, w')" "m \<le> length p"
    and "safe_upto (lookup w) p k" "0 < k" "k \<le> Suc m"
  shows "safe_upto (lookup w') p (Suc m)
    \<and> (\<forall>q. \<not> prefix q (take m p) \<longrightarrow> lookup w' q = lookup w q)
    \<and> (\<forall>q. lookup w q \<noteq> None \<longrightarrow> lookup w' q = lookup w q)"
  using assms
proof (induction "Suc m - k" arbitrary: k w)
  case (Suc d)
  then have km: "k \<le> m" by simp
  with Suc.prems(1) obtain u1 w1 u2 w2 u3 w3 where
    c: "create_dir (take k p) w = (Ok u1, w1)" "chown (take k p) 0 0 w1 = (Ok u2, w2)"
      "set_permissions (take k p) 0x1ED w2 = (Ok u3, w3)"
    and rest: "create_each (map (\<lambda>i. take i p) [Suc k..<Suc m]) w3 = (Ok u, w')"
    by (auto simp: upt_conv_Cons io_bind_Ok_iff simp del: upt_Suc)
  from create_one [OF c safe_upto_linkfree [OF Suc.prems(3,4) order_refl]] obtain e where
    e: "lookup w (take k p) = None" "fnode e = Dir" "safe_entry e" "lookup w3 = (lookup w)(take k p \<mapsto> e)"
    by blast
  have "safe_upto (lookup w3) p (Suc k)"
    using safe_upto_upd [OF Suc.prems(3)] e km Suc.prems(2) by simp
  from Suc.hyps(1) [OF _ rest Suc.prems(2) this] Suc.hyps(2) km
  have IH: "safe_upto (lookup w') p (Suc m)"
    "\<forall>q. \<not> prefix q (take m p) \<longrightarrow> lookup w' q = lookup w3 q"
    "\<forall>q. lookup w3 q \<noteq> None \<longrightarrow> lookup w' q = lookup w3 q" by auto
  have "prefix (take k p) (take m p)"
    using km by (metis min.absorb1 take_is_prefix take_take)
  with IH e show ?case by (auto split: if_splits)
qed simp

lemma collect_missing_spec:
  "\<exists>k\<le>Suc n. rev (collect_missing w p n) = map (\<lambda>i. take i p) [k..<Suc n]
     \<and> (0 < k \<longrightarrow> path_exists w (take (k - 1) p))"
proof (induction n)
  case 0
  show ?case
  proof (cases "path_exists w []")
    case True
    then show ?thesis by (intro exI [of _ 1]) simp
  next
    case False
    then show ?thesis by (intro exI [of _ 0]) simp
  qed
next
  case (Suc n)
  show ?case
  proof (cases "path_exists w (take (Suc n) p)")
    case True
    then show ?thesis by (intro exI [of _ "Suc (Suc n)"]) simp
  next
    case False
    from Suc obtain k where "k \<le> Suc n" "rev (collect_missing w p n) = map (\<lambda>i. take i p) [k..<Suc n]"
      "0 < k \<longrightarrow> path_exists w (take (k - 1) p)" by blast
    with False show ?thesis by (intro exI [of _ k]) simp
  qed
qed

lemma safe_not_link: "safe_entry e \<Longrightarrow> \<not> is_link e"
  by (simp add: prefix_component_safe_def)

lemma linkfree_checked:
  assumes "is_dir_at t []" "''..'' \<notin> set p"
    and "\<And>n e. n \<le> length p \<Longrightarrow> t (take n p) = Some e \<Longrightarrow> safe_entry e"
  shows "linkfree t p" "\<not> is_link_at t p"
proof -
  have nl: "\<not> is_link_at t (take n p)" if "n \<le> length p" for n
    using assms(3) [OF that] safe_not_link by (auto simp: is_link_at_def split: option.splits)
  with assms(1,2) show "linkfree t p" by (auto simp: linkfree_iff)
  show "\<not> is_link_at t p" using nl [of "length p"] by simp
qed

lemma path_exists_linkfree:
  assumes "path_exists w p" "linkfree (lookup w) p" "\<not> is_link_at (lookup w) p"
  shows "real_path (lookup w) p \<and> lookup w p \<noteq> None"
  using assms resolve_linkfree [of w True p]
  by (auto simp: path_exists_def metadata_def entry_at_def is_ok_iff rbind_Ok_iff)

lemma intermediates_safe:
  assumes "wf_tree w" "''..'' \<notin> set pre" "ensure_prefix_root_owned_not_writable w pre = Ok u0"
    and "create_missing_intermediates (pre @ [c]) w = (Ok u, w1)"
  shows "safe_upto (lookup w1) pre (length pre)
    \<and> (\<exists>e. lookup w1 pre = Some e \<and> safe_entry e)
    \<and> (\<forall>q. \<not> prefix q pre \<longrightarrow> lookup w1 q = lookup w q)
    \<and> (\<forall>q. lookup w q \<noteq> None \<longrightarrow> lookup w1 q = lookup w q)"
proof -
  have root: "is_dir_at (lookup w) []" using assms(1) by (simp add: wf_tree_def)
  note safe = checked_prefix [OF assms(1,2,3)]
  have lf: "linkfree (lookup w) pre" "\<not> is_link_at (lookup w) pre"
    using linkfree_checked [OF root assms(2)] safe by blast+
  have lfn: "linkfree (lookup w) (take n pre)" "\<not> is_link_at (lookup w) (take n pre)" if "n \<le> length pre" for n
  proof -
    show "linkfree (lookup w) (take n pre)" by (rule linkfree_take [OF lf(1)])
    show "\<not> is_link_at (lookup w) (take n pre)"
    proof (cases "n = length pre")
      case True
      with lf(2) show ?thesis by simp
    next
      case False
      with lf(1) that show ?thesis by (simp add: linkfree_iff)
    qed
  qed
  have dirs: "safe_upto (lookup w) pre n" if "real_path (lookup w) (take n pre)" "n \<le> length pre" for n
  proof -
    have "\<exists>e. lookup w (take i pre) = Some e \<and> fnode e = Dir \<and> safe_entry e" if i: "i < n" for i
    proof -
      have "is_dir_at (lookup w) (take i pre)"
        using \<open>real_path (lookup w) (take n pre)\<close> \<open>n \<le> length pre\<close> i by (auto simp: real_path_iff)
      with safe [of i] i \<open>n \<le> length pre\<close> show ?thesis by (auto simp: is_dir_at_Some)
    qed
    with assms(2) show ?thesis by (simp add: safe_upto_def)
  qed
  show ?thesis
  proof (cases "path_exists w pre")
    case True
    with assms(4) have "w1 = w" by (simp add: create_missing_intermediates_def path_parent_def)
    moreover have "real_path (lookup w) pre" "lookup w pre \<noteq> None"
      using path_exists_linkfree [OF True lf] by auto
    ultimately show ?thesis using dirs [of "length pre"] safe [of "length pre"] by auto
  next
    case False
    obtain k where k: "k \<le> Suc (length pre)"
      "rev (collect_missing w pre (length pre)) = map (\<lambda>i. take i pre) [k..<Suc (length pre)]"
      "0 < k \<longrightarrow> path_exists w (take (k - 1) pre)"
      using collect_missing_spec by blast
    with assms(4) False have c: "create_each (map (\<lambda>i. take i pre) [k..<Suc (length pre)]) w = (Ok u, w1)"
      by (simp add: create_missing_intermediates_def path_parent_def del: upt_Suc)
    have k0: "0 < k"
    proof (rule ccontr)
      assume "\<not> 0 < k"
      with c obtain v w2 where "create_dir [] w = (Ok v, w2)"
        by (auto simp: upt_conv_Cons io_bind_Ok_iff simp del: upt_Suc)
      with create_dir_Ok [of "[]" w v w2] root show False
        by (auto simp: real_path_iff is_dir_at_Some)
    qed
    have km: "k \<le> length pre"
    proof (rule ccontr)
      assume "\<not> k \<le> length pre"
      with k(1,3) k0 False show False by (auto simp: le_Suc_eq)
    qed
    obtain v w2 where "create_dir (take k pre) w = (Ok v, w2)"
      using c km by (auto simp: upt_conv_Cons io_bind_Ok_iff simp del: upt_Suc)
    then have "real_path (lookup w) (take k pre)"
      using create_dir_linkfree lfn(1) [OF km] by blast
    then have "safe_upto (lookup w) pre k" using dirs km by blast
    from create_each_safe [OF c order_refl this k0 k(1)]
    have "safe_upto (lookup w1) pre (Suc (length pre))"
      "\<forall>q. \<not> prefix q pre \<longrightarrow> lookup w1 q = lookup w q"
      "\<forall>q. lookup w q \<noteq> None \<longrightarrow> lookup w1 q = lookup w q" by simp_all
    then show ?thesis by (auto simp: safe_upto_def less_Suc_eq)
  qed
qed

lemma leaf_safe:
  assumes "safe_upto (lookup w) pre (length pre)" "lookup w pre = Some e" "safe_entry e" "''..'' \<noteq> c"
    and "is_dir_at (lookup w) []" "ensure_real_leaf_dir (pre @ [c]) w = (Ok u, w')"
  shows "safe_upto (lookup w) (pre @ [c]) (Suc (length pre)) \<and> is_dir_at (lookup w') (pre @ [c])
    \<and> (\<forall>q. q \<noteq> pre @ [c] \<longrightarrow> lookup w' q = lookup w q)"
proof -
  let ?d = "pre @ [c]"
  have nl: "\<not> is_link_at (lookup w) (take n ?d)" if "n \<le> length pre" for n
    using that assms(1-3) safe_not_link [OF assms(3)]
    by (cases "n = length pre") (auto simp: safe_upto_def is_link_at_def is_link_def dest!: spec [of _ n])
  then have lf: "linkfree (lookup w) ?d"
    using assms(1,4,5) by (auto simp: linkfree_iff safe_upto_def simp del: take_append)
  have chain: "safe_upto (lookup w) ?d (Suc (length pre))" if "real_path (lookup w) ?d"
  proof -
    have "is_dir_at (lookup w) pre"
      using that unfolding real_path_iff by (auto dest!: spec [of _ "length pre"])
    with assms(1-4) show ?thesis
      by (auto simp: safe_upto_def less_Suc_eq is_dir_at_Some)
  qed
  show ?thesis
  proof (cases "symlink_metadata w ?d")
    case (Inr meta)
    then have real: "real_path (lookup w) ?d" and m: "lookup w ?d = Some meta"
      using resolve_linkfree [OF _ lf]
      by (auto simp: symlink_metadata_def entry_at_def rbind_Ok_iff)
    show ?thesis
    proof (cases "fnode meta = Dir")
      case True
      with Inr assms(6) m chain [OF real] show ?thesis
        by (auto simp: ensure_real_leaf_dir_def is_dir_at_Some)
    next
      case False
      with Inr assms(6) obtain v w2 where rm: "remove_file ?d w = (Ok v, w2)"
        and mk: "create_dir ?d w2 = (Ok u, w')"
        by (auto simp: ensure_real_leaf_dir_def io_bind_Ok_iff)
      have w2: "lookup w2 = (lookup w)(?d := None)"
        using remove_file_Ok [OF rm real] by blast
      with create_dir_Ok [OF mk] real chain [OF real] show ?thesis
        by (auto simp: real_path_upd_self is_dir_at_Some)
    qed
  next
    case (Inl er)
    with assms(6) have mk: "create_dir ?d w = (Ok u, w')"
      by (auto simp: ensure_real_leaf_dir_def split: if_splits)
    then have real: "real_path (lookup w) ?d" using create_dir_linkfree lf by blast
    with create_dir_Ok [OF mk] chain show ?thesis
      by (auto simp: is_dir_at_Some)
  qed
qed

lemma real_upd_plain:
  assumes "real_path t p" "plain_at t q"
  shows "real_path (t(q \<mapsto> e)) p"
  by (rule real_path_upd [OF assms(1)]) (use assms(2) in \<open>auto simp: plain_at_def is_dir_at_def split: option.splits\<close>)

text \<open>A call that follows a path to a file changes that file only and keeps the way to it.\<close>

lemma set_at_file:
  assumes "resolve_path w True p = Ok q" "lookup w q = Some e" "fnode e = File d" "p \<noteq> []"
  shows "chown p u g w = (Ok x, w') \<Longrightarrow> lookup w' = (lookup w)(q \<mapsto> e\<lparr>fuid := u, fgid := g\<rparr>)
      \<and> resolve_path w' True p = Ok q"
    and "set_permissions p m w = (Ok x, w') \<Longrightarrow> lookup w' = (lookup w)(q \<mapsto> e\<lparr>fmode := m AND 0xFFF\<rparr>)
      \<and> resolve_path w' True p = Ok q"
proof -
  have pl: "plain_at (lookup w) q" using assms(2,3) by (simp add: plain_at_def)
  have "lookup w' = (lookup w)(q \<mapsto> e\<lparr>fuid := u, fgid := g\<rparr>)" if "chown p u g w = (Ok x, w')"
    using that assms(1,2) by (auto simp: chown_def dest!: faulty_Ok)
  then show "chown p u g w = (Ok x, w') \<Longrightarrow> lookup w' = (lookup w)(q \<mapsto> e\<lparr>fuid := u, fgid := g\<rparr>)
      \<and> resolve_path w' True p = Ok q"
    using resolve_put_file [OF assms(1) pl assms(4), of "e\<lparr>fuid := u, fgid := g\<rparr>" d w'] assms(3) by simp
  have "lookup w' = (lookup w)(q \<mapsto> e\<lparr>fmode := m AND 0xFFF\<rparr>)" if "set_permissions p m w = (Ok x, w')"
    using that assms(1,2) by (auto simp: set_permissions_def dest!: faulty_Ok)
  then show "set_permissions p m w = (Ok x, w') \<Longrightarrow> lookup w' = (lookup w)(q \<mapsto> e\<lparr>fmode := m AND 0xFFF\<rparr>)
      \<and> resolve_path w' True p = Ok q"
    using resolve_put_file [OF assms(1) pl assms(4), of "e\<lparr>fmode := m AND 0xFFF\<rparr>" d w'] assms(3) by simp
qed

lemma copy_Ok:
  assumes "copy src dst w = (Ok u, w')" "dst \<noteq> []"
  shows "\<exists>s d0 q e d w1. metadata w src = Ok s \<and> fnode s = File d0
    \<and> resolve_path w True dst = Ok q \<and> resolve_path w' True dst = Ok q \<and> plain_at (lookup w) q
    \<and> lookup w' = (lookup w)(q \<mapsto> e) \<and> fnode e = File d
    \<and> plain_at (lookup w1) q \<and> (\<exists>x. lookup w1 = (lookup w)(q \<mapsto> x))
    \<and> d = (if resolve_path w1 True src = Ok q then [] else d0)"
proof -
  from assms(1) obtain s d0 q w1 w2 u2 where m: "metadata w src = Ok s" "fnode s = File d0"
    and o: "open_truncate dst (fmode s) w = (Ok q, w1)"
    and p: "set_permissions dst (fmode s) w1 = (Ok u2, w2)"
    and wr: "write_all q (if resolve_path w2 True src = Ok q then [] else d0) w2 = (Ok u, w')"
    by (auto simp: copy_def io_bind_Ok_iff split: sum.splits fnode.splits)
  from open_truncate_Ok [OF o] obtain e1 where q: "resolve_path w True dst = Ok q" "plain_at (lookup w) q"
    and e1: "fnode e1 = File []" "lookup w1 = (lookup w)(q \<mapsto> e1)" by blast
  have r1: "resolve_path w1 True dst = Ok q"
    by (rule resolve_put_file [OF q assms(2) e1(1,2)])
  from set_at_file(2) [OF r1 _ e1(1) assms(2) p] e1(2)
  have w2: "lookup w2 = (lookup w)(q \<mapsto> e1\<lparr>fmode := fmode s AND 0xFFF\<rparr>)" "resolve_path w2 True dst = Ok q"
    by simp_all
  let ?e = "e1\<lparr>fmode := fmode s AND 0xFFF, fnode := File (if resolve_path w2 True src = Ok q then [] else d0)\<rparr>"
  have w': "lookup w' = (lookup w)(q \<mapsto> ?e)"
    using write_all_Ok [OF wr, of "e1\<lparr>fmode := fmode s AND 0xFFF\<rparr>"] w2 by simp
  have "resolve_path w' True dst = Ok q"
    by (rule resolve_put_file [OF q assms(2) _ w']) simp
  moreover have "plain_at (lookup w2) q" using w2 e1 by (simp add: plain_at_def)
  ultimately show ?thesis
    using m q w' w2
    by (intro exI [of _ s] exI [of _ d0] exI [of _ q] exI [of _ ?e]
        exI [of _ "if resolve_path w2 True src = Ok q then [] else d0"] exI [of _ w2]) auto
qed

text \<open>The end of the staging: what the checks on the copy leave possible.\<close>

lemma copied_safe:
  assumes "real_path (lookup w) dest" "dest \<noteq> []"
    and "copy source dest w = (Ok u1, w1)" "chown dest 0 0 w1 = (Ok u2, w2)"
    and "set_permissions dest 0x1ED w2 = (Ok u3, w3)"
    and "ensure_root_owned_not_writable w3 dest = Ok u4"
  shows "plain_at (lookup w) dest \<and> (\<exists>e d s d0. lookup w3 = (lookup w)(dest \<mapsto> e) \<and> fnode e = File d
      \<and> root_owned_not_writable (fuid e) (st_mode e) \<and> metadata w source = Ok s \<and> fnode s = File d0
      \<and> (real_path (lookup w) source \<and> \<not> is_link_at (lookup w) source \<and> source \<noteq> dest \<longrightarrow> d = d0))"
proof -
  from copy_Ok [OF assms(3,2)] obtain s d0 q e d v where c: "metadata w source = Ok s" "fnode s = File d0"
    "resolve_path w True dest = Ok q" "resolve_path w1 True dest = Ok q" "plain_at (lookup w) q"
    "lookup w1 = (lookup w)(q \<mapsto> e)" "fnode e = File d" "\<exists>x. lookup v = (lookup w)(q \<mapsto> x)"
    "d = (if resolve_path v True source = Ok q then [] else d0)" by blast
  have "lookup w1 q = Some e" using c(6) by simp
  from set_at_file(1) [OF c(4) this c(7) assms(2,4)]
  have w2: "lookup w2 = (lookup w)(q \<mapsto> e\<lparr>fuid := 0, fgid := 0\<rparr>)" "resolve_path w2 True dest = Ok q"
    using c(6) by simp_all
  let ?e = "e\<lparr>fuid := 0, fgid := 0, fmode := 0x1ED AND 0xFFF\<rparr>"
  have w3: "lookup w3 = (lookup w)(q \<mapsto> ?e)"
    using set_at_file(2) [OF w2(2) _ _ assms(2,5), of "e\<lparr>fuid := 0, fgid := 0\<rparr>" d] w2 c(7) by simp
  have "real_path (lookup w3) dest"
    unfolding w3 by (rule real_upd_plain [OF assms(1) c(5)])
  with assms(6) obtain x where x: "lookup w3 dest = Some x" "root_owned_not_writable (fuid x) (st_mode x)"
    by (auto simp: ensure_root_owned_not_writable_def rbind_Ok_iff symlink_metadata_real split: if_splits)
  have nl: "\<not> is_link_at (lookup w) dest"
  proof
    assume l: "is_link_at (lookup w) dest"
    with c(5) have "q \<noteq> dest" by (auto simp: plain_at_def is_link_at_Some)
    with w3 x(1) l obtain t where "fnode x = Link t" by (auto simp: is_link_at_Some)
    with x(2) show False by (simp add: root_owned_not_writable_def st_mode_def)
  qed
  with resolve_real [OF assms(1), of True] c(3) have q: "q = dest" by simp
  have d: "d = d0" if "real_path (lookup w) source" "\<not> is_link_at (lookup w) source" "source \<noteq> dest"
  proof -
    from c(8) q obtain y where v: "lookup v = (lookup w)(dest \<mapsto> y)" by blast
    have "real_path (lookup v) source"
      using real_upd_plain [OF that(1), of dest] c(5) by (simp add: v q)
    moreover have "\<not> is_link_at (lookup v) source" using that(2,3) by (simp add: v is_link_at_def)
    ultimately have "resolve_path v True source = Ok source" by (simp add: resolve_real)
    with c(9) that(3) q show ?thesis by simp
  qed
  have "lookup w3 = (lookup w)(dest \<mapsto> ?e)" "fnode ?e = File d" using w3 q c(7) by simp_all
  moreover from this x have "root_owned_not_writable (fuid ?e) (st_mode ?e)" by simp
  ultimately show ?thesis
    using c(1,2,5) d q by blast
qed

lemma safe_upto_cong:
  assumes "safe_upto t p k" "\<And>n. n < k \<Longrightarrow> t' (take n p) = t (take n p)"
  shows "safe_upto t' p k"
  using assms by (simp add: safe_upto_def)

lemma linux_paths:
  "LINUX_PROGRAM_DIR = [''usr'', ''local'', ''lib''] @ [''dig-dns'']"
  "linux_program_dest = LINUX_PROGRAM_DIR @ [''dig-dns'']"
  "path_parent LINUX_PROGRAM_DIR = Some [''usr'', ''local'', ''lib'']"
  by (simp_all add: LINUX_PROGRAM_DIR_def linux_program_dest_def LINUX_PROGRAM_NAME_def path_parent_def)

text \<open>The state before the copy: the chain is safe, and what was a file elsewhere still is.\<close>

lemma staged_dir:
  assumes "wf_tree w" and "ensure_prefix_root_owned_not_writable w [''usr'', ''local'', ''lib''] = Ok u0"
    and "create_missing_intermediates LINUX_PROGRAM_DIR w = (Ok u1, w1)"
    and "ensure_real_leaf_dir LINUX_PROGRAM_DIR w1 = (Ok u2, w2)"
    and "chown LINUX_PROGRAM_DIR 0 0 w2 = (Ok u3, w3)"
    and "set_permissions LINUX_PROGRAM_DIR 0x1ED w3 = (Ok u4, w4)"
  shows "safe_upto (lookup w4) linux_program_dest (length linux_program_dest)
    \<and> (\<forall>q. lookup w q \<noteq> None \<longrightarrow> q \<noteq> LINUX_PROGRAM_DIR \<longrightarrow> lookup w4 q = lookup w q)"
proof -
  let ?pre = "[''usr'', ''local'', ''lib'']" and ?d = LINUX_PROGRAM_DIR
  have root: "is_dir_at (lookup w) []" using assms(1) by (simp add: wf_tree_def)
  from intermediates_safe [OF assms(1) _ assms(2) assms(3) [unfolded linux_paths(1)]]
  obtain e where i: "safe_upto (lookup w1) ?pre (length ?pre)" "lookup w1 ?pre = Some e" "safe_entry e"
    "\<forall>q. lookup w q \<noteq> None \<longrightarrow> lookup w1 q = lookup w q" by auto
  have root1: "is_dir_at (lookup w1) []" using root i(4) by (auto simp: is_dir_at_Some)
  from leaf_safe [OF i(1-3) _ root1 assms(4) [unfolded linux_paths(1)]]
  have l: "safe_upto (lookup w1) ?d (length ?d)" "is_dir_at (lookup w2) ?d"
    "\<forall>q. q \<noteq> ?d \<longrightarrow> lookup w2 q = lookup w1 q" by (simp_all add: linux_paths(1))
  have s2: "safe_upto (lookup w2) ?d (length ?d)"
    by (rule safe_upto_cong [OF l(1)]) (use l(3) in \<open>metis length_take min.absorb4 nat_less_le\<close>)
  have real2: "real_path (lookup w2) ?d" using safe_upto_real [OF s2 order_refl] by simp
  from l(2) obtain e2 where e2: "lookup w2 ?d = Some e2" "fnode e2 = Dir" by (auto simp: is_dir_at_Some)
  have w3: "lookup w3 = (lookup w2)(?d \<mapsto> e2\<lparr>fuid := 0, fgid := 0\<rparr>)"
    using chown_Ok [OF assms(5) real2] e2 by (auto simp: is_link_at_Some)
  have "real_path (lookup w3) ?d" using real2 by (simp add: w3 real_path_upd_self)
  with set_permissions_Ok [OF assms(6)] w3 e2
  have w4: "lookup w4 = (lookup w2)(?d \<mapsto> e2\<lparr>fuid := 0, fgid := 0, fmode := 0x1ED AND 0xFFF\<rparr>)"
    by (auto simp: is_link_at_Some)
  have "safe_upto (lookup w4) ?d (Suc (length ?d))"
    unfolding w4 using safe_upto_upd [OF s2 order_refl] e2(2) made_dir_safe by simp
  then have "safe_upto (lookup w4) linux_program_dest (length linux_program_dest)"
    by (auto simp: safe_upto_def linux_paths(2) LINUX_PROGRAM_DIR_def less_Suc_eq)
  then show ?thesis using w4 l(3) i(4) by auto
qed

lemma stage_Ok:
  assumes "wf_tree w" "stage_service_program (Ok source) w = (Ok dest, w')"
  shows "dest = linux_program_dest"
    and "protected (lookup w') dest"
    and "\<forall>n<length dest. is_dir_at (lookup w') (take n dest)"
    and "\<exists>e d. lookup w' dest = Some e \<and> fnode e = File d \<and> fuid e = 0
         \<and> (\<forall>s d0. lookup w source = Some s \<and> fnode s = File d0 \<and> ''..'' \<notin> set source \<and> source \<noteq> dest
              \<longrightarrow> d = d0)"
    and "\<forall>q. lookup w q \<noteq> None \<and> q \<noteq> LINUX_PROGRAM_DIR \<and> q \<noteq> dest \<longrightarrow> lookup w' q = lookup w q"
proof -
  let ?dest = linux_program_dest
  define w5 where "w5 v = snd (remove_file ?dest v)" for v
  have rm: "remove_file ?dest v = (fst (remove_file ?dest v), w5 v)" for v
    by (simp add: w5_def)
  from assms(2) obtain u1 w1 u2 w2 u3 w3 u4 w4 u6 w6 u7 w7 u8 where
    steps: "ensure_prefix_root_owned_not_writable w [''usr'', ''local'', ''lib''] = Ok u1"
      "create_missing_intermediates LINUX_PROGRAM_DIR w = (Ok u1, w1)"
      "ensure_real_leaf_dir LINUX_PROGRAM_DIR w1 = (Ok u2, w2)"
      "chown LINUX_PROGRAM_DIR 0 0 w2 = (Ok u3, w3)"
      "set_permissions LINUX_PROGRAM_DIR 0x1ED w3 = (Ok u4, w4)"
    and copied: "copy source ?dest (w5 w4) = (Ok u6, w6)" "chown ?dest 0 0 w6 = (Ok u7, w7)"
      "set_permissions ?dest 0x1ED w7 = (Ok u8, w')" "ensure_root_owned_not_writable w' ?dest = Ok u8"
    and dest: "dest = ?dest"
    by (auto simp: stage_service_program_def linux_paths(3) io_bind_Ok_iff Let_def split_beta w5_def [symmetric])
  note sd = staged_dir [OF assms(1) steps]
  have real4: "real_path (lookup w4) ?dest" using safe_upto_real [of "lookup w4" ?dest] sd by force
  note rc = remove_file_cases [OF rm [of w4] real4]
  have s4: "safe_upto (lookup w4) ?dest (length ?dest)" using sd by blast
  have short: "take n ?dest \<noteq> ?dest" if "n < length ?dest" for n
    using that by (metis length_take min.absorb4 nat_less_le)
  have s5: "safe_upto (lookup (w5 w4)) ?dest (length ?dest)"
    by (rule safe_upto_cong [OF s4]) (use rc short in auto)
  have real5: "real_path (lookup (w5 w4)) ?dest" using safe_upto_real [OF s5 order_refl] by simp
  have ne: "?dest \<noteq> []" by (simp add: linux_paths(2))
  from copied_safe [OF real5 ne copied] obtain e d s d0 where c: "plain_at (lookup (w5 w4)) ?dest"
    "lookup w' = (lookup (w5 w4))(?dest \<mapsto> e)" "fnode e = File d"
    "root_owned_not_writable (fuid e) (st_mode e)" "metadata (w5 w4) source = Ok s" "fnode s = File d0"
    "real_path (lookup (w5 w4)) source \<and> \<not> is_link_at (lookup (w5 w4)) source \<and> source \<noteq> ?dest \<longrightarrow> d = d0"
    by blast
  have s': "safe_upto (lookup w') ?dest (length ?dest)"
    by (rule safe_upto_cong [OF s5]) (auto simp: c(2) dest: arg_cong [where f = length])
  have prot: "protected (lookup w') ?dest"
    unfolding protected_def
  proof (intro allI impI)
    fix n x assume "n \<le> length ?dest" "lookup w' (take n ?dest) = Some x"
    with s' c(2,4) show "root_owned_not_writable (fuid x) (st_mode x)"
      by (cases "n = length ?dest") (auto simp: safe_upto_def prefix_component_safe_def dest!: spec [of _ n])
  qed
  have content: "d = b" if src: "lookup w source = Some a" "fnode a = File b" "''..'' \<notin> set source" "source \<noteq> ?dest" for a b
  proof -
    have keep: "lookup (w5 w4) q = lookup w q" if "lookup w q \<noteq> None" "q \<noteq> LINUX_PROGRAM_DIR" "q \<noteq> ?dest" for q
      using sd rc that by auto
    have dir5: "is_dir_at (lookup (w5 w4)) LINUX_PROGRAM_DIR"
      using s5 by (auto simp: safe_upto_def is_dir_at_Some linux_paths(2) dest!: spec [of _ "length LINUX_PROGRAM_DIR"])
    have "is_dir_at (lookup (w5 w4)) (take n source)" if "n < length source" for n
    proof -
      have "is_dir_at (lookup w) (take n source)" by (rule wf_tree_dirs [OF assms(1) src(1) that])
      moreover have "is_dir_at (lookup (w5 w4)) q" if "is_dir_at (lookup w) q" for q
      proof (cases "q = LINUX_PROGRAM_DIR")
        case False
        have "lookup w4 q = lookup w q" using sd that False by (auto simp: is_dir_at_Some)
        with rc that show ?thesis by (auto simp: is_dir_at_Some)
      qed (use dir5 in simp)
      ultimately show ?thesis by blast
    qed
    with src(3) have real: "real_path (lookup (w5 w4)) source" by (simp add: real_path_iff)
    have nd: "source \<noteq> LINUX_PROGRAM_DIR"
    proof
      assume "source = LINUX_PROGRAM_DIR"
      with dir5 real c(5,6) show False
        by (auto simp: metadata_real is_dir_at_Some is_link_at_Some)
    qed
    with keep src have l: "lookup (w5 w4) source = Some a" by simp
    with src(2) have nl: "\<not> is_link_at (lookup (w5 w4)) source" by (auto simp: is_link_at_Some)
    with c(5-7) real src(2,4) l show ?thesis by (auto simp: metadata_real)
  qed
  show "dest = ?dest" by (rule dest)
  show "protected (lookup w') dest" using prot dest by simp
  show "\<forall>n<length dest. is_dir_at (lookup w') (take n dest)"
    using s' dest by (auto simp: safe_upto_def is_dir_at_def)
  show "\<exists>e d. lookup w' dest = Some e \<and> fnode e = File d \<and> fuid e = 0
      \<and> (\<forall>s d0. lookup w source = Some s \<and> fnode s = File d0 \<and> ''..'' \<notin> set source \<and> source \<noteq> dest
           \<longrightarrow> d = d0)"
    using c(2-4) content dest by (auto simp: root_owned_not_writable_def)
  show "\<forall>q. lookup w q \<noteq> None \<and> q \<noteq> LINUX_PROGRAM_DIR \<and> q \<noteq> dest \<longrightarrow> lookup w' q = lookup w q"
    using sd rc c(2) dest by auto
qed

section \<open>Properties\<close>

text \<open>C21. A root unit never runs a binary an unprivileged user controls: on any file system, with any
  pattern of failing calls, if staging succeeds then the path it returns, which the unit will execute, is
  a regular file of root and stays exactly that file under every sequence of actions of unprivileged users;
  all directories above it stay directories too. If the installer itself was another regular file, given
  by its real path, the staged file has its content.\<close>

theorem staged_program_safe:
  assumes "wf_tree w" "stage_service_program (Ok source) w = (Ok dest, w')"
    and "user_step\<^sup>*\<^sup>* (lookup w') t"
  shows "dest = linux_program_dest
    \<and> (\<exists>e d. t dest = Some e \<and> lookup w' dest = Some e \<and> fnode e = File d \<and> fuid e = 0
         \<and> (\<forall>s d0. lookup w source = Some s \<and> fnode s = File d0 \<and> ''..'' \<notin> set source \<and> source \<noteq> dest
              \<longrightarrow> d = d0))
    \<and> (\<forall>n<length dest. is_dir_at t (take n dest))"
proof -
  note st = stage_Ok [OF assms(1,2)]
  have same: "t (take n dest) = lookup w' (take n dest)" for n
    using user_steps_protected [OF assms(3) st(2)] by (simp add: take_is_prefix)
  from st(4) same [of "length dest"] have "\<exists>e d. t dest = Some e \<and> lookup w' dest = Some e \<and> fnode e = File d \<and> fuid e = 0
      \<and> (\<forall>s d0. lookup w source = Some s \<and> fnode s = File d0 \<and> ''..'' \<notin> set source \<and> source \<noteq> dest
           \<longrightarrow> d = d0)" by simp
  with st(1,3) same show ?thesis by (simp add: is_dir_at_def)
qed

text \<open>A machine with a link planted where the program goes, and a user who then tries to write there.\<close>

definition root_dir :: fentry where
  "root_dir = \<lparr>fnode = Dir, fuid = 0, fgid = 0, fmode = 0x1ED\<rparr>"

definition demo_machine :: fsys where
  "demo_machine = \<lparr>tree = [([], root_dir), ([''usr''], root_dir), ([''usr'', ''local''], root_dir),
       ([''home''], root_dir), ([''home'', ''u''], root_dir\<lparr>fuid := 1000\<rparr>),
       ([''home'', ''u'', ''x''], \<lparr>fnode = File ''elf'', fuid = 1000, fgid = 0, fmode = 0x1FF\<rparr>)],
     faults = [], umask = 0x12\<rparr>"

theorem staged_program_safe_witness:
  "let w' = snd (stage_service_program (Ok [''home'', ''u'', ''x'']) demo_machine);
       t = (lookup w')([''home'', ''u'', ''x''] := None)
   in \<exists>e. t linux_program_dest = Some e \<and> fnode e = File ''elf'' \<and> fuid e = 0"
proof -
  define w' where "w' = snd (stage_service_program (Ok [''home'', ''u'', ''x'']) demo_machine)"
  have wf: "wf_tree demo_machine"
    by code_simp
  have st: "stage_service_program (Ok [''home'', ''u'', ''x'']) demo_machine = (Ok linux_program_dest, w')"
    unfolding w'_def by code_simp
  have e: "lookup w' [''home'', ''u''] = Some (root_dir\<lparr>fuid := 1000\<rparr>)"
    unfolding w'_def by code_simp
  have "user_step (lookup w') ((lookup w')([''home'', ''u'', ''x''] := None))"
    by (rule user_step.replace [of 1000 "[''home'', ''u'', ''x'']" _ "root_dir\<lparr>fuid := 1000\<rparr>"])
       (use e in \<open>auto simp: prefix_def\<close>)
  from staged_program_safe [OF wf st r_into_rtranclp [of user_step, OF this]]
  obtain x d where x: "((lookup w')([''home'', ''u'', ''x''] := None)) linux_program_dest = Some x" "fnode x = File d"
    "fuid x = 0"
    and c: "\<forall>s d0. lookup demo_machine [''home'', ''u'', ''x''] = Some s \<and> fnode s = File d0
        \<and> ''..'' \<notin> set [''home'', ''u'', ''x''] \<and> [''home'', ''u'', ''x''] \<noteq> linux_program_dest \<longrightarrow> d = d0"
    by blast
  have "d = ''elf''"
    using c by (simp add: demo_machine_def lookup_def root_dir_def linux_paths(2) LINUX_PROGRAM_DIR_def)
  with x show ?thesis by (simp add: Let_def w'_def)
qed

text \<open>Installing again from the staged copy itself removes the only copy and fails.\<close>

definition installed_machine :: fsys where
  "installed_machine = snd (stage_service_program (Ok [''home'', ''u'', ''x'']) demo_machine)"

theorem stage_from_staged_copy:
  "lookup installed_machine linux_program_dest \<noteq> None
   \<and> (let (r, w) = stage_service_program (Ok linux_program_dest) installed_machine
      in \<not> is_ok r \<and> lookup w linux_program_dest = None)"
  by code_simp

end
