(* ===== verification/LinuxService.thy ===== *)
theory LinuxService
  imports Service Staging Machine
begin

text \<open>
  The Linux half of \<open>src/service.rs\<close>: the systemd unit and the systemd backend, on the machine of theory
  \<open>Machine\<close>.
\<close>

definition LINUX_UNIT_FILE_NAME :: string where
  "LINUX_UNIT_FILE_NAME = ''net.dignetwork.dig-dns.service''"
definition LINUX_UNIT_DIR :: path where "LINUX_UNIT_DIR = [''etc'', ''systemd'', ''system'']"
definition linux_unit_file_path :: path where
  "linux_unit_file_path = LINUX_UNIT_DIR @ [LINUX_UNIT_FILE_NAME]"

section \<open>The unit\<close>

definition NET_BIND_CAPABILITY :: string where "NET_BIND_CAPABILITY = ''CAP_NET_BIND_SERVICE''"

definition linux_unit_contents :: "install_plan \<Rightarrow> string" where
  "linux_unit_contents plan =
     (let exec_args = join_with '' '' (args plan);
          env_lines = concat (map (\<lambda>(k, v). ''Environment='' @ k @ ''='' @ v @ NL) (environment plan));
          wanted_by = (if autostart plan then NL @ ''[Install]'' @ NL @ ''WantedBy=multi-user.target'' @ NL else [])
      in ''[Unit]'' @ NL @
         ''Description='' @ SERVICE_DISPLAY_NAME @ '' '' @ EM_DASH
           @ '' local *.dig resolver (DNS responder + HTTP gateway)'' @ NL @
         ''Documentation=https://docs.dig.net'' @ NL @
         ''After=network-online.target'' @ NL @
         ''Wants=network-online.target'' @ NL @
         NL @
         ''[Service]'' @ NL @
         ''Type=simple'' @ NL @
         ''ExecStart='' @ program plan @ '' '' @ exec_args @ NL @
         ''Restart=on-failure'' @ NL @
         ''RestartSec=5'' @ NL @
         ''# Runs as root so ExecStart can reach the root-owned binary copy (#565); privilege is'' @ NL @
         ''# then bounded to exactly the loopback :53/:80 bind (#177).'' @ NL @
         ''AmbientCapabilities='' @ NET_BIND_CAPABILITY @ NL @
         ''CapabilityBoundingSet='' @ NET_BIND_CAPABILITY @ NL @
         ''StateDirectory=dig-dns'' @ NL @
         ''NoNewPrivileges=true'' @ NL @
         ''ProtectSystem=full'' @ NL @
         ''# read-only: the service holds no secret material and never needs to write a home dir;'' @ NL @
         ''# read-only blocks writes while still allowing reads, a harmless defensive default (#528).'' @ NL @
         ''ProtectHome=read-only'' @ NL @
         ''PrivateTmp=true'' @ NL @
         env_lines @
         wanted_by)"

section \<open>The systemd backend\<close>

text \<open>A tool is looked up on the machine's disk. \<open>systemctl\<close> runs on the whole machine \<open>T\<close>: it may change files
  itself (\<open>disable\<close> drops the links of the \<open>[Install]\<close> section), and so may the service it stops or starts.\<close>

definition linux_tool :: "'m host \<Rightarrow> string \<Rightarrow> string" where
  "linux_tool h name = resolve_system_tool Linux [] (\<lambda>p. path_exists (disk h) (path_of p)) name"

definition systemctl :: "'m host sys_ops \<Rightarrow> string list \<Rightarrow> 'm host \<Rightarrow> (io_error + unit) \<times> 'm host" where
  "systemctl T as h =
     io_bind (cmd_status T (linux_tool h ''systemctl'') as h) (\<lambda>success h.
     if success then (Ok (), h)
     else (Err (io_other (''systemctl '' @ join_with '' '' as @ '' exited non-zero'')), h))"

text \<open>\<open>pid\<close> is \<open>std::process::id\<close>, which names the temporary file.\<close>

definition linux_backend :: "'m host sys_ops \<Rightarrow> nat \<Rightarrow> 'm host service_backend" where
  "linux_backend T pid = \<lparr>
     is_installed = (\<lambda>h. (Ok (is_file (disk h) linux_unit_file_path), h)),
     stop = systemctl T [''stop'', LINUX_UNIT_FILE_NAME],
     delete = (\<lambda>h.
       let (ignored, h) = systemctl T [''disable'', LINUX_UNIT_FILE_NAME] h in
       io_bind (if path_exists (disk h) linux_unit_file_path
                then on_disk (remove_file linux_unit_file_path) h else (Ok (), h)) (\<lambda>_ h.
       let (ignored, h) = systemctl T [''daemon-reload''] h in (Ok (), h))),
     create = (\<lambda>plan h.
       io_bind (case on_disk (atomic_write pid linux_unit_file_path (linux_unit_contents plan)) h of
                  (Inl e, h) \<Rightarrow> (Err (io_other e), h)
                | (Inr u, h) \<Rightarrow> (Ok (), h)) (\<lambda>_ h.
       io_bind (systemctl T [''daemon-reload''] h) (\<lambda>_ h.
       if autostart plan then systemctl T [''enable'', LINUX_UNIT_FILE_NAME] h else (Ok (), h)))),
     start = systemctl T [''start'', LINUX_UNIT_FILE_NAME]\<rparr>"

definition elevation_linux :: "'m sys_ops \<Rightarrow> 'm host \<Rightarrow> bool \<times> 'm host" where
  "elevation_linux S h =
     (let (r, h) = on_procs (cmd_output S (linux_tool h ''id'') [''-u'']) h
      in (case r of Inl e \<Rightarrow> False | Inr (success, out, err) \<Rightarrow> trim out = ''0'', h))"

text \<open>The platform operations of the commands on Linux.\<close>

definition linux_platform ::
  "'m sys_ops \<Rightarrow> 'm host sys_ops \<Rightarrow> nat \<Rightarrow> io_error + path \<Rightarrow> (nat \<Rightarrow> 'm \<Rightarrow> 'm) \<Rightarrow> 'm host platform_ops" where
  "linux_platform S T pid current_exe sleep = \<lparr>
     has_required_elevation = elevation_linux S,
     new_backend = Ok (linux_backend T pid, PREFERS_USER_LEVEL Linux),
     resolve_install_program = (\<lambda>h.
       let (r, h) = on_disk (stage_service_program current_exe) h in (map_res show_path r, h)),
     thread_sleep = (\<lambda>ms h. h\<lparr>procs := sleep ms (procs h)\<rparr>)\<rparr>"

section \<open>The systemd backend is a service registry\<close>

text \<open>The directory of the unit is a real directory; installed is a unit file, and it is the plan's when it
  has the plan's contents.\<close>

definition unit_dir_real :: "'m host \<Rightarrow> bool" where
  "unit_dir_real h \<longleftrightarrow> real_path (lookup (disk h)) linux_unit_file_path"

definition unit_installed :: "'m host \<Rightarrow> bool" where
  "unit_installed h \<longleftrightarrow> is_file (disk h) linux_unit_file_path"

definition unit_registered :: "install_plan \<Rightarrow> 'm host \<Rightarrow> bool" where
  "unit_registered plan h \<longleftrightarrow>
     (\<exists>e. lookup (disk h) linux_unit_file_path = Some e \<and> fnode e = File (linux_unit_contents plan))"

lemma unit_dir_real_cong:
  assumes "\<And>q. prefix q linux_unit_file_path \<Longrightarrow> q \<noteq> linux_unit_file_path \<Longrightarrow> lookup (disk h') q = lookup (disk h) q"
  shows "unit_dir_real h' = unit_dir_real h"
  unfolding unit_dir_real_def
  by (rule real_path_cong) (use assms in \<open>auto simp: take_is_prefix dest: arg_cong [where f = length]\<close>)

lemma unit_path_ne: "linux_unit_file_path \<noteq> []"
  by (simp add: linux_unit_file_path_def)

lemma unit_installed_iff:
  assumes "unit_dir_real h" "\<not> is_link_at (lookup (disk h)) linux_unit_file_path"
  shows "unit_installed h \<longleftrightarrow> (\<exists>e c. lookup (disk h) linux_unit_file_path = Some e \<and> fnode e = File c)"
proof -
  have "metadata (disk h) linux_unit_file_path = ok_or (os_error KNotFound) (lookup (disk h) linux_unit_file_path)"
    using assms by (simp add: unit_dir_real_def metadata_real)
  then show ?thesis
    unfolding unit_installed_def is_file_def
    by (cases "lookup (disk h) linux_unit_file_path") (auto split: fnode.splits)
qed

lemma unit_registered_installed: "unit_registered plan h \<Longrightarrow> unit_dir_real h \<Longrightarrow> unit_installed h"
  by (auto simp: unit_registered_def unit_installed_def unit_dir_real_def is_file_def metadata_real is_link_at_Some)

lemma unit_removed: "unit_dir_real h \<Longrightarrow> lookup (disk h) linux_unit_file_path = None \<Longrightarrow> \<not> unit_installed h"
  by (auto simp: unit_installed_def unit_dir_real_def is_file_def metadata_real is_link_at_def)

text \<open>What is assumed of \<open>systemctl\<close> and of what it starts and stops: it changes the disk in the places \<open>A\<close> only,
  which are neither the unit file nor one of its directories.\<close>

locale systemd_tools =
  fixes T :: "'m host sys_ops" and A :: "path set"
  assumes confined: "q \<notin> A \<Longrightarrow> lookup (disk (snd (cmd_status T cmd as h))) q = lookup (disk h) q"
    and unit_apart: "prefix q linux_unit_file_path \<Longrightarrow> q \<notin> A"
    and unit_link_apart: "is_link_at (lookup (disk h)) linux_unit_file_path
      \<Longrightarrow> unit_installed (snd (cmd_status T cmd as h)) = unit_installed h"
begin

lemma systemctl_lookup:
  assumes "systemctl T as h = (r, h')" "q \<notin> A"
  shows "lookup (disk h') q = lookup (disk h) q"
proof -
  have "h' = snd (cmd_status T (linux_tool h ''systemctl'') as h)"
    using assms(1) by (cases "cmd_status T (linux_tool h ''systemctl'') as h"; cases "fst (cmd_status T (linux_tool h ''systemctl'') as h)")
      (auto simp: systemctl_def split: if_splits)
  with confined [OF assms(2)] show ?thesis by simp
qed

lemma systemctl_unit:
  assumes "systemctl T as h = (r, h')"
  shows "lookup (disk h') linux_unit_file_path = lookup (disk h) linux_unit_file_path"
    and "unit_dir_real h' = unit_dir_real h"
    and "unit_dir_real h \<Longrightarrow> unit_installed h' = unit_installed h"
proof -
  have same: "lookup (disk h') q = lookup (disk h) q" if "prefix q linux_unit_file_path" for q
    using systemctl_lookup [OF assms] unit_apart [OF that] by blast
  then show unit: "lookup (disk h') linux_unit_file_path = lookup (disk h) linux_unit_file_path" by simp
  from same show real: "unit_dir_real h' = unit_dir_real h" by (rule unit_dir_real_cong)
  have h': "h' = snd (cmd_status T (linux_tool h ''systemctl'') as h)"
    using assms by (cases "cmd_status T (linux_tool h ''systemctl'') as h"; cases "fst (cmd_status T (linux_tool h ''systemctl'') as h)")
      (auto simp: systemctl_def split: if_splits)
  have "is_link_at (lookup (disk h')) linux_unit_file_path = is_link_at (lookup (disk h)) linux_unit_file_path"
    by (simp add: is_link_at_def unit)
  then show "unit_dir_real h \<Longrightarrow> unit_installed h' = unit_installed h"
    using unit_link_apart [of h] unit_installed_iff [of h] unit_installed_iff [of h'] real unit h'
    by (cases "is_link_at (lookup (disk h)) linux_unit_file_path") simp_all
qed

text \<open>Each operation of the backend changes the disk at the unit and in \<open>A\<close> only.\<close>

lemma stop_start:
  "stop (linux_backend T pid) h = (r, h') \<Longrightarrow> \<exists>as. systemctl T as h = (r, h')"
  "start (linux_backend T pid) h = (r, h') \<Longrightarrow> \<exists>as. systemctl T as h = (r, h')"
  by (auto simp: linux_backend_def)

lemma delete_disk:
  assumes "unit_dir_real h" "delete (linux_backend T pid) h = (r, h')"
  shows "unit_dir_real h'" "q \<notin> A \<Longrightarrow> q \<noteq> linux_unit_file_path \<Longrightarrow> lookup (disk h') q = lookup (disk h) q"
    and "lookup (disk h') linux_unit_file_path \<in> {lookup (disk h) linux_unit_file_path, None}"
    and "is_ok r \<Longrightarrow> \<not> unit_installed h'"
proof -
  let ?p = linux_unit_file_path
  obtain r1 h1 where d: "systemctl T [''disable'', LINUX_UNIT_FILE_NAME] h = (r1, h1)" by fastforce
  note u1 = systemctl_unit [OF d] and l1 = systemctl_lookup [OF d]
  have real1: "unit_dir_real h1" using u1(2) assms(1) by simp
  define f where "f = (if path_exists (disk h1) ?p then on_disk (remove_file ?p) h1 else (Ok (), h1))"
  obtain r2 h2 where f: "f = (r2, h2)" by fastforce
  have step: "lookup (disk h2) = lookup (disk h1) \<and> (is_ok r2 \<longrightarrow> \<not> path_exists (disk h1) ?p)
      \<or> lookup (disk h2) = (lookup (disk h1))(?p := None)"
  proof (cases "path_exists (disk h1) ?p")
    case True
    with f obtain w where "remove_file ?p (disk h1) = (r2, w)" "disk h2 = w" by (auto simp: f_def on_disk_eq)
    with remove_file_cases [of ?p "disk h1" r2 w] remove_file_Ok [of ?p "disk h1" _ w] real1 show ?thesis
      by (cases r2) (auto simp: unit_dir_real_def)
  qed (use f in \<open>auto simp: f_def\<close>)
  then have real2: "unit_dir_real h2"
    using unit_dir_real_cong [of h2 h1] real1 by auto
  have inst2: "\<not> unit_installed h2" if "is_ok r2"
    using step
  proof
    assume s: "lookup (disk h2) = lookup (disk h1) \<and> (is_ok r2 \<longrightarrow> \<not> path_exists (disk h1) ?p)"
    then have "metadata (disk h2) ?p = metadata (disk h1) ?p" by (simp add: metadata_def entry_at_def resolve_path_def)
    with s that show ?thesis by (auto simp: unit_installed_def is_file_def path_exists_def split: sum.splits)
  qed (use unit_removed [OF real2] in auto)
  have del: "delete (linux_backend T pid) h = (case r2 of Inl e \<Rightarrow> (Err e, h2)
      | Inr u \<Rightarrow> (Ok (), snd (systemctl T [''daemon-reload''] h2)))"
    by (cases "path_exists (disk h1) ?p"; cases r2) (use d f in \<open>auto simp: linux_backend_def f_def split_beta\<close>)
  obtain r3 h3 where rl: "systemctl T [''daemon-reload''] h2 = (r3, h3)" by fastforce
  have h': "h' = (if is_ok r2 then h3 else h2)" "is_ok r = is_ok r2" using del assms(2) rl by (cases r2; simp)+
  note u3 = systemctl_unit [OF rl] and l3 = systemctl_lookup [OF rl]
  show "unit_dir_real h'" using h'(1) real2 u3(2) by simp
  show "is_ok r \<Longrightarrow> \<not> unit_installed h'" using h' inst2 u3(3) [OF real2] by simp
  show "q \<notin> A \<Longrightarrow> q \<noteq> ?p \<Longrightarrow> lookup (disk h') q = lookup (disk h) q"
    using h'(1) l1 l3 step by (auto split: if_splits)
  show "lookup (disk h') ?p \<in> {lookup (disk h) ?p, None}"
    using h'(1) u1(1) u3(1) step by (auto split: if_splits)
qed

lemma create_disk:
  assumes "unit_dir_real h" "create (linux_backend T pid) plan h = (Ok u, h')"
  shows "unit_dir_real h'" "unit_registered plan h'"
    and "q \<notin> A \<Longrightarrow> q \<noteq> linux_unit_file_path \<Longrightarrow> lookup (disk h') q = lookup (disk h) q"
proof -
  let ?p = linux_unit_file_path and ?c = "linux_unit_contents plan"
  obtain r1 h1 where w: "on_disk (atomic_write pid ?p ?c) h = (r1, h1)" by fastforce
  with assms(2) obtain h2 where ok: "is_ok r1" and d: "systemctl T [''daemon-reload''] h1 = (Ok (), h2)"
    and e: "if autostart plan then systemctl T [''enable'', LINUX_UNIT_FILE_NAME] h2 = (Ok u, h') else h' = h2"
    by (auto simp: linux_backend_def io_bind_Ok_iff split: sum.splits if_splits)
  from w obtain v where a: "atomic_write pid ?p ?c (disk h) = (r1, v)" "disk h1 = v" by (auto simp: on_disk_eq)
  from atomic_write_cases [OF unit_path_ne _ a(1)] assms(1) ok a(2) obtain e1
    where e1: "fnode e1 = File ?c" "lookup (disk h1) = (lookup (disk h))(?p \<mapsto> e1)"
    by (auto simp: unit_dir_real_def)
  have real1: "unit_dir_real h1" using unit_dir_real_cong [of h1 h] e1(2) assms(1) by auto
  note u2 = systemctl_unit [OF d] and l2 = systemctl_lookup [OF d]
  have u': "lookup (disk h') ?p = lookup (disk h2) ?p" "unit_dir_real h' = unit_dir_real h2"
    "q \<notin> A \<Longrightarrow> lookup (disk h') q = lookup (disk h2) q" for q
    using e systemctl_unit(1,2) systemctl_lookup by (auto split: if_splits)
  show "unit_dir_real h'" using u'(2) u2(2) real1 by simp
  show "unit_registered plan h'" using u'(1) u2(1) e1 by (simp add: unit_registered_def)
  show "q \<notin> A \<Longrightarrow> q \<noteq> ?p \<Longrightarrow> lookup (disk h') q = lookup (disk h) q"
    using u'(3) l2 e1(2) by simp
qed

end

sublocale systemd_tools \<subseteq> systemd: service_registry "linux_backend T pid" unit_dir_real unit_installed unit_registered
  for pid
proof
  fix w :: "'m host" and r w'
  assume "is_installed (linux_backend T pid) w = (r, w')"
  then show "r = Ok (unit_installed w) \<and> w' = w"
    by (auto simp: linux_backend_def unit_installed_def)
next
  fix w :: "'m host" and r w' plan
  assume a: "unit_dir_real w" "stop (linux_backend T pid) w = (r, w')"
  from stop_start(1) [OF a(2)] systemctl_unit a(1)
  show "(unit_registered plan w \<longrightarrow> unit_registered plan w') \<and> unit_dir_real w'"
    by (fastforce simp: unit_registered_def)
next
  fix w :: "'m host" and u w'
  assume "unit_dir_real w" "delete (linux_backend T pid) w = (Ok u, w')"
  from delete_disk(1,4) [OF this] show "\<not> unit_installed w' \<and> unit_dir_real w'" by simp
next
  fix w :: "'m host" and plan u w'
  assume "unit_dir_real w" "create (linux_backend T pid) plan w = (Ok u, w')"
  from create_disk(1,2) [OF this] show "unit_registered plan w' \<and> unit_dir_real w'" by simp
next
  fix w :: "'m host" and r w' plan
  assume a: "unit_dir_real w" "start (linux_backend T pid) w = (r, w')"
  from stop_start(2) [OF a(2)] systemctl_unit a(1)
  show "(unit_registered plan w \<longrightarrow> unit_registered plan w') \<and> unit_dir_real w'"
    by (fastforce simp: unit_registered_def)
qed (rule unit_registered_installed)

context systemd_tools
begin

lemmas linux_registry = systemd.service_registry_axioms

end

text \<open>Processes that work on the processes of the machine alone.\<close>

definition process_tools :: "'m sys_ops \<Rightarrow> 'm host sys_ops" where
  "process_tools S = \<lparr>cmd_status = (\<lambda>cmd as. on_procs (cmd_status S cmd as)),
     cmd_output = (\<lambda>cmd as. on_procs (cmd_output S cmd as))\<rparr>"

interpretation diskless: systemd_tools "process_tools S" "{}"
proof
  have d: "disk (snd (cmd_status (process_tools S) cmd as h)) = disk h" for cmd as and h :: "'a host"
    using disk_on_procs [of "cmd_status S cmd as" h] by (simp add: process_tools_def prod_eq_iff)
  show "lookup (disk (snd (cmd_status (process_tools S) cmd as h))) q = lookup (disk h) q"
    and "unit_installed (snd (cmd_status (process_tools S) cmd as h)) = unit_installed h"
    for q cmd as and h :: "'a host"
    by (simp_all add: d unit_installed_def)
qed simp

text \<open>A \<open>systemctl\<close> whose \<open>disable\<close> drops the link of the \<open>[Install]\<close> section, for a unit that is a file.\<close>

definition unit_link :: path where
  "unit_link = LINUX_UNIT_DIR @ [''multi-user.target.wants'', LINUX_UNIT_FILE_NAME]"

definition link_tools :: "unit host sys_ops" where
  "link_tools = \<lparr>cmd_status = (\<lambda>cmd as h. (Ok True,
       if as = [''disable'', LINUX_UNIT_FILE_NAME] \<and> \<not> is_link_at (lookup (disk h)) linux_unit_file_path
       then h\<lparr>disk := del_entry unit_link (disk h)\<rparr> else h)),
     cmd_output = (\<lambda>cmd as h. (Ok (True, [], []), h))\<rparr>"

interpretation linked: systemd_tools link_tools "{unit_link}"
  by unfold_locales
     (auto simp: link_tools_def unit_link_def linux_unit_file_path_def LINUX_UNIT_DIR_def prefix_Cons)

text \<open>A successful reinstall changes the disk at the unit and in \<open>A\<close> only.\<close>

context systemd_tools
begin

lemma reinstall_disk:
  assumes "unit_dir_real h" "reinstall sleep (linux_backend T pid) plan h = (Ok report, h')"
    and "q \<notin> A" "q \<noteq> linux_unit_file_path"
  shows "lookup (disk h') q = lookup (disk h) q"
proof -
  let ?B = "linux_backend T pid"
  from assms(2) obtain b h1 h5 h6 where i: "is_installed ?B h = (Ok b, h1)"
    and branch: "if b then \<exists>s h2 h3. stop ?B h1 = (s, h2) \<and> delete ?B h2 = (Ok (), h3)
        \<and> wait_for_removal REMOVAL_POLL_ATTEMPTS sleep ?B h3 = (Ok (), h5) else h5 = h1"
    and c: "create ?B plan h5 = (Ok (), h6)" "start ?B h6 = (Ok (), h')"
    by (auto simp: reinstall_Ok_iff split: if_splits)
  have h1: "h1 = h" using i by (simp add: linux_backend_def)
  have h5: "unit_dir_real h5 \<and> lookup (disk h5) q = lookup (disk h) q"
  proof (cases b)
    case True
    with branch h1 obtain s h2 h3 where sd: "stop ?B h = (s, h2)" "delete ?B h2 = (Ok (), h3)"
      and w: "wait_for_removal REMOVAL_POLL_ATTEMPTS sleep ?B h3 = (Ok (), h5)" by auto
    obtain as where st: "systemctl T as h = (s, h2)" using stop_start(1) [OF sd(1)] by blast
    then have h2: "unit_dir_real h2" using systemctl_unit(2) assms(1) by blast
    note d = delete_disk [OF h2 sd(2)]
    from systemd.wait_immediate [OF d(1), of 39 sleep pid] d(4) w have "h5 = h3"
      by (simp add: REMOVAL_POLL_ATTEMPTS_def)
    with d(1,2) systemctl_lookup [OF st] assms(3,4) show ?thesis by simp
  qed (use branch h1 assms(1) in simp)
  obtain as where "systemctl T as h6 = (Ok (), h')" using stop_start(2) [OF c(2)] by blast
  with systemctl_lookup [OF this assms(3)] create_disk(3) [OF conjunct1 [OF h5] c(1) assms(3,4)] h5 show ?thesis
    by simp
qed

end

section \<open>Properties\<close>

text \<open>A successful \<open>install\<close>: the unit on disk is the one of the configuration, for a program that stays root's
  under directories, whatever unprivileged users do from then on.\<close>

lemma linux_install:
  assumes "systemd_tools T A" "\<And>q. prefix q linux_program_dest \<Longrightarrow> q \<notin> A"
    and "wf_tree (disk h)" "unit_dir_real h"
    and "install Linux J (linux_platform S T pid (Ok exe) sleep) cfg h = (Ok out, h')"
    and "user_step\<^sup>*\<^sup>* (lookup (disk h')) t"
  shows "fst (elevation_linux S h)
    \<and> unit_registered (build_plan Linux cfg (show_path linux_program_dest)) h'
    \<and> (\<exists>e d. t linux_program_dest = Some e \<and> lookup (disk h') linux_program_dest = Some e
         \<and> fnode e = File d \<and> fuid e = 0)
    \<and> (\<forall>n<length linux_program_dest. is_dir_at t (take n linux_program_dest))"
proof -
  let ?P = "linux_platform S T pid (Ok exe) sleep" and ?dest = linux_program_dest
  obtain ok h0 where el: "elevation_linux S h = (ok, h0)" by fastforce
  have h0: "disk h0 = disk h"
    using arg_cong [OF el, of snd] by (auto simp: elevation_linux_def on_procs_def split_beta Let_def)
  from assms(5) el obtain prog h1 report where ok: ok
    and pr: "resolve_install_program ?P h0 = (Ok prog, h1)"
    and re: "reinstall (thread_sleep ?P) (linux_backend T pid) (build_plan Linux cfg prog) h1 = (Ok report, h')"
    by (cases ok) (auto simp: install_def elevation_missing_def INSTALL_REQUIRES_ELEVATION_def
        linux_platform_def io_bind_Ok_iff Let_def)
  from pr h0 obtain dest d1 where st: "stage_service_program (Ok exe) (disk h) = (Ok dest, d1)"
    and h1: "disk h1 = d1" "prog = show_path dest"
    by (cases "stage_service_program (Ok exe) (disk h)")
       (auto simp: linux_platform_def on_disk_def map_res_Ok_iff)
  note sp = stage_Ok [OF assms(3) st]
  have keep: "is_dir_at (lookup d1) q" if "is_dir_at (lookup (disk h)) q" "q \<noteq> LINUX_PROGRAM_DIR" "q \<noteq> dest" for q
    using sp(5) that by (auto simp: is_dir_at_Some)
  have "unit_dir_real h1"
    using assms(4) keep h1(1) sp(1)
    by (auto simp: unit_dir_real_def real_path_def upt_conv_Cons linux_unit_file_path_def LINUX_UNIT_DIR_def
        LINUX_PROGRAM_DIR_def linux_paths(2))
  with systemd_tools.reinstall_disk [OF assms(1) _ re]
    service_registry.reinstall_Ok [OF systemd_tools.linux_registry [OF assms(1)] _ re]
  have reg: "unit_registered (build_plan Linux cfg prog) h'"
    and same: "\<And>q. q \<notin> A \<Longrightarrow> q \<noteq> linux_unit_file_path \<Longrightarrow> lookup (disk h') q = lookup d1 q"
    using h1(1) by auto
  have ne: "take n ?dest \<noteq> linux_unit_file_path" for n
    by (cases n) (auto simp: linux_unit_file_path_def LINUX_UNIT_DIR_def LINUX_PROGRAM_DIR_def linux_paths(2))
  have tk: "lookup (disk h') (take n ?dest) = lookup d1 (take n ?dest)" for n
    using same ne assms(2) by (simp add: take_is_prefix)
  then have "protected (lookup (disk h')) ?dest"
    using sp(1,2) by (simp add: protected_def)
  from user_steps_protected [OF assms(6) this]
  have user: "t (take n ?dest) = lookup d1 (take n ?dest)" for n
    using tk by (simp add: take_is_prefix)
  from sp(1,3,4) user [of "length ?dest"] tk [of "length ?dest"] user reg h1(2) ok el
  show ?thesis by (auto simp: is_dir_at_def)
qed

definition demo_tools :: "unit sys_ops" where
  "demo_tools = \<lparr>cmd_status = (\<lambda>c as m. (Ok True, m)), cmd_output = (\<lambda>c as m. (Ok (True, ''0'', []), m))\<rparr>"

definition demo_host :: "unit host" where
  "demo_host = \<lparr>disk = demo_machine\<lparr>tree := tree demo_machine @ [([''etc''], root_dir), ([''etc'', ''systemd''], root_dir),
      ([''etc'', ''systemd'', ''system''], root_dir)]\<rparr>, procs = ()\<rparr>"

abbreviation demo_platform :: "unit host platform_ops" where
  "demo_platform \<equiv> linux_platform demo_tools (process_tools demo_tools) 9 (Ok [''home'', ''u'', ''x'']) (\<lambda>_ m. m)"

lemma demo_install:
  "\<exists>out h'. install Linux json_tree demo_platform default_config demo_host = (Ok out, h')"
proof -
  define h1 where "h1 = snd (resolve_install_program demo_platform demo_host)"
  define prog where "prog = show_path linux_program_dest"
  define plan where "plan = build_plan Linux default_config prog"
  have el: "elevation_linux demo_tools demo_host = (True, demo_host)"
    by code_simp
  have pr: "resolve_install_program demo_platform demo_host = (Ok prog, h1)"
    unfolding h1_def prog_def by code_simp
  have d1: "real_path (lookup (disk h1)) linux_unit_file_path" "faults (disk h1) = []"
    "lookup (disk h1) (temp_path 9 linux_unit_file_path) = None"
    "\<not> is_dir_at (lookup (disk h1)) linux_unit_file_path" "\<not> is_file (disk h1) linux_unit_file_path"
    unfolding h1_def by code_simp+
  have ne: "linux_unit_file_path \<noteq> []" by (simp add: linux_unit_file_path_def)
  obtain u d2 where aw: "atomic_write 9 linux_unit_file_path (linux_unit_contents plan) (disk h1) = (Ok u, d2)"
    using atomic_write_succeeds [OF ne d1(1-4), of "linux_unit_contents plan"]
    by (cases "atomic_write 9 linux_unit_file_path (linux_unit_contents plan) (disk h1)") (auto simp: is_ok_iff)
  have sc: "systemctl (process_tools demo_tools) as h = (Ok (), h)" for as h
    by (simp add: systemctl_def process_tools_def on_procs_def demo_tools_def)
  have "reinstall (thread_sleep demo_platform) (linux_backend (process_tools demo_tools) 9) plan h1
    = (Ok (default_report\<lparr>created := True, started := True\<rparr>), h1\<lparr>disk := d2\<rparr>)"
    using aw d1(5)
    by (simp add: reinstall_def linux_backend_def sc on_disk_def plan_def build_plan_def)
  then show ?thesis
    using el pr
    by (simp add: install_def elevation_missing_def INSTALL_REQUIRES_ELEVATION_def plan_def)
       (simp add: linux_platform_def Let_def)
qed

lemma safe_value_no_newline:
  "config_ok cfg \<Longrightarrow> kv \<in> set (environment (build_plan platform cfg prog)) \<Longrightarrow> NLc \<notin> set (fst kv) \<and> NLc \<notin> set (snd kv)"
proof -
  assume c: "config_ok cfg" and kv: "kv \<in> set (environment (build_plan platform cfg prog))"
  have g: "NLc \<notin> set s" if "list_all graphic s" for s
    using that by (auto simp: list_all_iff graphic_def NLc_def char_code_def dest!: bspec)
  have w: "NLc \<notin> set (show_word x)" for x :: "'a::len word"
    by (rule g) (simp add: show_word_def show_nat_graphic)
  have ip: "NLc \<notin> set (show_ipv4 x)" for x
    by (cases x) (simp add: NLc_def w [unfolded NLc_def])
  have "NLc \<notin> set (tld cfg)"
    using c safe_tld_chars(1) [of "tld cfg"] g by (simp add: config_ok_def)
  moreover have "NLc \<notin> set (trim url)" if "node_url cfg = Some url" for url
  proof -
    have "is_safe_node_url url" using c that by (simp add: config_ok_def)
    then have "NLc \<notin> set url" by (auto simp: is_safe_node_url_def list_ex_iff NLc_def char_code_def)
    with set_trim [of url] show ?thesis by blast
  qed
  ultimately show ?thesis
    using kv w ip
    by (auto simp: build_plan_def Let_def split: option.splits if_splits) (simp_all add: env_names NLc_def w [unfolded NLc_def])
qed

text \<open>C22. No configuration can inject a directive into the root unit: for every valid configuration the unit
  splits into exactly the fixed lines, the \<open>ExecStart\<close> line of the program, and one \<open>Environment=\<close> line per
  variable of the plan, whose name and value stand on that line as they are.\<close>

theorem linux_unit_lines:
  assumes "config_ok cfg" "NLc \<notin> set prog"
  shows "split_on NLc (linux_unit_contents (build_plan Linux cfg prog))
    = [''[Unit]'',
       ''Description=DIG NETWORK: DNS '' @ EM_DASH @ '' local *.dig resolver (DNS responder + HTTP gateway)'',
       ''Documentation=https://docs.dig.net'', ''After=network-online.target'',
       ''Wants=network-online.target'', [], ''[Service]'', ''Type=simple'',
       ''ExecStart='' @ prog @ '' serve'', ''Restart=on-failure'', ''RestartSec=5'',
       ''# Runs as root so ExecStart can reach the root-owned binary copy (#565); privilege is'',
       ''# then bounded to exactly the loopback :53/:80 bind (#177).'',
       ''AmbientCapabilities=CAP_NET_BIND_SERVICE'', ''CapabilityBoundingSet=CAP_NET_BIND_SERVICE'',
       ''StateDirectory=dig-dns'', ''NoNewPrivileges=true'', ''ProtectSystem=full'',
       ''# read-only: the service holds no secret material and never needs to write a home dir;'',
       ''# read-only blocks writes while still allowing reads, a harmless defensive default (#528).'',
       ''ProtectHome=read-only'', ''PrivateTmp=true'']
      @ map (\<lambda>(k, v). ''Environment='' @ k @ ''='' @ v) (environment (build_plan Linux cfg prog))
      @ [[], ''[Install]'', ''WantedBy=multi-user.target'', []]"
    (is "_ = ?head @ ?env @ ?tail")
proof -
  let ?lines = "?head @ ?env @ [[], ''[Install]'', ''WantedBy=multi-user.target'']"
  have plan: "program (build_plan Linux cfg prog) = prog" "args (build_plan Linux cfg prog) = [''serve'']"
    "autostart (build_plan Linux cfg prog)"
    by (simp_all add: build_plan_def)
  have eq: "linux_unit_contents (build_plan Linux cfg prog) = concat (map (\<lambda>l. l @ NL) ?lines) @ []"
    by (simp add: linux_unit_contents_def Let_def plan SERVICE_DISPLAY_NAME_def NET_BIND_CAPABILITY_def
        o_def split_def)
  have nl: "\<forall>l \<in> set ?lines. NLc \<notin> set l"
    using assms(2) safe_value_no_newline [OF assms(1), of _ Linux prog]
    by (auto simp: NLc_def EM_DASH_def)
  show ?thesis
    unfolding eq using split_on_lines [OF nl, of "[]"] by simp
qed

theorem linux_unit_lines_witness:
  "''Environment=DIG_NODE_URL=http://n b=c'' \<in> set (split_on NLc (linux_unit_contents
     (build_plan Linux (default_config\<lparr>node_url := Some ''http://n b=c''\<rparr>) ''/bin/x'')))"
proof -
  have c: "config_ok (default_config\<lparr>node_url := Some ''http://n b=c''\<rparr>)"
    using default_config_ok
    by (simp add: config_ok_def default_config_def is_safe_node_url_def char_code_def)
  have p: "NLc \<notin> set ''/bin/x''" by (simp add: NLc_def)
  have t: "trim ''http://n b=c'' = ''http://n b=c''" by code_simp
  show ?thesis
    unfolding linux_unit_lines [OF c p]
    by (simp add: build_plan_def t ENV_NODE_URL_def)
qed

end
