(* ===== verification/ManagedService.thy ===== *)
theory ManagedService
  imports Service State
begin

text \<open>
  The backend of \<open>src/service.rs\<close> on Windows and macOS, which goes through the crate \<open>service_manager\<close> (the
  record \<open>manager_ops\<close>, a parameter), and the command \<open>status\<close>. \<open>tool\<close> is \<open>resolve_system_tool\<close>, which looks at
  what exists in the world.
\<close>

section \<open>The backend over the service manager\<close>

record install_ctx =
  ctx_program :: string
  ctx_args :: "string list"
  ctx_environment :: "(string \<times> string) list"
  ctx_autostart :: bool

text \<open>\<open>native\<close> is \<open>ServiceManager::native()\<close>, \<open>parsed_label\<close> is \<open>ServiceLabel::from_str(SERVICE_LABEL)\<close> as its
  qualified name; the other operations are those of the native manager for that label, after \<open>set_level\<close>.\<close>

record 'w manager_ops =
  native :: "io_error + unit"
  parsed_label :: "string + string"
  set_user_level :: "io_error + unit"
  manager_stop :: "'w \<Rightarrow> (io_error + unit) \<times> 'w"
  manager_uninstall :: "'w \<Rightarrow> (io_error + unit) \<times> 'w"
  manager_install :: "install_ctx \<Rightarrow> 'w \<Rightarrow> (io_error + unit) \<times> 'w"
  manager_start :: "'w \<Rightarrow> (io_error + unit) \<times> 'w"

definition label :: "'w manager_ops \<Rightarrow> io_error + string" where
  "label M = (case parsed_label M of Inl e \<Rightarrow> Err (IoError KInvalidInput e) | Inr l \<Rightarrow> Ok l)"

definition libc_getuid :: "'w sys_ops \<Rightarrow> ('w \<Rightarrow> string \<Rightarrow> string) \<Rightarrow> 'w \<Rightarrow> u32 \<times> 'w" where
  "libc_getuid S tool w =
     (let (r, w) = cmd_output S (tool w ''id'') [''-u''] w
      in (case r of
            Inl e \<Rightarrow> 0
          | Inr (success, out, err) \<Rightarrow> unwrap_or (parse_u32 (trim out)) 0, w))"

definition launchd_domain_target ::
  "os \<Rightarrow> 'w sys_ops \<Rightarrow> ('w \<Rightarrow> string \<Rightarrow> string) \<Rightarrow> string \<Rightarrow> 'w \<Rightarrow> string \<times> 'w" where
  "launchd_domain_target platform S tool service_name w =
     (if PREFERS_USER_LEVEL platform
      then let (uid, w) = libc_getuid S tool w
           in (''gui/'' @ show_word uid @ ''/'' @ service_name, w)
      else (''system/'' @ service_name, w))"

text \<open>\<open>.status().map(|s| s.success()).unwrap_or(false)\<close>.\<close>

definition succeeds :: "'w sys_ops \<Rightarrow> string \<Rightarrow> string list \<Rightarrow> 'w \<Rightarrow> bool \<times> 'w" where
  "succeeds S cmd as w =
     (let (r, w) = cmd_status S cmd as w in (case r of Inl e \<Rightarrow> False | Inr ok \<Rightarrow> ok, w))"

definition query_installed ::
  "os \<Rightarrow> 'w sys_ops \<Rightarrow> ('w \<Rightarrow> string \<Rightarrow> string) \<Rightarrow> string \<Rightarrow> 'w \<Rightarrow> bool \<times> 'w" where
  "query_installed platform S tool service_name w =
     (if platform = Windows then succeeds S (tool w ''sc.exe'') [''query'', service_name] w
      else let (domain, w) = launchd_domain_target platform S tool service_name w
           in succeeds S (tool w ''launchctl'') [''print'', domain] w)"

definition set_windows_display_name ::
  "'w sys_ops \<Rightarrow> ('w \<Rightarrow> string \<Rightarrow> string) \<Rightarrow> string \<Rightarrow> string \<Rightarrow> 'w \<Rightarrow> 'w" where
  "set_windows_display_name S tool service_name dname w =
     snd (cmd_status S (tool w ''sc.exe'') (display_name_config_args service_name dname) w)"

definition managed_backend ::
  "os \<Rightarrow> 'w sys_ops \<Rightarrow> ('w \<Rightarrow> string \<Rightarrow> string) \<Rightarrow> 'w manager_ops \<Rightarrow> string \<Rightarrow> 'w service_backend" where
  "managed_backend platform S tool M service_name =
     \<lparr>is_installed = (\<lambda>w. let (b, w) = query_installed platform S tool service_name w in (Ok b, w)),
      stop = manager_stop M,
      delete = manager_uninstall M,
      create = (\<lambda>plan w.
        io_bind (manager_install M \<lparr>ctx_program = program plan, ctx_args = args plan,
            ctx_environment = environment plan, ctx_autostart = autostart plan\<rparr> w) (\<lambda>_ w.
        (Ok (), if platform = Windows
                then set_windows_display_name S tool service_name (display_name plan) w else w))),
      start = manager_start M\<rparr>"

text \<open>\<open>SystemServiceBackend::new\<close>: the backend and whether it works at user level.\<close>

definition new_managed_backend ::
  "os \<Rightarrow> 'w sys_ops \<Rightarrow> ('w \<Rightarrow> string \<Rightarrow> string) \<Rightarrow> 'w manager_ops \<Rightarrow> io_error + 'w service_backend \<times> bool" where
  "new_managed_backend platform S tool M =
     (case native M of
        Inl e \<Rightarrow> Err e
      | Inr u \<Rightarrow>
          (let user_level = PREFERS_USER_LEVEL platform \<and> is_ok (set_user_level M)
           in case label M of
                Inl e \<Rightarrow> Err e
              | Inr l \<Rightarrow> Ok (managed_backend platform S tool M l, user_level)))"

text \<open>The platform operations of the commands on Windows and macOS: an agent of the user needs no elevation on
  macOS, and the program is the running executable itself. \<open>system32\<close> is the system directory.\<close>

definition managed_platform ::
  "os \<Rightarrow> 'w sys_ops \<Rightarrow> string \<Rightarrow> ('w \<Rightarrow> string \<Rightarrow> string) \<Rightarrow> 'w manager_ops \<Rightarrow> io_error + string \<Rightarrow> (nat \<Rightarrow> 'w \<Rightarrow> 'w)
     \<Rightarrow> 'w platform_ops" where
  "managed_platform platform S system32 tool M current_exe sleep =
     \<lparr>has_required_elevation = (if platform = MacOs then (\<lambda>w. (True, w)) else elevation_windows S system32),
      new_backend = new_managed_backend platform S tool M,
      resolve_install_program = (\<lambda>w. (current_exe, w)),
      thread_sleep = sleep\<rparr>"

section \<open>The status command\<close>

text \<open>\<open>disk\<close> is the file system of a state of the world.\<close>

definition status ::
  "os \<Rightarrow> 'v json_ops \<Rightarrow> 'v json_text_ops \<Rightarrow> ('c, 'w) tcp_ops \<Rightarrow> 'w platform_ops \<Rightarrow> ('w \<Rightarrow> fsys)
     \<Rightarrow> (string \<Rightarrow> string option) \<Rightarrow> path \<Rightarrow> config \<Rightarrow> 'w \<Rightarrow> (io_error + 'v service_outcome) \<times> 'w" where
  "status platform J TJ T P disk get cwd cfg w =
     (let (serving, w) = probe_serving T cfg w;
          (registered, w) = (case new_backend P of
              Inl e \<Rightarrow> (False, w)
            | Inr (B, user_level) \<Rightarrow>
                (case is_installed B w of (Inl e, w) \<Rightarrow> (False, w) | (Inr b, w) \<Rightarrow> (b, w)));
          runtime = read_runtime J TJ platform get cwd (disk w);
          primary = show_ipv4 (loopback_ip cfg) @ '':'' @ show_word (http_port cfg);
          bound = (case runtime of
              Some r \<Rightarrow> rt_loopback_ip r @ '':'' @ show_word (rt_http_port r)
            | None \<Rightarrow> primary);
          pid_note = (case runtime of Some r \<Rightarrow> '', pid '' @ show_word (pid r) | None \<Rightarrow> []);
          reg = (if registered then ''true'' else ''false'');
          summary = (if serving
            then ''dig-dns: SERVING on http://'' @ bound @ '' (registered: '' @ reg @ pid_note @ '')''
            else ''dig-dns: NOT responding on http://'' @ bound @ '' (registered: '' @ reg @ pid_note @ '') ''
                 @ [CHR 0xE2, CHR 0x80, CHR 0x94] @ '' the service may be stopped or not installed'');
          obj = jobj J [(''serving'', jbool J serving), (''registered'', jbool J registered),
                        (''label'', jstr J SERVICE_LABEL), (''addr'', jstr J bound),
                        (''state_dir'', jstr J (resolve_state_dir platform get))];
          obj = (case runtime of
              Some r \<Rightarrow> jset J (jset J (jset J obj ''pid'' (ju64 J (ucast (pid r))))
                  ''bound_port'' (ju64 J (ucast (rt_http_port r))))
                  ''dns_active'' (jbool J (rt_dns_active r))
            | None \<Rightarrow> obj)
      in (Ok (summary, obj), w))"

text \<open>On Windows the existence probe asks for the name the manager registers.\<close>

lemma managed_is_installed_windows:
  "is_installed (managed_backend Windows S tool M name) w
     = (let (r, w) = cmd_status S (tool w ''sc.exe'') [''query'', name] w
        in (Ok (case r of Inl e \<Rightarrow> False | Inr ok \<Rightarrow> ok), w))"
  by (simp add: managed_backend_def query_installed_def succeeds_def split_beta Let_def)

end
