(* ===== verification/SecureDns.thy ===== *)
theory SecureDns
  imports Machine
begin

text \<open>
  \<open>src/secure_dns.rs\<close>: the encrypted lookup of \<open>rpc.dig.net\<close>. The crate \<open>hickory_resolver\<close> and the lookups of
  the operating system are the record \<open>dns_ops\<close>; what is modelled is the chain of providers with the
  configuration it hands to that crate, the fallback and the scope check.
\<close>

section \<open>The providers\<close>

definition UPSTREAM_HOST :: string where "UPSTREAM_HOST = ''rpc.dig.net''"
definition TIER_TIMEOUT_SECS :: nat where "TIER_TIMEOUT_SECS = 3"

datatype tier = MullvadDoh | MullvadDot | Quad9Dot

fun show_tier :: "tier \<Rightarrow> string" where
  "show_tier MullvadDoh = ''Mullvad DoH''"
| "show_tier MullvadDot = ''Mullvad DoT''"
| "show_tier Quad9Dot = ''Quad9 DoT''"

datatype encrypted_protocol = Doh | Dot

record provider_tier =
  provider_id :: tier
  provider_ipv6 :: "128 word"
  provider_ipv4 :: ipv4
  tls_name :: string
  protocol :: encrypted_protocol

text \<open>\<open>Ipv6Addr::new\<close>, from eight groups.\<close>

definition ipv6_new :: "u16 list \<Rightarrow> 128 word" where
  "ipv6_new gs = foldl (\<lambda>acc g. push_bit 16 acc OR ucast g) 0 gs"

definition MULLVAD_DOH :: provider_tier where
  "MULLVAD_DOH = \<lparr>provider_id = MullvadDoh, provider_ipv6 = ipv6_new [0x2a07, 0xe340, 0, 0, 0, 0, 0, 2],
     provider_ipv4 = Ipv4Addr 194 242 2 2, tls_name = ''dns.mullvad.net'', protocol = Doh\<rparr>"

definition MULLVAD_DOT :: provider_tier where
  "MULLVAD_DOT = MULLVAD_DOH\<lparr>provider_id := MullvadDot, protocol := Dot\<rparr>"

definition QUAD9_DOT :: provider_tier where
  "QUAD9_DOT = \<lparr>provider_id = Quad9Dot, provider_ipv6 = ipv6_new [0x2620, 0x00fe, 0, 0, 0, 0, 0, 0x0010],
     provider_ipv4 = Ipv4Addr 9 9 9 10, tls_name = ''dns10.quad9.net'', protocol = Dot\<rparr>"

definition PROVIDER_CHAIN :: "provider_tier list" where
  "PROVIDER_CHAIN = [MULLVAD_DOH, MULLVAD_DOT, QUAD9_DOT]"

definition is_scoped_host :: "string \<Rightarrow> bool" where
  "is_scoped_host host \<longleftrightarrow> eq_ignore_ascii_case (trim_end_matches CHR ''.'' host) UPSTREAM_HOST"

section \<open>The interface of the resolver\<close>

text \<open>\<open>NameServerConfig::https(ip, name, path)\<close> and \<open>NameServerConfig::tls(ip, name)\<close>, and the options the code
  sets over the defaults.\<close>

datatype name_server = Https ip_addr string "string option" | Tls ip_addr string

datatype ordering_strategy = UserProvidedOrder | QueryStatistics
datatype ip_strategy = Ipv6thenIpv4 | OtherStrategy

record resolver_opts =
  opt_timeout :: nat
  opt_attempts :: nat
  num_concurrent_reqs :: nat
  server_ordering_strategy :: ordering_strategy
  opt_ip_strategy :: ip_strategy

record ('e, 'r, 'w) dns_ops =
  build_resolver :: "name_server list \<Rightarrow> resolver_opts \<Rightarrow> 'e + 'r"
  lookup_ip :: "'r \<Rightarrow> string \<Rightarrow> 'w \<Rightarrow> ('e + ip_addr list) \<times> 'w"
  lookup_host :: "string \<Rightarrow> 'w \<Rightarrow> (io_error + ip_addr list) \<times> 'w"

definition provider_name_servers :: "provider_tier \<Rightarrow> name_server list" where
  "provider_name_servers p =
     map (\<lambda>ip. case protocol p of Doh \<Rightarrow> Https ip (tls_name p) None | Dot \<Rightarrow> Tls ip (tls_name p))
       [V6 (provider_ipv6 p), V4 (provider_ipv4 p)]"

definition tier_opts :: resolver_opts where
  "tier_opts = \<lparr>opt_timeout = TIER_TIMEOUT_SECS, opt_attempts = 1, num_concurrent_reqs = 1,
     server_ordering_strategy = UserProvidedOrder, opt_ip_strategy = Ipv6thenIpv4\<rparr>"

definition build_tier_resolver :: "('e, 'r, 'w) dns_ops \<Rightarrow> provider_tier \<Rightarrow> 'e + 'r" where
  "build_tier_resolver D p = build_resolver D (provider_name_servers p) tier_opts"

section \<open>Resolution\<close>

text \<open>A candidate counts when it gives at least one address.\<close>

fun resolve_with_fallback ::
  "('c \<Rightarrow> 'w \<Rightarrow> ip_addr list option \<times> 'w) \<Rightarrow> 'c list \<Rightarrow> 'w \<Rightarrow> ('c \<times> ip_addr list) option \<times> 'w" where
  "resolve_with_fallback attempt [] w = (None, w)"
| "resolve_with_fallback attempt (c # cs) w =
     (case attempt c w of
        (Some addrs, w) \<Rightarrow> if addrs \<noteq> [] then (Some (c, addrs), w) else resolve_with_fallback attempt cs w
      | (None, w) \<Rightarrow> resolve_with_fallback attempt cs w)"

definition os_resolve :: "('e, 'r, 'w) dns_ops \<Rightarrow> string \<Rightarrow> 'w \<Rightarrow> (io_error + ip_addr list) \<times> 'w" where
  "os_resolve D host w = io_bind (lookup_host D host w) (\<lambda>addrs w.
     if addrs = []
     then (Err (IoError KNotFound (''the OS resolver returned no addresses for '' @ host)), w)
     else (Ok addrs, w))"

record 'r secure_resolver =
  tiers :: "(tier \<times> 'r) list"

definition new_secure_resolver :: "('e, 'r, 'w) dns_ops \<Rightarrow> 'e + 'r secure_resolver" where
  "new_secure_resolver D =
     map_res (\<lambda>ts. \<lparr>tiers = ts\<rparr>)
       (collect_res (\<lambda>p. map_res (\<lambda>r. (provider_id p, r)) (build_tier_resolver D p)) PROVIDER_CHAIN)"

definition resolve_scoped ::
  "('e, 'r, 'w) dns_ops \<Rightarrow> 'r secure_resolver \<Rightarrow> string \<Rightarrow> 'w
     \<Rightarrow> (io_error + tier option \<times> ip_addr list) \<times> 'w" where
  "resolve_scoped D R host w =
     (case resolve_with_fallback (\<lambda>(t, r) w. case lookup_ip D r host w of
             (Inr addrs, w) \<Rightarrow> (if addrs \<noteq> [] then Some addrs else None, w)
           | (Inl e, w) \<Rightarrow> (None, w)) (tiers R) w of
        (Some ((t, r), addrs), w) \<Rightarrow> (Ok (Some t, addrs), w)
      | (None, w) \<Rightarrow> io_bind (os_resolve D host w) (\<lambda>addrs w. (Ok (None, addrs), w)))"

text \<open>\<open>impl Resolve for SecureResolver\<close>: the addresses, each with port 0.\<close>

definition resolve_name ::
  "('e, 'r, 'w) dns_ops \<Rightarrow> 'r secure_resolver \<Rightarrow> string \<Rightarrow> 'w
     \<Rightarrow> (io_error + (ip_addr \<times> u16) list) \<times> 'w" where
  "resolve_name D R host w =
     io_bind (if is_scoped_host host
              then io_bind (resolve_scoped D R host w) (\<lambda>(t, addrs) w. (Ok addrs, w))
              else os_resolve D host w) (\<lambda>addrs w.
     (Ok (map (\<lambda>ip. (ip, 0)) addrs), w))"

section \<open>What is asked of the network\<close>

text \<open>A network whose every answer may depend on all that was asked before: the world is the history. A question to
  a provider records the name servers and the options of the resolver that asks it.\<close>

datatype question = AskTier "name_server list \<times> resolver_opts" string | AskOs string

definition recorded ::
  "(question list \<Rightarrow> question \<Rightarrow> io_error + ip_addr list)
     \<Rightarrow> (io_error, name_server list \<times> resolver_opts, question list) dns_ops" where
  "recorded answer = \<lparr>
     build_resolver = (\<lambda>ns opts. Ok (ns, opts)),
     lookup_ip = (\<lambda>ns host h. (answer h (AskTier ns host), h @ [AskTier ns host])),
     lookup_host = (\<lambda>host h. (answer h (AskOs host), h @ [AskOs host]))\<rparr>"

definition answered :: "io_error + ip_addr list \<Rightarrow> bool" where
  "answered r \<longleftrightarrow> (case r of Inl e \<Rightarrow> False | Inr addrs \<Rightarrow> addrs \<noteq> [])"

definition chain_questions :: "string \<Rightarrow> question list" where
  "chain_questions host = map (\<lambda>p. AskTier (provider_name_servers p, tier_opts) host) PROVIDER_CHAIN"

definition recorded_resolver :: "(name_server list \<times> resolver_opts) secure_resolver" where
  "recorded_resolver = \<lparr>tiers = map (\<lambda>p. (provider_id p, provider_name_servers p, tier_opts)) PROVIDER_CHAIN\<rparr>"

lemma new_recorded: "new_secure_resolver (recorded answer) = Ok recorded_resolver"
  by (simp add: new_secure_resolver_def recorded_def build_tier_resolver_def PROVIDER_CHAIN_def
      recorded_resolver_def)

definition scoped_attempt ::
  "('e, 'r, 'w) dns_ops \<Rightarrow> string \<Rightarrow> 'c \<times> 'r \<Rightarrow> 'w \<Rightarrow> ip_addr list option \<times> 'w" where
  "scoped_attempt D host = (\<lambda>(t, r) w. case lookup_ip D r host w of
     (Inr addrs, w) \<Rightarrow> (if addrs \<noteq> [] then Some addrs else None, w) | (Inl e, w) \<Rightarrow> (None, w))"

lemma attempt_recorded:
  "scoped_attempt (recorded answer) host c h =
     (if answered (answer h (AskTier (snd c) host)) then res_ok (answer h (AskTier (snd c) host)) else None,
      h @ [AskTier (snd c) host])"
  by (auto simp: scoped_attempt_def recorded_def answered_def split_beta split: sum.splits)

text \<open>The fallback over any chain: the first candidate that answers wins, and nothing after it is asked.\<close>

lemma fallback_recorded:
  "resolve_with_fallback (scoped_attempt (recorded answer) host) cs h = (r, h') \<Longrightarrow>
   (\<exists>i. (\<forall>j<i. \<not> answered (answer (h @ map (\<lambda>c. AskTier (snd c) host) (take j cs)) (AskTier (snd (cs ! j)) host)))
      \<and> (case r of
           Some (c, addrs) \<Rightarrow> i < length cs \<and> c = cs ! i \<and> addrs \<noteq> []
             \<and> answer (h @ map (\<lambda>c. AskTier (snd c) host) (take i cs)) (AskTier (snd c) host) = Ok addrs
             \<and> h' = h @ map (\<lambda>c. AskTier (snd c) host) (take (Suc i) cs)
         | None \<Rightarrow> i = length cs \<and> h' = h @ map (\<lambda>c. AskTier (snd c) host) cs))"
proof (induction cs arbitrary: h)
  case (Cons c cs)
  let ?q = "AskTier (snd c) host"
  show ?case
  proof (cases "answered (answer h ?q)")
    case True
    then obtain addrs where "answer h ?q = Ok addrs" "addrs \<noteq> []"
      by (auto simp: answered_def split: sum.splits)
    with Cons.prems show ?thesis
      by (intro exI [of _ 0]) (auto simp: attempt_recorded answered_def)
  next
    case False
    then have "resolve_with_fallback (scoped_attempt (recorded answer) host) cs (h @ [?q]) = (r, h')"
      using Cons.prems by (simp add: attempt_recorded [of answer host c h])
    from Cons.IH [OF this, unfolded append_assoc append.simps] obtain i where
      i: "\<forall>j<i. \<not> answered (answer (h @ ?q # map (\<lambda>c. AskTier (snd c) host) (take j cs)) (AskTier (snd (cs ! j)) host))"
      and r: "case r of Some (c, addrs) \<Rightarrow> i < length cs \<and> c = cs ! i \<and> addrs \<noteq> []
             \<and> answer (h @ ?q # map (\<lambda>c. AskTier (snd c) host) (take i cs)) (AskTier (snd c) host) = Ok addrs
             \<and> h' = h @ ?q # map (\<lambda>c. AskTier (snd c) host) (take (Suc i) cs)
         | None \<Rightarrow> i = length cs \<and> h' = h @ ?q # map (\<lambda>c. AskTier (snd c) host) cs"
      by blast
    from i False have "\<forall>j<Suc i. \<not> answered (answer (h @ map (\<lambda>c. AskTier (snd c) host) (take j (c # cs)))
        (AskTier (snd ((c # cs) ! j)) host))"
      by (auto simp: less_Suc_eq_0_disj)
    with r show ?thesis
      by (cases r; cases "the r") (rule exI [of _ "Suc i"], simp)+
  qed
qed auto

text \<open>The recorded resolver asks the questions of the chain.\<close>

lemma recorded_chain:
  "map (\<lambda>c. AskTier (snd c) host) (take j (tiers recorded_resolver)) = take j (chain_questions host)"
  by (simp add: recorded_resolver_def chain_questions_def take_map comp_def)

lemma recorded_chain_nth:
  "j < 3 \<Longrightarrow> AskTier (snd (tiers recorded_resolver ! j)) host = chain_questions host ! j"
  "j < 3 \<Longrightarrow> fst (tiers recorded_resolver ! j) = [MullvadDoh, MullvadDot, Quad9Dot] ! j"
  "length (tiers recorded_resolver) = 3" "length (chain_questions host) = 3"
  by (auto simp: recorded_resolver_def chain_questions_def PROVIDER_CHAIN_def less_Suc_eq
      numeral_3_eq_3 MULLVAD_DOH_def MULLVAD_DOT_def QUAD9_DOT_def)

lemma chain_fallback:
  assumes "resolve_with_fallback (scoped_attempt (recorded answer) host) (tiers recorded_resolver) h = (f, h1)"
  obtains i where
    "\<forall>j<i. \<not> answered (answer (h @ take j (chain_questions host)) (chain_questions host ! j))"
    "case f of
       Some (c, addrs) \<Rightarrow> i < 3 \<and> fst c = [MullvadDoh, MullvadDot, Quad9Dot] ! i \<and> addrs \<noteq> []
         \<and> answer (h @ take i (chain_questions host)) (chain_questions host ! i) = Ok addrs
         \<and> h1 = h @ take (Suc i) (chain_questions host)
     | None \<Rightarrow> i = 3 \<and> h1 = h @ chain_questions host"
proof -
  let ?cs = "tiers recorded_resolver"
  from fallback_recorded [OF assms] obtain i where
    i: "\<forall>j<i. \<not> answered (answer (h @ take j (chain_questions host)) (AskTier (snd (?cs ! j)) host))"
    and c: "case f of Some (c, addrs) \<Rightarrow> i < 3 \<and> c = ?cs ! i \<and> addrs \<noteq> []
             \<and> answer (h @ take i (chain_questions host)) (AskTier (snd c) host) = Ok addrs
             \<and> h1 = h @ take (Suc i) (chain_questions host)
         | None \<Rightarrow> i = 3 \<and> h1 = h @ map (\<lambda>c. AskTier (snd c) host) ?cs"
    unfolding recorded_chain recorded_chain_nth(3) by blast
  have "map (\<lambda>c. AskTier (snd c) host) ?cs = chain_questions host"
    using recorded_chain [of host 3] recorded_chain_nth(3,4) by simp
  note all = this
  have "case f of
       Some (c, addrs) \<Rightarrow> i < 3 \<and> fst c = [MullvadDoh, MullvadDot, Quad9Dot] ! i \<and> addrs \<noteq> []
         \<and> answer (h @ take i (chain_questions host)) (chain_questions host ! i) = Ok addrs
         \<and> h1 = h @ take (Suc i) (chain_questions host)
     | None \<Rightarrow> i = 3 \<and> h1 = h @ chain_questions host"
  proof (cases f)
    case None
    with c all show ?thesis by simp
  next
    case (Some p)
    obtain d addrs where p: "p = (d, addrs)" by (cases p)
    from c [unfolded Some p option.case prod.case] have i3: "i < 3" and d: "d = ?cs ! i" "addrs \<noteq> []" "h1 = h @ take (Suc i) (chain_questions host)"
      "answer (h @ take i (chain_questions host)) (AskTier (snd d) host) = Ok addrs" by blast+
    with recorded_chain_nth(1,2) [OF i3] show ?thesis by (simp add: Some p)
  qed
  moreover have "i \<le> 3" using c by (auto split: option.splits)
  with i have "\<forall>j<i. \<not> answered (answer (h @ take j (chain_questions host)) (chain_questions host ! j))"
    by (auto simp: recorded_chain_nth(1))
  ultimately show ?thesis using that by blast
qed

lemma resolve_scoped_fallback:
  assumes "resolve_with_fallback (scoped_attempt D host) (tiers R) h = (f, h1)"
  shows "resolve_scoped D R host h = (case f of
      Some (c, addrs) \<Rightarrow> (Ok (Some (fst c), addrs), h1)
    | None \<Rightarrow> io_bind (os_resolve D host h1) (\<lambda>addrs w. (Ok (None, addrs), w)))"
  using assms by (auto simp: resolve_scoped_def scoped_attempt_def split: option.splits prod.splits)

lemma os_resolve_recorded:
  "os_resolve (recorded answer) host h = (fst (os_resolve (recorded answer) host h), h @ [AskOs host])"
  "fst (os_resolve (recorded answer) host h) = Ok addrs \<Longrightarrow> answer h (AskOs host) = Ok addrs"
  by (cases "answer h (AskOs host)"; simp add: os_resolve_def recorded_def split: if_splits)+

text \<open>The lookup of the transport: a scoped name is what \<open>resolve_scoped\<close> gives, any other name is one question to
  the operating system.\<close>

abbreviation socket_addrs :: "ip_addr list \<Rightarrow> (ip_addr \<times> u16) list" where
  "socket_addrs \<equiv> map (\<lambda>ip. (ip, 0))"

lemma resolve_name_scoped:
  assumes "eq_ignore_ascii_case (trim_end_matches CHR ''.'' name) ''rpc.dig.net''"
    and "resolve_scoped D R name h = (r, h')"
  shows "resolve_name D R name h = (map_res (\<lambda>(t, addrs). socket_addrs addrs) r, h')"
  using assms by (cases r) (auto simp: resolve_name_def is_scoped_host_def UPSTREAM_HOST_def)

lemma resolve_name_unscoped:
  assumes "\<not> eq_ignore_ascii_case (trim_end_matches CHR ''.'' name) ''rpc.dig.net''"
  shows "snd (resolve_name (recorded answer) R name h) = h @ [AskOs name]"
    and "fst (resolve_name (recorded answer) R name h) = Ok socks \<Longrightarrow>
      \<exists>addrs. answer h (AskOs name) = Ok addrs \<and> socks = socket_addrs addrs"
proof -
  obtain x where x: "os_resolve (recorded answer) name h = (x, h @ [AskOs name])"
    using os_resolve_recorded(1) [of answer name h] by simp
  have n: "resolve_name (recorded answer) R name h = (map_res socket_addrs x, h @ [AskOs name])"
    using assms x by (cases x) (auto simp: resolve_name_def is_scoped_host_def UPSTREAM_HOST_def)
  then show "snd (resolve_name (recorded answer) R name h) = h @ [AskOs name]" by simp
  assume "fst (resolve_name (recorded answer) R name h) = Ok socks"
  with n os_resolve_recorded(2) [of answer name h] x
  show "\<exists>addrs. answer h (AskOs name) = Ok addrs \<and> socks = socket_addrs addrs" by (cases x) auto
qed

section \<open>Properties\<close>

text \<open>The questions of the documented chain, written out: Mullvad over HTTPS, Mullvad over TLS, Quad9 over TLS, each
  at its IPv6 and then its IPv4 address under its own TLS name, one attempt of three seconds, one server at a
  time in the given order.\<close>

definition encrypted_chain :: "string \<Rightarrow> question list" where
  "encrypted_chain name =
     (let opts = \<lparr>opt_timeout = 3, opt_attempts = 1, num_concurrent_reqs = 1,
            server_ordering_strategy = UserProvidedOrder, opt_ip_strategy = Ipv6thenIpv4\<rparr>;
          mullvad6 = V6 (ipv6_new [0x2a07, 0xe340, 0, 0, 0, 0, 0, 2]);
          mullvad4 = V4 (Ipv4Addr 194 242 2 2)
      in [AskTier ([Https mullvad6 ''dns.mullvad.net'' None, Https mullvad4 ''dns.mullvad.net'' None], opts) name,
          AskTier ([Tls mullvad6 ''dns.mullvad.net'', Tls mullvad4 ''dns.mullvad.net''], opts) name,
          AskTier ([Tls (V6 (ipv6_new [0x2620, 0xfe, 0, 0, 0, 0, 0, 0x10])) ''dns10.quad9.net'',
                    Tls (V4 (Ipv4Addr 9 9 9 10)) ''dns10.quad9.net''], opts) name])"

lemma chain_questions_encrypted: "chain_questions = encrypted_chain"
  by (rule ext) (simp add: chain_questions_def encrypted_chain_def PROVIDER_CHAIN_def MULLVAD_DOH_def
      MULLVAD_DOT_def QUAD9_DOT_def provider_name_servers_def tier_opts_def TIER_TIMEOUT_SECS_def Let_def)



end
