(* ===== verification/Doctor.thy ===== *)
theory Doctor
  imports Config SecureDns Json
begin

text \<open>
  The pure half of \<open>src/doctor.rs\<close>: checks, the evaluators that turn an observation into a check, and the
  report with its verdict. The live probes are in \<open>DoctorRun\<close>.
\<close>

section \<open>Checks and reports\<close>

datatype check_status = Pass | Fail | Warn | Info

fun symbol :: "check_status \<Rightarrow> string" where
  "symbol Pass = ''PASS''"
| "symbol Fail = ''FAIL''"
| "symbol Warn = ''WARN''"
| "symbol Info = ''INFO''"

record check =
  check_id :: string
  check_name :: string
  check_stat :: check_status
  detail :: string
  fix_hint :: "string option"

definition new_check :: "string \<Rightarrow> string \<Rightarrow> check_status \<Rightarrow> string \<Rightarrow> check" where
  "new_check i n s d = \<lparr>check_id = i, check_name = n, check_stat = s, detail = d, fix_hint = None\<rparr>"

definition with_fix :: "check \<Rightarrow> string \<Rightarrow> check" where
  "with_fix c hint = c\<lparr>fix_hint := Some hint\<rparr>"

record report =
  checks :: "check list"
  path_a :: bool
  path_b :: bool
  report_ok :: bool

definition overall_ok :: "bool \<Rightarrow> bool \<Rightarrow> bool \<Rightarrow> bool" where
  "overall_ok loopback_up a b \<longleftrightarrow> loopback_up \<and> (a \<or> b)"

definition passed :: "check list \<Rightarrow> string \<Rightarrow> bool" where
  "passed cs i \<longleftrightarrow> list_ex (\<lambda>c. check_id c = i \<and> check_stat c = Pass) cs"

definition build_report :: "check list \<Rightarrow> report" where
  "build_report cs =
     (let loopback_up = passed cs ''loopback_ip''; a = passed cs ''os_routing''; b = passed cs ''gateway_port''
      in \<lparr>checks = cs, path_a = a, path_b = b, report_ok = overall_ok loopback_up a b\<rparr>)"

text \<open>What \<open>derive(Serialize)\<close> makes of a check, and the JSON of a report.\<close>

definition check_json :: "'v json_ops \<Rightarrow> check \<Rightarrow> 'v" where
  "check_json J c = jobj J
     ([(''id'', jstr J (check_id c)), (''name'', jstr J (check_name c)),
       (''status'', jstr J (map lower_char (symbol (check_stat c)))), (''detail'', jstr J (detail c))]
      @ (case fix_hint c of Some f \<Rightarrow> [(''fix'', jstr J f)] | None \<Rightarrow> []))"

definition report_json :: "'v json_ops \<Rightarrow> report \<Rightarrow> 'v" where
  "report_json J r = jobj J [(''ok'', jbool J (report_ok r)), (''path_a'', jbool J (path_a r)),
     (''path_b'', jbool J (path_b r)), (''checks'', jarr J (map (check_json J) (checks r)))]"

definition report_text :: "report \<Rightarrow> string" where
  "report_text r =
     (let out = ''dig-dns doctor'' @ NL @
            concat (map (\<lambda>c. ''  ['' @ symbol (check_stat c) @ ''] '' @ check_name c @ '': '' @ detail c @ NL
              @ (case fix_hint c of Some f \<Rightarrow> ''         fix: '' @ f @ NL | None \<Rightarrow> [])) (checks r));
          paths = (case (path_a r, path_b r) of
              (True, True) \<Rightarrow> ''Path A (OS DNS) and Path B (PAC proxy) are both live''
            | (True, False) \<Rightarrow> ''Path A (OS DNS) is live''
            | (False, True) \<Rightarrow> ''Path B (PAC proxy) is live''
            | (False, False) \<Rightarrow> ''NEITHER path is live'')
      in out @ NL @ paths @ NL
         @ (if report_ok r then ''RESULT: a .dig URL can load.''
            else ''RESULT: a .dig URL will NOT load - fix the failing links above.'') @ NL)"

section \<open>Evaluators\<close>

definition evaluate_loopback :: "ipv4 \<Rightarrow> bool \<Rightarrow> check" where
  "evaluate_loopback ip bindable =
     (if bindable
      then new_check ''loopback_ip'' ''Loopback IP is up'' Pass (show_ipv4 ip @ '' is assigned to a local interface'')
      else with_fix (new_check ''loopback_ip'' ''Loopback IP is up'' Fail (show_ipv4 ip @ '' is not a local address''))
        (''the installer must add '' @ show_ipv4 ip @ '' to the loopback interface (macOS: `ifconfig lo0 alias ''
         @ show_ipv4 ip @ ''`; Linux/Windows 127/8 is usually already up)''))"

definition evaluate_dns_direct :: "ipv4 \<Rightarrow> ipv4 option \<Rightarrow> check" where
  "evaluate_dns_direct expected answer =
     (let i = ''dns_direct''; n = ''DNS responder answers directly'' in
      case answer of
        Some ip \<Rightarrow>
          if ip = expected then new_check i n Pass (''responder returned A '' @ show_ipv4 ip)
          else with_fix (new_check i n Fail
              (''responder returned A '' @ show_ipv4 ip @ '', expected '' @ show_ipv4 expected))
            ''the DNS responder is answering with the wrong address - check DIG_DNS_IP''
      | None \<Rightarrow> with_fix (new_check i n Fail ''no A answer from the responder'')
          ''is the service running? start `dig-dns serve` (needs privilege to bind :53)'')"

definition evaluate_os_routing :: "ipv4 \<Rightarrow> ip_addr list \<Rightarrow> check" where
  "evaluate_os_routing expected resolved =
     (let i = ''os_routing''; n = ''OS resolves .dig to the loopback IP (Path A)'' in
      if V4 expected \<in> set resolved
      then new_check i n Pass (''the OS resolver returned '' @ show_ipv4 expected)
      else with_fix (new_check i n Warn ''the OS does not route .dig to the responder (Path A not configured)'')
        (''the installer configures OS split-DNS for .dig (macOS `/etc/resolver/dig`, ''
         @ ''Windows NRPT, Linux systemd-resolved) - or rely on Path B (the PAC proxy)''))"

definition evaluate_gateway :: "u16 \<Rightarrow> u16 \<Rightarrow> u16 option \<Rightarrow> check" where
  "evaluate_gateway primary fallback answered_port =
     (let i = ''gateway_port''; n = ''HTTP gateway answers (Path B)'' in
      case answered_port of
        Some p \<Rightarrow>
          if p = primary then new_check i n Pass (''gateway answered /.dig/resolve-probe on :'' @ show_word p)
          else with_fix (new_check i n Pass
              (''gateway answered on the fallback :'' @ show_word p @ '' (:'' @ show_word primary @ '' was unavailable)''))
            (''browsers using OS DNS reach :'' @ show_word primary @ ''; since the gateway is on :'' @ show_word p
             @ '', use the PAC (/.dig/proxy.pac) which advertises :'' @ show_word p)
      | None \<Rightarrow> with_fix (new_check i n Fail
            (''no gateway on :'' @ show_word primary @ '' or :'' @ show_word fallback))
          ''start the service: `dig-dns serve`'')"

definition evaluate_os_config :: "bool option \<Rightarrow> check" where
  "evaluate_os_config present =
     (let i = ''os_config''; n = ''OS resolver configured for .dig (configure-os)'' in
      case present of
        Some True \<Rightarrow> new_check i n Info ''the OS-level *.dig resolver wiring is present''
      | Some False \<Rightarrow> with_fix (new_check i n Info ''no OS-level *.dig resolver wiring found'')
          (''run `dig-dns configure-os` (as root/Administrator) to route *.dig system-wide, ''
           @ ''or rely on Path B (the PAC proxy)'')
      | None \<Rightarrow> new_check i n Info ''not determined on this OS (see the end-to-end OS routing check)'')"

definition evaluate_node :: "bool option \<Rightarrow> check" where
  "evaluate_node reachable =
     (let i = ''node_reachable''; n = ''Gateway can reach a dig-node'' in
      case reachable of
        Some True \<Rightarrow> new_check i n Pass ''the resolved dig-node answered''
      | Some False \<Rightarrow> with_fix (new_check i n Warn
            ''the gateway is up but no dig-node is reachable - content will 502'')
          ''start your dig-node (localhost:9778) or point at one with `--node` / DIG_NODE_URL''
      | None \<Rightarrow> new_check i n Info ''not determined (the gateway did not answer /.dig/health)'')"

definition evaluate_secure_upstream :: "bool \<Rightarrow> tier option \<Rightarrow> string option \<Rightarrow> check" where
  "evaluate_secure_upstream enabled t err =
     (let i = ''secure_upstream''; n = ''Encrypted upstream resolution (rpc.dig.net)'' in
      if \<not> enabled
      then new_check i n Info
        ''disabled by config (DIG_DNS_SECURE_UPSTREAM=off) - the OS resolver is used, as before''
      else case (t, err) of
        (_, Some reason) \<Rightarrow> with_fix (new_check i n Fail (''resolution failed: '' @ reason))
          ''check network connectivity - Mullvad/Quad9 DoH/DoT and the OS resolver were all unreachable''
      | (Some tier, None) \<Rightarrow> new_check i n Pass (''answered by '' @ show_tier tier @ '' (encrypted)'')
      | (None, None) \<Rightarrow> with_fix (new_check i n Warn
            (''degraded: every encrypted tier (Mullvad DoH/DoT, Quad9 DoT) failed - fell back to ''
             @ ''the OS resolver (the lookup itself was plaintext; the rpc.dig.net connection it ''
             @ ''enables is still TLS-authenticated)''))
          ''check whether this network blocks DoH/DoT (common on some corporate/hotel networks)'')"

lemmas evaluators = evaluate_loopback_def evaluate_dns_direct_def evaluate_os_routing_def evaluate_gateway_def
  evaluate_os_config_def evaluate_node_def evaluate_secure_upstream_def

lemma new_check_sel [simp]:
  "check_id (new_check i n s d) = i" "check_stat (new_check i n s d) = s"
  "check_id (with_fix c f) = check_id c" "check_stat (with_fix c f) = check_stat c"
  by (simp_all add: new_check_def with_fix_def)

lemma evaluator_ids [simp]:
  "check_id (evaluate_loopback ip b) = ''loopback_ip''"
  "check_id (evaluate_dns_direct ip a) = ''dns_direct''"
  "check_id (evaluate_os_routing ip rs) = ''os_routing''"
  "check_id (evaluate_gateway p f ap) = ''gateway_port''"
  "check_id (evaluate_os_config present) = ''os_config''"
  "check_id (evaluate_node r) = ''node_reachable''"
  "check_id (evaluate_secure_upstream en t er) = ''secure_upstream''"
  by (auto simp: evaluators Let_def split: option.splits bool.splits)

lemma evaluator_stats [simp]:
  "check_stat (evaluate_loopback ip b) = Pass \<longleftrightarrow> b"
  "check_stat (evaluate_os_routing ip rs) = Pass \<longleftrightarrow> V4 ip \<in> set rs"
  "check_stat (evaluate_gateway p f ap) = Pass \<longleftrightarrow> ap \<noteq> None"
  by (auto simp: evaluators Let_def split: option.splits)

end
