(* ===== verification/OsConfig.thy ===== *)
theory OsConfig
  imports Artifacts Doctor
begin

text \<open>
  \<open>src/os_config.rs\<close>: wiring \<open>*.<tld>\<close> into the resolver of the operating system and removing the wiring
  again. As in the code, what to do is a plan (a list of \<open>step\<close>s built by pure functions of the OS name) and
  \<open>execute\<close> performs it, filling the report; the file helpers are in \<open>Artifacts\<close>.
\<close>

section \<open>Paths and contents\<close>

definition LINUX_RESOLVED_DROPIN :: string where
  "LINUX_RESOLVED_DROPIN = ''/etc/systemd/resolved.conf.d/dig.conf''"
definition LINUX_NM_DNSMASQ_CONF :: string where
  "LINUX_NM_DNSMASQ_CONF = ''/etc/NetworkManager/dnsmasq.d/dig.conf''"
definition LINUX_CHROME_POLICY :: string where
  "LINUX_CHROME_POLICY = ''/etc/opt/chrome/policies/managed/dig-dns.json''"
definition LINUX_CHROMIUM_POLICY :: string where
  "LINUX_CHROMIUM_POLICY = ''/etc/chromium/policies/managed/dig-dns.json''"
definition MACOS_LO0_PLIST :: string where
  "MACOS_LO0_PLIST = ''/Library/LaunchDaemons/net.dignetwork.dig-dns-lo0.plist''"
definition MACOS_LO0_LABEL :: string where "MACOS_LO0_LABEL = ''net.dignetwork.dig-dns-lo0''"
definition MACOS_MANAGED_PREFS_DIR :: string where
  "MACOS_MANAGED_PREFS_DIR = ''/Library/Managed Preferences''"
definition MACOS_CHROME_PLIST :: string where
  "MACOS_CHROME_PLIST = ''/Library/Managed Preferences/com.google.Chrome.plist''"

definition BS :: string where "BS = [CHR 0x5C]"
definition TAB :: string where "TAB = [CHR 0x09]"

definition WIN_CHROME_POLICY_KEY :: string where
  "WIN_CHROME_POLICY_KEY = ''SOFTWARE'' @ BS @ ''Policies'' @ BS @ ''Google'' @ BS @ ''Chrome''"
definition WIN_EDGE_POLICY_KEY :: string where
  "WIN_EDGE_POLICY_KEY = ''SOFTWARE'' @ BS @ ''Policies'' @ BS @ ''Microsoft'' @ BS @ ''Edge''"
definition WIN_POLICY_DOH_NAME :: string where "WIN_POLICY_DOH_NAME = ''DnsOverHttpsMode''"
definition WIN_POLICY_BUILTIN_NAME :: string where "WIN_POLICY_BUILTIN_NAME = ''BuiltInDnsClientEnabled''"
definition WIN_POLICY_MARKER :: string where "WIN_POLICY_MARKER = ''DigDnsManaged''"
definition WIN_LEGACY_POLICY_MARKER :: string where "WIN_LEGACY_POLICY_MARKER = ''DigInstallerManaged''"

definition macos_resolver_path :: "string \<Rightarrow> string" where
  "macos_resolver_path t = ''/etc/resolver/'' @ t"

definition systemd_resolved_dropin :: "ipv4 \<Rightarrow> string \<Rightarrow> string" where
  "systemd_resolved_dropin ip t =
     ''# '' @ MARKER @ NL @ ''[Resolve]'' @ NL @ ''DNS='' @ show_ipv4 ip @ NL @ ''Domains=~'' @ t @ NL"

definition networkmanager_dnsmasq_conf :: "ipv4 \<Rightarrow> string \<Rightarrow> string" where
  "networkmanager_dnsmasq_conf ip t =
     ''# '' @ MARKER @ NL @ ''server=/'' @ t @ ''/'' @ show_ipv4 ip @ NL"

definition resolver_file_content :: "ipv4 \<Rightarrow> string" where
  "resolver_file_content ip = ''# '' @ MARKER @ NL @ ''nameserver '' @ show_ipv4 ip @ NL"

definition CLEAR_DNS_CLIENT_CACHE :: string where "CLEAR_DNS_CLIENT_CACHE = ''Clear-DnsClientCache''"

definition SQ :: string where "SQ = [CHR 0x27]"

definition nrpt_add_ps_command :: "ipv4 \<Rightarrow> string \<Rightarrow> string" where
  "nrpt_add_ps_command ip t =
     (let ns = ''.'' @ t
      in ''if (-not (Get-DnsClientNrptRule | Where-Object { $_.Namespace -eq '' @ SQ @ ns @ SQ @ '' })) { ''
         @ ''Add-DnsClientNrptRule -Namespace '' @ SQ @ ns @ SQ @ '' -NameServers '' @ SQ @ show_ipv4 ip @ SQ
         @ '' -Comment '' @ SQ @ MARKER @ SQ @ '' | Out-Null }'')"

definition nrpt_remove_ps_command :: string where
  "nrpt_remove_ps_command =
     ''Get-DnsClientNrptRule | Where-Object { $_.Comment -eq '' @ SQ @ MARKER @ SQ @ '' -or ''
     @ ''$_.Comment -eq '' @ SQ @ LEGACY_INSTALLER_MARKER @ SQ @ '' } | Remove-DnsClientNrptRule -Force''"

definition PLIST_HEAD :: string where
  "PLIST_HEAD =
     ''<?xml version='' @ QT @ ''1.0'' @ QT @ '' encoding='' @ QT @ ''UTF-8'' @ QT @ ''?>'' @ NL @
     ''<!DOCTYPE plist PUBLIC '' @ QT @ ''-//Apple//DTD PLIST 1.0//EN'' @ QT @ '' '' @ QT
       @ ''http://www.apple.com/DTDs/PropertyList-1.0.dtd'' @ QT @ ''>'' @ NL @
     ''<plist version='' @ QT @ ''1.0'' @ QT @ ''>'' @ NL @
     ''<!-- '' @ MARKER @ '' -->'' @ NL @
     ''<dict>'' @ NL"

definition launchd_lo0_alias_plist :: "ipv4 \<Rightarrow> string" where
  "launchd_lo0_alias_plist ip =
     PLIST_HEAD @
     TAB @ ''<key>Label</key>'' @ NL @
     TAB @ ''<string>'' @ MACOS_LO0_LABEL @ ''</string>'' @ NL @
     TAB @ ''<key>ProgramArguments</key>'' @ NL @
     TAB @ ''<array>'' @ NL @
     TAB @ TAB @ ''<string>/sbin/ifconfig</string>'' @ NL @
     TAB @ TAB @ ''<string>lo0</string>'' @ NL @
     TAB @ TAB @ ''<string>alias</string>'' @ NL @
     TAB @ TAB @ ''<string>'' @ show_ipv4 ip @ ''</string>'' @ NL @
     TAB @ TAB @ ''<string>up</string>'' @ NL @
     TAB @ ''</array>'' @ NL @
     TAB @ ''<key>RunAtLoad</key>'' @ NL @
     TAB @ ''<true/>'' @ NL @
     TAB @ ''<key>KeepAlive</key>'' @ NL @
     TAB @ ''<false/>'' @ NL @
     ''</dict>'' @ NL @
     ''</plist>'' @ NL"

text \<open>\<open>to_str\<close> is the printer of \<open>serde_json\<close>.\<close>

definition chrome_policy_json :: "'v json_ops \<Rightarrow> ('v \<Rightarrow> string) \<Rightarrow> string" where
  "chrome_policy_json J to_str =
     to_str (jobj J [(''DnsOverHttpsMode'', jstr J ''off''), (''BuiltInDnsClientEnabled'', jbool J False)])"

definition chrome_managed_plist :: string where
  "chrome_managed_plist =
     PLIST_HEAD @
     TAB @ ''<key>DnsOverHttpsMode</key>'' @ NL @
     TAB @ ''<string>off</string>'' @ NL @
     TAB @ ''<key>BuiltInDnsClientEnabled</key>'' @ NL @
     TAB @ ''<false/>'' @ NL @
     ''</dict>'' @ NL @
     ''</plist>'' @ NL"

section \<open>Arguments of \<open>reg\<close>\<close>

definition hklm :: "string \<Rightarrow> string" where "hklm key = ''HKLM'' @ BS @ key"

definition reg_query_key_args :: "string \<Rightarrow> string list" where
  "reg_query_key_args key = [''query'', hklm key]"

definition reg_query_value_args :: "string \<Rightarrow> string \<Rightarrow> string list" where
  "reg_query_value_args key value = [''query'', hklm key, ''/v'', value]"

definition reg_add_policy_args :: "string \<Rightarrow> string list list" where
  "reg_add_policy_args key =
     [[''add'', hklm key, ''/v'', WIN_POLICY_DOH_NAME, ''/t'', ''REG_SZ'', ''/d'', ''off'', ''/f''],
      [''add'', hklm key, ''/v'', WIN_POLICY_BUILTIN_NAME, ''/t'', ''REG_DWORD'', ''/d'', ''0'', ''/f''],
      [''add'', hklm key, ''/v'', WIN_POLICY_MARKER, ''/t'', ''REG_DWORD'', ''/d'', ''1'', ''/f'']]"

definition reg_delete_value_args :: "string \<Rightarrow> string \<Rightarrow> string list" where
  "reg_delete_value_args key value = [''delete'', hklm key, ''/v'', value, ''/f'']"

section \<open>The resolver owner\<close>

datatype resolv_owner = SystemdResolved | NetworkManagerDnsmasq | Unknown

fun owner_label :: "resolv_owner \<Rightarrow> string" where
  "owner_label SystemdResolved = ''systemd-resolved''"
| "owner_label NetworkManagerDnsmasq = ''networkmanager-dnsmasq''"
| "owner_label Unknown = ''unknown''"

definition detect_resolv_owner :: "string option \<Rightarrow> bool \<Rightarrow> resolv_owner" where
  "detect_resolv_owner link_target nm_dir =
     (if (case link_target of Some t \<Rightarrow> contains_str t ''systemd'' | None \<Rightarrow> False) then SystemdResolved
      else if nm_dir then NetworkManagerDnsmasq
      else Unknown)"

definition detect_resolv_owner_live :: "fsys \<Rightarrow> resolv_owner" where
  "detect_resolv_owner_live w =
     detect_resolv_owner (res_ok (read_link w (path_of ''/etc/resolv.conf'')))
       (is_dir w (path_of ''/etc/NetworkManager/dnsmasq.d''))"

section \<open>The report\<close>

record os_report =
  action :: string
  os_name :: string
  os_ok :: bool
  needs_elevation :: bool
  applied :: "string list"
  removed :: "string list"
  resolver :: "string option"
  note_list :: "string list"
  activated :: bool
  reboot_required :: bool
  reboot_why :: "string option"

definition report_started :: "string \<Rightarrow> string \<Rightarrow> os_report" where
  "report_started act os = \<lparr>action = act, os_name = os, os_ok = False, needs_elevation = False, applied = [],
     removed = [], resolver = None, note_list = [], activated = False, reboot_required = False, reboot_why = None\<rparr>"

definition add_note :: "string \<Rightarrow> os_report \<Rightarrow> os_report" where
  "add_note msg r = r\<lparr>note_list := note_list r @ [msg]\<rparr>"

definition push_applied :: "string \<Rightarrow> os_report \<Rightarrow> os_report" where
  "push_applied l r = r\<lparr>applied := applied r @ [l]\<rparr>"

definition push_removed :: "string \<Rightarrow> os_report \<Rightarrow> os_report" where
  "push_removed l r = r\<lparr>removed := removed r @ [l]\<rparr>"

definition not_elevated :: "string \<Rightarrow> string \<Rightarrow> string \<Rightarrow> os_report" where
  "not_elevated act os msg = add_note msg ((report_started act os)\<lparr>needs_elevation := True\<rparr>)"

definition unsupported :: "string \<Rightarrow> string \<Rightarrow> os_report" where
  "unsupported act os = add_note (act @ '' is not supported on this platform ('' @ os @ '')'') (report_started act os)"

definition os_report_json :: "'v json_ops \<Rightarrow> os_report \<Rightarrow> 'v" where
  "os_report_json J r = jobj J
     ([(''action'', jstr J (action r)), (''os'', jstr J (os_name r)), (''ok'', jbool J (os_ok r)),
       (''needs_elevation'', jbool J (needs_elevation r)),
       (''applied'', jarr J (map (jstr J) (applied r))), (''removed'', jarr J (map (jstr J) (removed r)))]
      @ (case resolver r of Some s \<Rightarrow> [(''resolver'', jstr J s)] | None \<Rightarrow> [])
      @ [(''notes'', jarr J (map (jstr J) (note_list r))), (''activated'', jbool J (activated r)),
         (''reboot_required'', jbool J (reboot_required r))]
      @ (case reboot_why r of Some s \<Rightarrow> [(''reboot_reason'', jstr J s)] | None \<Rightarrow> []))"

definition os_summary :: "os_report \<Rightarrow> string" where
  "os_summary r =
     (if needs_elevation r then ''dig-dns '' @ action r @ '': '' @ join_with ''; '' (note_list r)
      else
        ''dig-dns '' @ action r @ '' on '' @ os_name r @ '': '' @ (if os_ok r then ''OK'' else ''FAILED'') @ NL
        @ (case resolver r of Some s \<Rightarrow> ''  resolver: '' @ s @ NL | None \<Rightarrow> [])
        @ concat (map (\<lambda>a. ''  applied:  '' @ a @ NL) (applied r))
        @ concat (map (\<lambda>a. ''  removed:  '' @ a @ NL) (removed r))
        @ concat (map (\<lambda>n. ''  note:     '' @ n @ NL) (note_list r))
        @ (if activated r then ''  activated: .dig resolution is LIVE now (no reboot required)'' @ NL else [])
        @ (if reboot_required r
           then ''  reboot:   RESTART REQUIRED '' @ EM_DASH @ '' '' @ unwrap_or (reboot_why r) [] @ NL else []))"

section \<open>Plans\<close>

datatype bucket = Applied | Removed

fun record_in :: "bucket \<Rightarrow> string \<Rightarrow> os_report \<Rightarrow> os_report" where
  "record_in Applied l r = push_applied l r"
| "record_in Removed l r = push_removed l r"

datatype step =
    Write (spath: string) (scontent: string)
  | RemoveOurs (spath: string)
  | Exec string "string list"
  | Ps string string bucket
  | PsExec string
  | Note string

definition configure_resolver_steps :: "string \<Rightarrow> resolv_owner \<Rightarrow> ipv4 \<Rightarrow> string \<Rightarrow> step list" where
  "configure_resolver_steps os owner ip t =
     (if os = ''linux'' then
        (case owner of
           SystemdResolved \<Rightarrow>
             [Write LINUX_RESOLVED_DROPIN (systemd_resolved_dropin ip t),
              Exec ''systemctl'' [''reload-or-restart'', ''systemd-resolved''],
              Exec ''resolvectl'' [''flush-caches'']]
         | NetworkManagerDnsmasq \<Rightarrow>
             [Write LINUX_NM_DNSMASQ_CONF (networkmanager_dnsmasq_conf ip t),
              Exec ''systemctl'' [''reload'', ''NetworkManager'']]
         | Unknown \<Rightarrow>
             [Note (''no systemd-resolved/NetworkManager-dnsmasq resolver detected; /etc/resolv.conf ''
                @ ''left untouched '' @ EM_DASH @ '' browsers reach *.dig via the PAC (Path B)'')])
      else if os = ''macos'' then
        [Exec ''ifconfig'' [''lo0'', ''alias'', show_ipv4 ip, ''up''],
         Write MACOS_LO0_PLIST (launchd_lo0_alias_plist ip),
         Exec ''launchctl'' [''bootout'', ''system/'' @ MACOS_LO0_LABEL],
         Exec ''launchctl'' [''bootstrap'', ''system'', MACOS_LO0_PLIST],
         Exec ''launchctl'' [''enable'', ''system/'' @ MACOS_LO0_LABEL],
         Write (macos_resolver_path t) (resolver_file_content ip),
         Exec ''dscacheutil'' [''-flushcache''],
         Exec ''killall'' [''-HUP'', ''mDNSResponder'']]
      else if os = ''windows'' then
        [Ps (nrpt_add_ps_command ip t) (''.'' @ t @ '' NRPT rule'') Applied,
         PsExec CLEAR_DNS_CLIENT_CACHE]
      else [])"

definition unconfigure_resolver_steps :: "string \<Rightarrow> ipv4 \<Rightarrow> string \<Rightarrow> step list" where
  "unconfigure_resolver_steps os ip t =
     (if os = ''linux'' then
        [RemoveOurs LINUX_RESOLVED_DROPIN,
         Exec ''systemctl'' [''reload-or-restart'', ''systemd-resolved''],
         Exec ''resolvectl'' [''flush-caches''],
         RemoveOurs LINUX_NM_DNSMASQ_CONF,
         Exec ''systemctl'' [''reload'', ''NetworkManager'']]
      else if os = ''macos'' then
        [Exec ''launchctl'' [''bootout'', ''system/'' @ MACOS_LO0_LABEL],
         RemoveOurs MACOS_LO0_PLIST,
         Exec ''ifconfig'' [''lo0'', ''-alias'', show_ipv4 ip],
         RemoveOurs (macos_resolver_path t),
         Exec ''dscacheutil'' [''-flushcache''],
         Exec ''killall'' [''-HUP'', ''mDNSResponder'']]
      else if os = ''windows'' then
        [Ps nrpt_remove_ps_command (''.'' @ t @ '' NRPT rule'') Removed,
         PsExec CLEAR_DNS_CLIENT_CACHE]
      else [])"

section \<open>Running tools\<close>

definition run :: "'m machine \<Rightarrow> string \<Rightarrow> string list \<Rightarrow> 'm host \<Rightarrow> (string + unit) \<times> 'm host" where
  "run M cmd as h =
     (case on_procs (cmd_status (sys M) (tool M h cmd) as) h of
        (Inl e, h) \<Rightarrow> (Err (''spawn '' @ cmd @ '': '' @ message e), h)
      | (Inr success, h) \<Rightarrow> (if success then Ok () else Err (cmd @ '' exited non-zero''), h))"

definition run_ps :: "'m machine \<Rightarrow> string \<Rightarrow> 'm host \<Rightarrow> (string + unit) \<times> 'm host" where
  "run_ps M command h =
     (case on_procs (cmd_status (sys M) (tool M h ''powershell'')
              [''-NoProfile'', ''-NonInteractive'', ''-Command'', command]) h of
        (Inl e, h) \<Rightarrow> (Err (''spawn powershell: '' @ message e), h)
      | (Inr success, h) \<Rightarrow> (if success then Ok () else Err ''powershell exited non-zero'', h))"

definition reg :: "'m machine \<Rightarrow> string list \<Rightarrow> 'm host \<Rightarrow> (string + unit) \<times> 'm host" where
  "reg M as h = run M ''reg'' as h"

definition reg_present :: "'m machine \<Rightarrow> string list \<Rightarrow> 'm host \<Rightarrow> bool \<times> 'm host" where
  "reg_present M as h = (let (r, h) = run M ''reg'' as h in (is_ok r, h))"

section \<open>Executing a plan\<close>

fun execute_step :: "'m machine \<Rightarrow> ipv4 \<Rightarrow> step \<Rightarrow> os_report \<times> 'm host \<Rightarrow> os_report \<times> 'm host" where
  "execute_step M our_ip (Write p content) (r, h) =
     (case on_disk (write_if_changed (process_id M) (path_of p) content) h of
        (Inr b, h) \<Rightarrow> (push_applied p r, h)
      | (Inl e, h) \<Rightarrow> (add_note (p @ '' not written: '' @ e) r, h))"
| "execute_step M our_ip (RemoveOurs p) (r, h) =
     (case on_disk (remove_if_ours (path_of p) our_ip) h of
        (Inr True, h) \<Rightarrow> (push_removed p r, h)
      | (Inr False, h) \<Rightarrow> (r, h)
      | (Inl e, h) \<Rightarrow> (add_note (p @ '' not removed: '' @ e) r, h))"
| "execute_step M our_ip (Exec prog as) (r, h) = (r, snd (run M prog as h))"
| "execute_step M our_ip (Ps command l b) (r, h) =
     (case run_ps M command h of
        (Inr u, h) \<Rightarrow> (record_in b l r, h)
      | (Inl e, h) \<Rightarrow> (add_note (l @ '': '' @ e) r, h))"
| "execute_step M our_ip (PsExec command) (r, h) = (r, snd (run_ps M command h))"
| "execute_step M our_ip (Note msg) (r, h) = (add_note msg r, h)"

definition execute ::
  "'m machine \<Rightarrow> string \<Rightarrow> ipv4 \<Rightarrow> string option \<Rightarrow> step list \<Rightarrow> 'm host \<Rightarrow> os_report \<times> 'm host" where
  "execute M act our_ip res steps h =
     foldl (\<lambda>s st. execute_step M our_ip st s) ((report_started act (os_const M))\<lparr>resolver := res\<rparr>, h) steps"

section \<open>The browser policy\<close>

definition existing_chrome_managed_policy :: "fsys \<Rightarrow> ipv4 \<Rightarrow> bool" where
  "existing_chrome_managed_policy w our_ip =
     (case read_dir w (path_of MACOS_MANAGED_PREFS_DIR) of
        Inl e \<Rightarrow> False
      | Inr entries \<Rightarrow> list_ex (\<lambda>p.
          contains_str (last p) ''com.google.Chrome'' \<and> \<not> file_is_ours w p our_ip
          \<or> is_dir w p \<and> path_exists w (p @ [''com.google.Chrome.plist''])
            \<and> \<not> file_is_ours w (p @ [''com.google.Chrome.plist'']) our_ip) entries)"

definition apply_macos_browser_policy ::
  "'m machine \<Rightarrow> ipv4 \<Rightarrow> os_report \<times> 'm host \<Rightarrow> os_report \<times> 'm host" where
  "apply_macos_browser_policy M our_ip = (\<lambda>(r, h).
     if existing_chrome_managed_policy (disk h) our_ip
     then (add_note ''Chrome policy left untouched (an existing managed policy was found)'' r, h)
     else
       let (r, h) = (case on_disk (write_if_changed (process_id M) (path_of MACOS_CHROME_PLIST)
                            chrome_managed_plist) h of
              (Inr b, h) \<Rightarrow> (push_applied MACOS_CHROME_PLIST r, h)
            | (Inl e, h) \<Rightarrow> (add_note (''Chrome managed policy not written: '' @ e) r, h))
       in (add_note (''Chrome enterprise policy on macOS is normally MDM-provisioned; if the DoH-off policy does ''
             @ ''not take effect, set it via MDM (see the runbook)'') r, h))"

fun reg_all :: "'m machine \<Rightarrow> string list list \<Rightarrow> 'm host \<Rightarrow> (string + unit) \<times> 'm host" where
  "reg_all M [] h = (Ok (), h)"
| "reg_all M (cmd # cmds) h = io_bind (reg M cmd h) (\<lambda>_. reg_all M cmds)"

definition windows_policy_ours :: "'m machine \<Rightarrow> string \<Rightarrow> 'm host \<Rightarrow> bool \<times> 'm host" where
  "windows_policy_ours M key h =
     (let (ours, h) = reg_present M (reg_query_value_args key WIN_POLICY_MARKER) h
      in if ours then (True, h) else reg_present M (reg_query_value_args key WIN_LEGACY_POLICY_MARKER) h)"

definition apply_windows_browser_policy :: "'m machine \<Rightarrow> string \<Rightarrow> 'm host \<Rightarrow> (string + bool) \<times> 'm host" where
  "apply_windows_browser_policy M key h =
     (let (key_exists, h) = reg_present M (reg_query_key_args key) h;
          (ours, h) = windows_policy_ours M key h
      in if key_exists \<and> \<not> ours then (Ok False, h)
         else io_bind (reg_all M (reg_add_policy_args key) h) (\<lambda>_ h. (Ok True, h)))"

definition remove_windows_browser_policy :: "'m machine \<Rightarrow> string \<Rightarrow> 'm host \<Rightarrow> (string + bool) \<times> 'm host" where
  "remove_windows_browser_policy M key h =
     (let (ours, h) = windows_policy_ours M key h
      in if \<not> ours then (Ok False, h)
         else (Ok True, foldl (\<lambda>h v. snd (reg M (reg_delete_value_args key v) h)) h
                 [WIN_POLICY_DOH_NAME, WIN_POLICY_BUILTIN_NAME, WIN_POLICY_MARKER, WIN_LEGACY_POLICY_MARKER]))"

definition windows_browsers :: "(string \<times> string) list" where
  "windows_browsers = [(''Chrome'', WIN_CHROME_POLICY_KEY), (''Edge'', WIN_EDGE_POLICY_KEY)]"

text \<open>The bodies of the loops, one browser at a time.\<close>

fun apply_windows_one :: "'m machine \<Rightarrow> os_report \<times> 'm host \<Rightarrow> string \<times> string \<Rightarrow> os_report \<times> 'm host" where
  "apply_windows_one M (r, h) (browser, key) =
     (case apply_windows_browser_policy M key h of
        (Inr True, h) \<Rightarrow> (push_applied (browser @ '' HKLM DoH policy'') r, h)
      | (Inr False, h) \<Rightarrow>
          (add_note (browser @ '' policy left untouched (an existing org policy manages it)'') r, h)
      | (Inl e, h) \<Rightarrow> (add_note (browser @ '' policy not applied: '' @ e) r, h))"

fun remove_windows_one :: "'m machine \<Rightarrow> os_report \<times> 'm host \<Rightarrow> string \<times> string \<Rightarrow> os_report \<times> 'm host" where
  "remove_windows_one M (r, h) (browser, key) =
     (case remove_windows_browser_policy M key h of
        (Inr True, h) \<Rightarrow> (push_removed (browser @ '' HKLM DoH policy'') r, h)
      | (x, h) \<Rightarrow> (r, h))"

fun write_policy_file ::
  "'m machine \<Rightarrow> string \<Rightarrow> os_report \<times> 'm host \<Rightarrow> string \<Rightarrow> os_report \<times> 'm host" where
  "write_policy_file M policy (r, h) p =
     (case on_disk (write_if_changed (process_id M) (path_of p) policy) h of
        (Inr b, h) \<Rightarrow> (push_applied p r, h)
      | (Inl e, h) \<Rightarrow> (add_note (p @ '' not written: '' @ e) r, h))"

fun remove_policy_file :: "os_report \<times> 'm host \<Rightarrow> string \<Rightarrow> os_report \<times> 'm host" where
  "remove_policy_file (r, h) p =
     (if path_exists (disk h) (path_of p)
      then (case on_disk (remove_file (path_of p)) h of
              (Inr u, h) \<Rightarrow> (push_removed p r, h)
            | (Inl e, h) \<Rightarrow> (r, h))
      else (r, h))"

fun remove_macos_policy :: "ipv4 \<Rightarrow> os_report \<times> 'm host \<Rightarrow> os_report \<times> 'm host" where
  "remove_macos_policy our_ip (r, h) =
     (case on_disk (remove_if_ours (path_of MACOS_CHROME_PLIST) our_ip) h of
        (Inr True, h) \<Rightarrow> (push_removed MACOS_CHROME_PLIST r, h)
      | (x, h) \<Rightarrow> (r, h))"

definition apply_browser_policy ::
  "'m machine \<Rightarrow> string \<Rightarrow> string \<Rightarrow> ipv4 \<Rightarrow> os_report \<times> 'm host \<Rightarrow> os_report \<times> 'm host" where
  "apply_browser_policy M policy os our_ip s =
     (if os = ''linux'' then
        (let (r, h) = foldl (write_policy_file M policy) s [LINUX_CHROME_POLICY, LINUX_CHROMIUM_POLICY]
         in (add_note ''Chrome/Chromium managed DoH-off policy applied'' r, h))
      else if os = ''macos'' then apply_macos_browser_policy M our_ip s
      else if os = ''windows'' then foldl (apply_windows_one M) s windows_browsers
      else s)"

definition remove_browser_policy ::
  "'m machine \<Rightarrow> string \<Rightarrow> ipv4 \<Rightarrow> os_report \<times> 'm host \<Rightarrow> os_report \<times> 'm host" where
  "remove_browser_policy M os our_ip s =
     (if os = ''linux'' then foldl remove_policy_file s [LINUX_CHROME_POLICY, LINUX_CHROMIUM_POLICY]
      else if os = ''macos'' then remove_macos_policy our_ip s
      else if os = ''windows'' then foldl (remove_windows_one M) s windows_browsers
      else s)"

section \<open>The commands\<close>

definition is_supported :: "string \<Rightarrow> bool" where
  "is_supported os \<longleftrightarrow> os \<in> {''linux'', ''macos'', ''windows''}"

definition is_elevated :: "'m machine \<Rightarrow> 'm host \<Rightarrow> bool \<times> 'm host" where
  "is_elevated M h =
     (if os_const M = ''windows''
      then let (r, h) = on_procs (cmd_status (sys M) (tool M h ''net'') [''session'']) h
           in (case r of Inl e \<Rightarrow> False | Inr success \<Rightarrow> success, h)
      else let (r, h) = on_procs (cmd_output (sys M) (tool M h ''id'') [''-u'']) h
           in (case r of Inl e \<Rightarrow> False | Inr (success, out, err) \<Rightarrow> trim out = ''0'', h))"

definition elevation_message :: "string \<Rightarrow> string" where
  "elevation_message os =
     (if os = ''windows''
      then ''configuring OS-level *.dig resolution requires an elevated (Administrator) console; ''
           @ ''re-run in a terminal opened with '' @ QT @ ''Run as administrator'' @ QT
      else ''configuring OS-level *.dig resolution requires root; re-run with sudo'')"

definition reboot_reason :: "string \<Rightarrow> string" where
  "reboot_reason os =
     ''restart to activate .dig name resolution '' @ EM_DASH @ '' the OS resolver has not yet picked up ''
     @ (if os = ''windows'' then ''the NRPT split-DNS rule''
        else if os = ''macos'' then ''the /etc/resolver split-DNS config''
        else if os = ''linux'' then ''the systemd-resolved/NetworkManager split-DNS config''
        else ''the split-DNS config'')"

definition apply_activation_result :: "string \<Rightarrow> bool \<Rightarrow> bool \<Rightarrow> os_report \<Rightarrow> os_report" where
  "apply_activation_result os wired act r =
     (let r = r\<lparr>activated := act\<rparr>
      in if wired \<and> \<not> act then r\<lparr>reboot_required := True, reboot_why := Some (reboot_reason os)\<rparr> else r)"

definition verify_os_routing :: "'m machine \<Rightarrow> config \<Rightarrow> 'm host \<Rightarrow> bool \<times> 'm host" where
  "verify_os_routing M cfg h =
     (let (resolved, h) = on_procs (getaddrinfo M (''configure-probe.'' @ tld cfg @ '':0'')) h
      in (check_stat (evaluate_os_routing (loopback_ip cfg) resolved) = Pass, h))"

definition configure ::
  "'m machine \<Rightarrow> string \<Rightarrow> config \<Rightarrow> bool \<Rightarrow> 'm host \<Rightarrow> os_report \<times> 'm host" where
  "configure M policy cfg browser_policy h =
     (let os = os_const M; (elevated, h) = is_elevated M h
      in if \<not> elevated then (not_elevated ''configure-os'' os (elevation_message os), h)
         else if \<not> is_supported os then (unsupported ''configure-os'' os, h)
         else
           let ip = loopback_ip cfg;
               owner = (if os = ''linux'' then detect_resolv_owner_live (disk h) else Unknown);
               res = (if os = ''linux'' then Some (owner_label owner) else None);
               (r, h) = execute M ''configure-os'' ip res (configure_resolver_steps os owner ip (tld cfg)) h;
               wired = (applied r \<noteq> []);
               (r, h) = (if browser_policy then apply_browser_policy M policy os ip (r, h) else (r, h));
               (act, h) = (if wired then verify_os_routing M cfg h else (False, h))
           in ((apply_activation_result os wired act r)\<lparr>os_ok := True\<rparr>, h))"

definition note_if_nothing_removed :: "os_report \<Rightarrow> os_report" where
  "note_if_nothing_removed r =
     (if removed r = [] then add_note ''nothing to remove (no dig-dns OS resolver config found)'' r else r)"

definition unconfigure :: "'m machine \<Rightarrow> config \<Rightarrow> 'm host \<Rightarrow> os_report \<times> 'm host" where
  "unconfigure M cfg h =
     (let os = os_const M; (elevated, h) = is_elevated M h
      in if \<not> elevated then (not_elevated ''unconfigure-os'' os (elevation_message os), h)
         else if \<not> is_supported os then (unsupported ''unconfigure-os'' os, h)
         else
           let ip = loopback_ip cfg;
               (r, h) = execute M ''unconfigure-os'' ip None (unconfigure_resolver_steps os ip (tld cfg)) h;
               (r, h) = remove_browser_policy M os ip (r, h)
           in (note_if_nothing_removed (r\<lparr>os_ok := True\<rparr>), h))"

definition is_configured :: "string \<Rightarrow> fsys \<Rightarrow> config \<Rightarrow> bool option" where
  "is_configured os w cfg =
     (if os = ''linux''
      then Some (file_is_ours w (path_of LINUX_RESOLVED_DROPIN) (loopback_ip cfg)
                 \<or> file_is_ours w (path_of LINUX_NM_DNSMASQ_CONF) (loopback_ip cfg))
      else if os = ''macos'' then Some (path_exists w (path_of (macos_resolver_path (tld cfg))))
      else None)"

end
