(* ===== verification/DoctorRun.thy ===== *)
theory DoctorRun
  imports OsConfig Dns
begin

text \<open>
  The live half of \<open>src/doctor.rs\<close>: the probes, the best-effort readers of the browser policy and of the holder
  of a port, and \<open>run_doctor\<close>, which feeds them to the evaluators of theory \<open>Doctor\<close>.
\<close>

section \<open>Probes\<close>

text \<open>What the probes use of the network. \<open>udp_bind\<close> binds a UDP socket to an address and port 0; \<open>udp_exchange\<close>
  is a socket bound to \<open>127.0.0.1:0\<close> and connected to the peer that sends a datagram and waits two seconds for
  one of at most 1500 bytes (\<open>None\<close> when any of this fails); \<open>http_status\<close> and \<open>http_json\<close> are a GET with the
  probe client, as the status code and as the parsed body; \<open>getaddrinfo_timeout\<close> is the lookup of a name off
  the thread with a limit of three seconds, which gives no address when it fails.\<close>

record ('v, 'm) probe_ops =
  udp_bind :: "ipv4 \<Rightarrow> 'm \<Rightarrow> bool \<times> 'm"
  udp_exchange :: "ipv4 \<times> u16 \<Rightarrow> bytes \<Rightarrow> 'm \<Rightarrow> bytes option \<times> 'm"
  http_status :: "string \<Rightarrow> 'm \<Rightarrow> u16 option \<times> 'm"
  http_json :: "string \<Rightarrow> 'm \<Rightarrow> 'v option \<times> 'm"
  getaddrinfo_timeout :: "string \<Rightarrow> 'm \<Rightarrow> ip_addr list \<times> 'm"

definition probe_dns :: "('v, 'm) probe_ops \<Rightarrow> ipv4 \<Rightarrow> u16 \<Rightarrow> string \<Rightarrow> 'm \<Rightarrow> ipv4 option \<times> 'm" where
  "probe_dns N ip port t m =
     (let (answer, m) = udp_exchange N (ip, port) (build_a_query (''doctor-probe.'' @ t)) m
      in (Option.bind answer parse_first_a_ipv4, m))"

definition probe_os_routing :: "('v, 'm) probe_ops \<Rightarrow> string \<Rightarrow> 'm \<Rightarrow> ip_addr list \<times> 'm" where
  "probe_os_routing N t m = getaddrinfo_timeout N (''doctor-probe.'' @ t @ '':0'') m"

fun probe_gateway_ports :: "('v, 'm) probe_ops \<Rightarrow> ipv4 \<Rightarrow> u16 list \<Rightarrow> 'm \<Rightarrow> u16 option \<times> 'm" where
  "probe_gateway_ports N ip [] m = (None, m)"
| "probe_gateway_ports N ip (port # ports) m =
     (let (st, m) = http_status N (''http://'' @ show_ipv4 ip @ '':'' @ show_word port @ ''/.dig/resolve-probe'') m
      in if st = Some 204 then (Some port, m) else probe_gateway_ports N ip ports m)"

definition probe_gateway :: "('v, 'm) probe_ops \<Rightarrow> ipv4 \<Rightarrow> u16 \<Rightarrow> u16 \<Rightarrow> 'm \<Rightarrow> u16 option \<times> 'm" where
  "probe_gateway N ip primary fallback m = probe_gateway_ports N ip [primary, fallback] m"

definition probe_node :: "'v json_ops \<Rightarrow> ('v, 'm) probe_ops \<Rightarrow> ipv4 \<Rightarrow> u16 \<Rightarrow> 'm \<Rightarrow> bool option \<times> 'm" where
  "probe_node J N ip port m =
     (let (body, m) = http_json N (''http://'' @ show_ipv4 ip @ '':'' @ show_word port @ ''/.dig/health'') m
      in (Option.bind body (\<lambda>b. Option.bind (jget J b ''node'') (\<lambda>n.
            Option.bind (jget J n ''reachable'') (as_bool J))), m))"

definition probe_secure_upstream :: "(io_error, 'r, 'm) dns_ops \<Rightarrow> config \<Rightarrow> 'm \<Rightarrow> check \<times> 'm" where
  "probe_secure_upstream D cfg m =
     (if \<not> secure_upstream cfg then (evaluate_secure_upstream False None None, m)
      else case new_secure_resolver D of
          Inl e \<Rightarrow> (evaluate_secure_upstream True None (Some (message e)), m)
        | Inr R \<Rightarrow>
            (case resolve_scoped D R UPSTREAM_HOST m of
               (Inr (t, addrs), m) \<Rightarrow> (evaluate_secure_upstream True t None, m)
             | (Inl e, m) \<Rightarrow> (evaluate_secure_upstream True None (Some (message e)), m)))"

section \<open>The browser policy\<close>

text \<open>\<open>reg query\<close>: the last word of the first line that mentions the value.\<close>

definition reg_query :: "'m machine \<Rightarrow> string \<Rightarrow> string \<Rightarrow> 'm host \<Rightarrow> string option \<times> 'm host" where
  "reg_query M key value h =
     (let (r, h) = on_procs (cmd_output (sys M) (tool M h ''reg'') [''query'', key, ''/v'', value]) h
      in (case r of
            Inl e \<Rightarrow> None
          | Inr (success, out, err) \<Rightarrow>
              Option.bind (List.find (\<lambda>l. contains_str l value) (str_lines out)) (\<lambda>l.
                if split_whitespace l = [] then None else Some (last (split_whitespace l))), h))"

definition defaults_read :: "'m machine \<Rightarrow> string \<Rightarrow> string \<Rightarrow> 'm host \<Rightarrow> string option \<times> 'm host" where
  "defaults_read M domain key h =
     (let (r, h) = on_procs (cmd_output (sys M) (tool M h ''defaults'') [''read'', domain, key]) h
      in (case r of
            Inl e \<Rightarrow> None
          | Inr (success, out, err) \<Rightarrow> if success then Some (trim out) else None, h))"

text \<open>\<open>parse\<close> and \<open>to_str\<close> are \<open>serde_json::from_str\<close> and \<open>Value::to_string\<close>.\<close>

fun scan_entries ::
  "'v json_ops \<Rightarrow> (string \<Rightarrow> 'v option) \<Rightarrow> ('v \<Rightarrow> string) \<Rightarrow> fsys \<Rightarrow> string \<Rightarrow> path list \<Rightarrow> string option" where
  "scan_entries J parse to_str w key [] = None"
| "scan_entries J parse to_str w key (p # ps) =
     (case Option.bind (Option.bind (res_ok (read_to_string w p)) parse) (\<lambda>v. jget J v key) of
        Some val \<Rightarrow> Some (to_str val)
      | None \<Rightarrow> scan_entries J parse to_str w key ps)"

definition scan_json_dir_for ::
  "'v json_ops \<Rightarrow> (string \<Rightarrow> 'v option) \<Rightarrow> ('v \<Rightarrow> string) \<Rightarrow> fsys \<Rightarrow> string \<Rightarrow> string \<Rightarrow> string option" where
  "scan_json_dir_for J parse to_str w dir key =
     (case read_dir w (path_of dir) of
        Inl e \<Rightarrow> None
      | Inr ps \<Rightarrow> scan_entries J parse to_str w key ps)"

text \<open>A loop that asks \<open>f\<close> for every element and collects what it found.\<close>

fun collect_found :: "('a \<Rightarrow> 'w \<Rightarrow> string option \<times> 'w) \<Rightarrow> 'a list \<Rightarrow> 'w \<Rightarrow> string list \<times> 'w" where
  "collect_found f [] w = ([], w)"
| "collect_found f (x # xs) w =
     (let (v, w) = f x w; (vs, w) = collect_found f xs w
      in ((case v of Some s \<Rightarrow> [s] | None \<Rightarrow> []) @ vs, w))"

definition read_browser_doh_policy ::
  "'m machine \<Rightarrow> 'v json_ops \<Rightarrow> (string \<Rightarrow> 'v option) \<Rightarrow> ('v \<Rightarrow> string) \<Rightarrow> 'm host \<Rightarrow> string list \<times> 'm host" where
  "read_browser_doh_policy M J parse to_str h =
     (if os_const M = ''windows'' then
        collect_found (\<lambda>(browser, key) h.
            let (v, h) = reg_query M key ''DnsOverHttpsMode'' h
            in (map_option (\<lambda>v. browser @ '' DnsOverHttpsMode='' @ v) v, h))
          [(''Chrome'', hklm WIN_CHROME_POLICY_KEY), (''Edge'', hklm WIN_EDGE_POLICY_KEY)] h
      else if os_const M = ''macos'' then
        collect_found (\<lambda>(browser, domain) h.
            let (v, h) = defaults_read M domain ''DnsOverHttpsMode'' h
            in (map_option (\<lambda>v. browser @ '' DnsOverHttpsMode='' @ v) v, h))
          [(''Chrome'', ''/Library/Managed Preferences/com.google.Chrome''),
           (''Edge'', ''/Library/Managed Preferences/com.microsoft.Edge'')] h
      else
        collect_found (\<lambda>dir h.
            (map_option (\<lambda>v. dir @ '': DnsOverHttpsMode='' @ v)
              (scan_json_dir_for J parse to_str (disk h) dir ''DnsOverHttpsMode''), h))
          [''/etc/opt/chrome/policies/managed'', ''/etc/chromium/policies/managed'',
           ''/etc/opt/edge/policies/managed''] h)"

definition check_browser_doh ::
  "'m machine \<Rightarrow> 'v json_ops \<Rightarrow> (string \<Rightarrow> 'v option) \<Rightarrow> ('v \<Rightarrow> string) \<Rightarrow> 'm host \<Rightarrow> check \<times> 'm host" where
  "check_browser_doh M J parse to_str h =
     (let (found, h) = read_browser_doh_policy M J parse to_str h;
          i = ''browser_doh''; n = ''Browser DNS-over-HTTPS / built-in-resolver policy''
      in (if found = []
          then new_check i n Info
            (''no managed DoH policy found; browsers may auto-enable DoH, which bypasses OS ''
             @ ''split-DNS (Path A) - Path B (the PAC proxy) is the reliable fallback'')
          else new_check i n Info (join_with ''; '' found), h))"

section \<open>The holder of the port\<close>

text \<open>The byte after an occurrence is not a digit. \<open>match_indices\<close> looks for the next occurrence after the end of
  the last one; occurrences of a needle that starts with a colon and holds no other cannot overlap.\<close>

fun mentions_port :: "string \<Rightarrow> string \<Rightarrow> bool" where
  "mentions_port needle s =
     ((case strip_prefix s needle of
         Some r \<Rightarrow> (case r of [] \<Rightarrow> True | c # x \<Rightarrow> \<not> is_digit c)
       | None \<Rightarrow> False)
      \<or> (case s of [] \<Rightarrow> False | c # cs \<Rightarrow> mentions_port needle cs))"

declare mentions_port.simps [simp del]

definition port_holder :: "'m machine \<Rightarrow> u16 \<Rightarrow> 'm host \<Rightarrow> string option \<times> 'm host" where
  "port_holder M port h =
     (let (cmd, as) = (if os_const M = ''windows'' then (''netstat'', [''-ano''])
                       else if os_const M = ''macos''
                       then (''lsof'', [''-i'', '':'' @ show_word port, ''-sTCP:LISTEN''])
                       else (''ss'', [''-ltnp'']));
          (r, h) = on_procs (cmd_output (sys M) (tool M h cmd) as) h
      in (case r of
            Inl e \<Rightarrow> None
          | Inr (success, out, err) \<Rightarrow>
              map_option (\<lambda>l. join_with '' '' (split_whitespace l))
                (List.find (mentions_port ('':'' @ show_word port)) (str_lines out)), h))"

definition check_port_holder :: "'m machine \<Rightarrow> u16 \<Rightarrow> u16 option \<Rightarrow> 'm host \<Rightarrow> check \<times> 'm host" where
  "check_port_holder M primary answered_port h =
     (let i = ''port80_holder''; n = ''Primary HTTP port holder'' in
      if answered_port = Some primary
      then (new_check i n Info (''dig-dns holds :'' @ show_word primary), h)
      else
        let (holder, h) = port_holder M primary h
        in (with_fix (new_check i n Info
              ('':'' @ show_word primary @ '' appears held by another process (''
               @ unwrap_or holder ''unknown'' @ ''); dig-dns uses the fallback''))
            (''free :'' @ show_word primary @ '' or keep the fallback - the PAC advertises the actual bound port''), h))"

section \<open>The run\<close>

definition run_doctor ::
  "'m machine \<Rightarrow> 'v json_ops \<Rightarrow> (string \<Rightarrow> 'v option) \<Rightarrow> ('v \<Rightarrow> string) \<Rightarrow> ('v, 'm) probe_ops
     \<Rightarrow> (io_error, 'r, 'm) dns_ops \<Rightarrow> config \<Rightarrow> 'm host \<Rightarrow> report \<times> 'm host" where
  "run_doctor M J parse to_str N D cfg h =
     (let ip = loopback_ip cfg;
          (bindable, h) = on_procs (udp_bind N ip) h;
          (dns_answer, h) = on_procs (probe_dns N ip (dns_port cfg) (tld cfg)) h;
          (resolved, h) = on_procs (probe_os_routing N (tld cfg)) h;
          configured = is_configured (os_const M) (disk h) cfg;
          (answered_port, h) = on_procs (probe_gateway N ip (http_port cfg) (http_fallback_port cfg)) h;
          (reachable, h) = (case answered_port of
              Some port \<Rightarrow> on_procs (probe_node J N ip port) h
            | None \<Rightarrow> (None, h));
          (doh, h) = check_browser_doh M J parse to_str h;
          (holder, h) = check_port_holder M (http_port cfg) answered_port h;
          (secure, h) = on_procs (probe_secure_upstream D cfg) h
      in (build_report
            [evaluate_loopback ip bindable, evaluate_dns_direct ip dns_answer, evaluate_os_routing ip resolved,
             evaluate_os_config configured, evaluate_gateway (http_port cfg) (http_fallback_port cfg) answered_port,
             evaluate_node reachable, doh, holder, secure], h))"

section \<open>The verdict\<close>

lemma on_procs_simps:
  "fst (on_procs f h) = fst (f (procs h))" "disk (snd (on_procs f h)) = disk h"
  "procs (snd (on_procs f h)) = snd (f (procs h))"
  by (simp_all add: on_procs_def split_beta)

lemma collect_found_disk:
  assumes "\<And>x h. disk (snd (f x h)) = disk h"
  shows "disk (snd (collect_found f xs h)) = disk h"
  using assms by (induction xs arbitrary: h) (simp_all add: split_beta Let_def)

lemma reader_disk:
  "disk (snd (reg_query M key value h)) = disk h" "disk (snd (defaults_read M domain key h)) = disk h"
  "disk (snd (port_holder M port h)) = disk h"
  by (simp_all add: reg_query_def defaults_read_def port_holder_def split_beta Let_def on_procs_simps)

lemma check_disk:
  "disk (snd (check_browser_doh M J parse to_str h)) = disk h"
  "disk (snd (check_port_holder M primary ap h)) = disk h"
proof -
  have "disk (snd (read_browser_doh_policy M J parse to_str h)) = disk h"
    unfolding read_browser_doh_policy_def
    by (cases "os_const M = ''windows''"; cases "os_const M = ''macos''")
       (simp_all add: collect_found_disk reader_disk split_beta Let_def del: collect_found.simps)
  then show "disk (snd (check_browser_doh M J parse to_str h)) = disk h"
    by (simp add: check_browser_doh_def split_beta Let_def)
  show "disk (snd (check_port_holder M primary ap h)) = disk h"
    by (simp add: check_port_holder_def split_beta Let_def reader_disk)
qed

lemma check_ids [simp]:
  "check_id (fst (check_browser_doh M J parse to_str h)) = ''browser_doh''"
  "check_id (fst (check_port_holder M primary ap h)) = ''port80_holder''"
  by (simp_all add: check_browser_doh_def check_port_holder_def split_beta Let_def)

lemma probe_secure_id [simp]: "check_id (fst (probe_secure_upstream D cfg m)) = ''secure_upstream''"
proof -
  have "check_id (fst (case x of (Inr (t, addrs), m) \<Rightarrow> (evaluate_secure_upstream True t None, m)
      | (Inl e, m) \<Rightarrow> (evaluate_secure_upstream True None (Some (message e)), m))) = ''secure_upstream''"
    for x :: "(io_error + tier option \<times> ip_addr list) \<times> 'a"
    by (cases x; cases "fst x") auto
  then show ?thesis by (simp add: probe_secure_upstream_def split: sum.split)
qed

lemma run_doctor_checks:
  obtains m1 m2 m3 m4 bindable answer resolved port conf node doh holder secure h8 where
    "udp_bind N (loopback_ip cfg) (procs h) = (bindable, m1)"
    "probe_dns N (loopback_ip cfg) (dns_port cfg) (tld cfg) m1 = (answer, m2)"
    "probe_os_routing N (tld cfg) m2 = (resolved, m3)"
    "probe_gateway N (loopback_ip cfg) (http_port cfg) (http_fallback_port cfg) m3 = (port, m4)"
    "run_doctor M J parse to_str N D cfg h = (build_report
      [evaluate_loopback (loopback_ip cfg) bindable, evaluate_dns_direct (loopback_ip cfg) answer,
       evaluate_os_routing (loopback_ip cfg) resolved, evaluate_os_config conf,
       evaluate_gateway (http_port cfg) (http_fallback_port cfg) port, evaluate_node node, doh, holder, secure], h8)"
    "check_id doh = ''browser_doh''" "check_id holder = ''port80_holder''" "check_id secure = ''secure_upstream''"
    "disk h8 = disk h"
proof -
  let ?ip = "loopback_ip cfg"
  obtain bindable h1 where 1: "on_procs (udp_bind N ?ip) h = (bindable, h1)" by fastforce
  obtain answer h2 where 2: "on_procs (probe_dns N ?ip (dns_port cfg) (tld cfg)) h1 = (answer, h2)" by fastforce
  obtain resolved h3 where 3: "on_procs (probe_os_routing N (tld cfg)) h2 = (resolved, h3)" by fastforce
  obtain port h4 where 4: "on_procs (probe_gateway N ?ip (http_port cfg) (http_fallback_port cfg)) h3 = (port, h4)"
    by fastforce
  obtain node h5 where 5: "(case port of Some p \<Rightarrow> on_procs (probe_node J N ?ip p) h4 | None \<Rightarrow> (None, h4)) = (node, h5)"
    by fastforce
  obtain doh h6 where 6: "check_browser_doh M J parse to_str h5 = (doh, h6)" by fastforce
  obtain holder h7 where 7: "check_port_holder M (http_port cfg) port h6 = (holder, h7)" by fastforce
  obtain secure h8 where 8: "on_procs (probe_secure_upstream D cfg) h7 = (secure, h8)" by fastforce
  have run: "run_doctor M J parse to_str N D cfg h = (build_report
      [evaluate_loopback ?ip bindable, evaluate_dns_direct ?ip answer, evaluate_os_routing ?ip resolved,
       evaluate_os_config (is_configured (os_const M) (disk h3) cfg),
       evaluate_gateway (http_port cfg) (http_fallback_port cfg) port, evaluate_node node, doh, holder, secure], h8)"
    unfolding run_doctor_def Let_def 1 2 3 4 5 6 7 8 prod.case ..
  have probes: "udp_bind N ?ip (procs h) = (bindable, procs h1)"
    "probe_dns N ?ip (dns_port cfg) (tld cfg) (procs h1) = (answer, procs h2)"
    "probe_os_routing N (tld cfg) (procs h2) = (resolved, procs h3)"
    "probe_gateway N ?ip (http_port cfg) (http_fallback_port cfg) (procs h3) = (port, procs h4)"
    using on_procs_simps(1,3) [of _ h] on_procs_simps(1,3) [of _ h1] on_procs_simps(1,3) [of _ h2]
      on_procs_simps(1,3) [of _ h3] 1 2 3 4 by (metis fst_conv snd_conv prod.collapse)+
  have ids: "check_id doh = ''browser_doh''" "check_id holder = ''port80_holder''" "check_id secure = ''secure_upstream''"
    using check_ids(1) [of M J parse to_str h5] check_ids(2) [of M "http_port cfg" port h6]
      probe_secure_id [of D cfg "procs h7"] on_procs_simps(1) [of "probe_secure_upstream D cfg" h7] 6 7 8
    by simp_all
  have "disk h1 = disk h" using on_procs_simps(2) [of "udp_bind N ?ip" h] 1 by simp
  moreover have "disk h2 = disk h1"
    using on_procs_simps(2) [of "probe_dns N ?ip (dns_port cfg) (tld cfg)" h1] 2 by simp
  moreover have "disk h3 = disk h2" using on_procs_simps(2) [of "probe_os_routing N (tld cfg)" h2] 3 by simp
  moreover have "disk h4 = disk h3"
    using on_procs_simps(2) [of "probe_gateway N ?ip (http_port cfg) (http_fallback_port cfg)" h3] 4 by simp
  moreover have "disk h5 = disk h4"
    using on_procs_simps(2) [of "probe_node J N ?ip (the port)" h4] 5 by (cases port) simp_all
  moreover have "disk h6 = disk h5" using check_disk(1) [of M J parse to_str h5] 6 by simp
  moreover have "disk h7 = disk h6" using check_disk(2) [of M "http_port cfg" port h6] 7 by simp
  moreover have "disk h8 = disk h7" using on_procs_simps(2) [of "probe_secure_upstream D cfg" h7] 8 by simp
  ultimately have disk: "disk h8 = disk h" by simp
  show ?thesis by (rule that [OF probes run ids disk])
qed

text \<open>C31. The verdict of the doctor is what its observations say: Path A is live exactly when the resolver of the
  system returned the configured address, Path B exactly when one of the two gateway ports answered, the report is ok
  exactly when the loopback address could be bound and a path is live, and no other of the nine checks can change it.
  The doctor writes no file.\<close>

theorem doctor_verdict:
  "let (rep, h') = run_doctor M J parse to_str N D cfg h;
       (bindable, m1) = udp_bind N (loopback_ip cfg) (procs h);
       (dns_answer, m2) = probe_dns N (loopback_ip cfg) (dns_port cfg) (tld cfg) m1;
       (resolved, m3) = probe_os_routing N (tld cfg) m2;
       (port, m4) = probe_gateway N (loopback_ip cfg) (http_port cfg) (http_fallback_port cfg) m3
   in path_a rep = (V4 (loopback_ip cfg) \<in> set resolved) \<and> path_b rep = (port \<noteq> None)
      \<and> report_ok rep = (bindable \<and> (path_a rep \<or> path_b rep))
      \<and> map check_id (checks rep) = [''loopback_ip'', ''dns_direct'', ''os_routing'', ''os_config'', ''gateway_port'',
           ''node_reachable'', ''browser_doh'', ''port80_holder'', ''secure_upstream'']
      \<and> disk h' = disk h"
proof -
  from run_doctor_checks [of N cfg h M J parse to_str D] obtain m1 m2 m3 m4 bindable answer resolved port conf node doh holder
    secure h8 where
    probes: "udp_bind N (loopback_ip cfg) (procs h) = (bindable, m1)"
    "probe_dns N (loopback_ip cfg) (dns_port cfg) (tld cfg) m1 = (answer, m2)"
    "probe_os_routing N (tld cfg) (m2) = (resolved, m3)"
    "probe_gateway N (loopback_ip cfg) (http_port cfg) (http_fallback_port cfg) (m3) = (port, m4)"
    and run: "run_doctor M J parse to_str N D cfg h = (build_report
      [evaluate_loopback (loopback_ip cfg) bindable, evaluate_dns_direct (loopback_ip cfg) answer,
       evaluate_os_routing (loopback_ip cfg) resolved, evaluate_os_config conf,
       evaluate_gateway (http_port cfg) (http_fallback_port cfg) port, evaluate_node node, doh, holder, secure], h8)"
    and ids: "check_id doh = ''browser_doh''" "check_id holder = ''port80_holder''" "check_id secure = ''secure_upstream''"
    and disk: "disk h8 = disk h" .
  show ?thesis
    unfolding run probes Let_def prod.case
    by (simp add: build_report_def passed_def overall_ok_def ids disk Let_def)
qed

end
