(* ===== verification/Cli.thy ===== *)
theory Cli
  imports Server LinuxService ManagedService DoctorRun
begin

text \<open>
  \<open>src/cli.rs\<close>: the commands, the pure \<open>execute\<close>, the configuration of a command, and \<open>run\<close> after \<open>clap\<close> has
  parsed the arguments: what is printed on each stream and the exit code. The components a command calls are the
  fields of \<open>cli_ops\<close>; \<open>system_ops\<close> fills them with the models of the components, on one machine.
\<close>

section \<open>The program's name\<close>

text \<open>\<open>invoked_bin_name\<close> of \<open>src/lib.rs\<close>: the stem of the last component of a POSIX path.\<close>

definition file_name :: "string \<Rightarrow> string option" where
  "file_name p =
     (case filter (\<lambda>c. c \<noteq> [] \<and> c \<noteq> ''.'') (split_on CHR ''/'' p) of
        [] \<Rightarrow> None
      | cs \<Rightarrow> if last cs = ''..'' then None else Some (last cs))"

definition file_stem :: "string \<Rightarrow> string" where
  "file_stem name =
     (let stem = rev (tl (dropWhile (\<lambda>c. c \<noteq> CHR ''.'') (rev name)))
      in if stem = [] then name else stem)"

definition invoked_bin_name :: "string list \<Rightarrow> string" where
  "invoked_bin_name argv =
     unwrap_or (opt_filter (\<lambda>s. s \<noteq> [])
       (case argv of [] \<Rightarrow> None | arg0 # _ \<Rightarrow> map_option file_stem (file_name arg0))) ''dig-dns''"

lemma bin_names:
  "invoked_bin_name [''/usr/bin/digd'', ''--help''] = ''digd''" "invoked_bin_name [''bin/dig-dns.exe''] = ''dig-dns''"
  "invoked_bin_name [] = ''dig-dns''" "invoked_bin_name [''/''] = ''dig-dns''"
  by code_simp+

section \<open>Commands\<close>

datatype label_action = Encode string bool | Decode string bool

datatype command =
    Label label_action
  | ConfigCmd bool
  | Serve "string option"
  | RunService
  | Install "string option" bool
  | Uninstall bool
  | Start bool
  | Stop bool
  | Status bool
  | Health bool
  | Fetch string string "string option" bool
  | Doctor bool
  | ConfigureOs bool bool
  | UnconfigureOs bool
  | PacCmd "u16 option" bool

section \<open>Messages\<close>

fun map_err :: "('e \<Rightarrow> 'f) \<Rightarrow> 'e + 'a \<Rightarrow> 'f + 'a" where
  "map_err f (Inl e) = Inl (f e)"
| "map_err f (Inr a) = Inr a"

fun show_config_error :: "config_error \<Rightarrow> string" where
  "show_config_error (InvalidIp key value) = key @ '': '' @ [CHR 0x27] @ value @ [CHR 0x27] @ '' is not a valid IPv4 address''"
| "show_config_error (InvalidPort key value) = key @ '': '' @ [CHR 0x27] @ value @ [CHR 0x27] @ '' is not a valid port (1-65535)''"
| "show_config_error (InvalidInt key value) = key @ '': '' @ [CHR 0x27] @ value @ [CHR 0x27] @ '' is not a valid integer''"
| "show_config_error (NotLoopback ip) =
     ''bind IP '' @ show_ipv4 ip @ '' is not a loopback address (must be in 127.0.0.0/8)''"
| "show_config_error EmptyTld = ''TLD must not be empty''"
| "show_config_error (InvalidTldCharset t) = ''TLD '' @ [CHR 0x27] @ t @ [CHR 0x27]
     @ '' must contain only lowercase letters, digits, and hyphens ([a-z0-9-])''"
| "show_config_error (InvalidNodeUrl u) = ''node URL '' @ [CHR 0x27] @ u @ [CHR 0x27]
     @ '' must not contain control characters or newlines''"
| "show_config_error (InvalidToggle v) = ''DIG_DNS_SECURE_UPSTREAM: '' @ [CHR 0x27] @ v @ [CHR 0x27]
     @ '' is not '' @ [CHR 0x27] @ ''on'' @ [CHR 0x27] @ '' or '' @ [CHR 0x27] @ ''off'' @ [CHR 0x27]"

fun show_label_error :: "label_error \<Rightarrow> string" where
  "show_label_error (WrongLabelLength n) = ''label must be 52 base32 characters, got '' @ show_nat n"
| "show_label_error NotBase32 = ''label is not valid base32 (RFC 4648, alphabet a-z2-7)''"
| "show_label_error (WrongDecodedLength n) = ''label decoded to '' @ show_nat n @ '' bytes, expected 32''"
| "show_label_error (WrongHexLength n) = ''store id must be 64 hex characters''"
| "show_label_error NotHex = ''store id is not valid hex''"

definition show_i64 :: "u64 \<Rightarrow> string" where
  "show_i64 w = (if sint w < 0 then CHR ''-'' # show_nat (nat (- sint w)) else show_nat (nat (sint w)))"

fun show_node_error :: "node_error \<Rightarrow> string" where
  "show_node_error (Rpc c m d) = ''node JSON-RPC error '' @ show_i64 c @ '': '' @ m"
| "show_node_error (Malformed m) = ''malformed node response: '' @ m"
| "show_node_error (Transport m) = ''node transport error: '' @ m"

text \<open>\<open>bad_path\<close> is the message for a path that is no URI.\<close>

fun show_server_error :: "(string \<Rightarrow> string) \<Rightarrow> server_error \<Rightarrow> string" where
  "show_server_error bad_path (NodeFailed e) = show_node_error e"
| "show_server_error bad_path (IoFailed e) = message e"
| "show_server_error bad_path (InvalidPath p) = bad_path p"

text \<open>What \<open>derive(Serialize)\<close> makes of a configuration.\<close>

definition config_json :: "'v json_ops \<Rightarrow> config \<Rightarrow> 'v" where
  "config_json J cfg = jobj J
     [(''loopback_ip'', jstr J (show_ipv4 (loopback_ip cfg))), (''dns_port'', ju64 J (ucast (dns_port cfg))),
      (''http_port'', ju64 J (ucast (http_port cfg))),
      (''http_fallback_port'', ju64 J (ucast (http_fallback_port cfg))),
      (''tld'', jstr J (tld cfg)), (''dns_ttl_secs'', ju64 J (ucast (dns_ttl_secs cfg))),
      (''node_url'', case node_url cfg of Some u \<Rightarrow> jstr J u | None \<Rightarrow> jnull J),
      (''dig_local_ip'', jstr J (show_ipv4 (dig_local_ip cfg))),
      (''dig_local_port'', ju64 J (ucast (dig_local_port cfg))),
      (''secure_upstream'', jbool J (secure_upstream cfg))]"

section \<open>The pure commands\<close>

text \<open>\<open>disp\<close> prints a JSON value on one line, \<open>pretty\<close> is \<open>to_string_pretty\<close>.\<close>

record 'v printer =
  disp :: "'v \<Rightarrow> string"
  pretty :: "'v \<Rightarrow> string + string"

definition execute ::
  "codec_ops \<Rightarrow> 'v json_ops \<Rightarrow> 'v printer \<Rightarrow> command \<Rightarrow> (string \<Rightarrow> string option) \<Rightarrow> string + string" where
  "execute C J P cmd get =
     (case cmd of
        Label (Encode store_hex json) \<Rightarrow>
          rbind (map_err show_config_error (from_env get)) (\<lambda>cfg.
          rbind (map_err show_label_error (store_hex_to_label C store_hex)) (\<lambda>lbl.
          let host = lbl @ ''.'' @ tld cfg
          in if json
             then Ok (disp P (jobj J [(''store_id_hex'', jstr J store_hex), (''label'', jstr J lbl),
                                      (''host'', jstr J host)]))
             else Ok host))
      | Label (Decode host json) \<Rightarrow>
          (let lbl = hd (split_on CHR ''.'' host)
           in rbind (map_err show_label_error (label_to_store_hex C lbl)) (\<lambda>hex.
              if json
              then Ok (disp P (jobj J [(''host'', jstr J host), (''label'', jstr J lbl),
                                       (''store_id_hex'', jstr J hex)]))
              else Ok hex))
      | ConfigCmd json \<Rightarrow>
          rbind (map_err show_config_error (from_env get)) (\<lambda>cfg.
          if json then pretty P (config_json J cfg)
          else Ok (''loopback_ip = '' @ show_ipv4 (loopback_ip cfg) @ NL
                 @ ''dns_port = '' @ show_word (dns_port cfg) @ NL
                 @ ''http_port = '' @ show_word (http_port cfg) @ NL
                 @ ''http_fallback_port = '' @ show_word (http_fallback_port cfg) @ NL
                 @ ''tld = '' @ tld cfg @ NL
                 @ ''dns_ttl_secs = '' @ show_word (dns_ttl_secs cfg) @ NL
                 @ ''node_url = '' @ unwrap_or (node_url cfg)
                     ''(ladder: dig.local -> localhost:9778 -> rpc.dig.net)''))
      | _ \<Rightarrow> Err ''this command runs via the binary entrypoint, not execute()'')"

definition load_config :: "(string \<Rightarrow> string option) \<Rightarrow> string option \<Rightarrow> string + config" where
  "load_config get node_flag =
     rbind (map_err show_config_error (from_env get)) (\<lambda>cfg.
     let cfg = (case node_flag of
           Some url \<Rightarrow> if trim url \<noteq> [] then cfg\<lparr>node_url := Some (trim url)\<rparr> else cfg
         | None \<Rightarrow> cfg)
     in rbind (map_err show_config_error (validate cfg)) (\<lambda>_. Ok cfg))"

section \<open>The outcome of a command\<close>

datatype exit_code = Success | Failure | Panicked

record outcome =
  stdout :: bytes
  stderr :: string
  exit :: exit_code

definition success_if :: "bool \<Rightarrow> exit_code" where
  "success_if ok = (if ok then Success else Failure)"

definition println :: "string \<Rightarrow> bytes" where
  "println s = str_bytes (s @ NL)"

definition fail :: "string \<Rightarrow> outcome" where
  "fail msg = \<lparr>stdout = [], stderr = ''error: '' @ msg @ NL, exit = Failure\<rparr>"

text \<open>A panic ends the process with code 101; its message is not modelled.\<close>

definition panicked :: outcome where
  "panicked = \<lparr>stdout = [], stderr = [], exit = Panicked\<rparr>"

definition print_os_config_report :: "'v json_ops \<Rightarrow> 'v printer \<Rightarrow> os_report \<Rightarrow> bool \<Rightarrow> outcome" where
  "print_os_config_report J P r json =
     \<lparr>stdout = (if json then println (disp P (os_report_json J r)) else str_bytes (os_summary r)),
      stderr = [], exit = success_if (os_ok r)\<rparr>"

definition print_service_outcome :: "'v printer \<Rightarrow> 'v service_outcome \<Rightarrow> bool \<Rightarrow> outcome" where
  "print_service_outcome P out json =
     \<lparr>stdout = println (if json then disp P (snd out) else fst out), stderr = [], exit = Success\<rparr>"

definition print_fetch :: "'v json_ops \<Rightarrow> 'v printer \<Rightarrow> gateway_response \<Rightarrow> bool \<Rightarrow> outcome" where
  "print_fetch J P resp json =
     (let content_type = unwrap_or (map_of (headers resp) ''content-type'') []
      in \<lparr>stdout = (if json
             then println (disp P (jobj J [(''status'', ju64 J (ucast (Gateway.status resp))),
                    (''content_type'', jstr J content_type), (''length'', ju64 J (of_nat (length (body resp))))]))
             else body resp),
          stderr = (if \<not> json \<and> 400 \<le> Gateway.status resp
                    then NL @ ''error: status '' @ show_word (Gateway.status resp) @ NL else []),
          exit = success_if (Gateway.status resp < 400)\<rparr>)"

section \<open>Running a command\<close>

record ('v, 'w) cli_ops =
  platform :: os
  env :: "string \<Rightarrow> string option"
  runtime :: "'w \<Rightarrow> (io_error + unit) \<times> 'w"
  run_service :: "config \<Rightarrow> 'w \<Rightarrow> (server_error + unit) \<times> 'w"
  win_service :: "'w \<Rightarrow> (io_error + unit) \<times> 'w"
  fetch_op :: "config \<Rightarrow> string \<Rightarrow> string \<Rightarrow> 'w \<Rightarrow> (server_error + gateway_response option) \<times> 'w"
  doctor_op :: "config \<Rightarrow> 'w \<Rightarrow> report \<times> 'w"
  probe_port_op :: "ipv4 \<Rightarrow> u16 \<Rightarrow> u16 \<Rightarrow> 'w \<Rightarrow> u16 option \<times> 'w"
  install_op :: "config \<Rightarrow> 'w \<Rightarrow> (io_error + 'v service_outcome) \<times> 'w"
  uninstall_op :: "'w \<Rightarrow> (io_error + 'v service_outcome) \<times> 'w"
  start_op :: "'w \<Rightarrow> (io_error + 'v service_outcome) \<times> 'w"
  stop_op :: "'w \<Rightarrow> (io_error + 'v service_outcome) \<times> 'w"
  status_op :: "config \<Rightarrow> 'w \<Rightarrow> (io_error + 'v service_outcome) \<times> 'w"
  health_op :: "config \<Rightarrow> 'w \<Rightarrow> (io_error + 'v service_outcome) \<times> 'w"
  configure_op :: "config \<Rightarrow> bool \<Rightarrow> 'w \<Rightarrow> os_report \<times> 'w"
  unconfigure_op :: "config \<Rightarrow> 'w \<Rightarrow> os_report \<times> 'w"
  bad_path_text :: "string \<Rightarrow> string"

text \<open>The early returns the commands share: no valid configuration, no \<open>tokio\<close> runtime, a failed operation.\<close>

definition with_config ::
  "('v, 'w) cli_ops \<Rightarrow> string option \<Rightarrow> (config \<Rightarrow> 'w \<Rightarrow> outcome \<times> 'w) \<Rightarrow> 'w \<Rightarrow> outcome \<times> 'w" where
  "with_config X node k w =
     (case load_config (env X) node of Inl e \<Rightarrow> (fail e, w) | Inr cfg \<Rightarrow> k cfg w)"

definition with_runtime :: "('v, 'w) cli_ops \<Rightarrow> ('w \<Rightarrow> outcome \<times> 'w) \<Rightarrow> 'w \<Rightarrow> outcome \<times> 'w" where
  "with_runtime X k w = (case runtime X w of (Inl e, w) \<Rightarrow> (fail (message e), w) | (Inr u, w) \<Rightarrow> k w)"

fun or_fail :: "('e \<Rightarrow> string) \<Rightarrow> ('a \<Rightarrow> outcome) \<Rightarrow> ('e + 'a) \<times> 'w \<Rightarrow> outcome \<times> 'w" where
  "or_fail show k (Inl e, w) = (fail (show e), w)"
| "or_fail show k (Inr a, w) = (k a, w)"

definition ended :: "unit \<Rightarrow> outcome" where
  "ended u = \<lparr>stdout = [], stderr = [], exit = Success\<rparr>"

text \<open>\<open>serve\<close>, and \<open>run-service\<close> off Windows.\<close>

definition serve_command :: "('v, 'w) cli_ops \<Rightarrow> string option \<Rightarrow> 'w \<Rightarrow> outcome \<times> 'w" where
  "serve_command X node =
     with_config X node (\<lambda>cfg. with_runtime X (\<lambda>w.
       or_fail (show_server_error (bad_path_text X)) ended (run_service X cfg w)))"

text \<open>\<open>status\<close> and \<open>health\<close> exit with the serving state they report.\<close>

definition serving_outcome :: "'v json_ops \<Rightarrow> 'v printer \<Rightarrow> bool \<Rightarrow> 'v service_outcome \<Rightarrow> outcome" where
  "serving_outcome J P json out =
     (print_service_outcome P out json)\<lparr>exit := success_if
        (unwrap_or (Option.bind (jget J (snd out) ''serving'') (as_bool J)) False)\<rparr>"

definition pac_command ::
  "'v json_ops \<Rightarrow> 'v printer \<Rightarrow> bool \<Rightarrow> config \<Rightarrow> u16 \<Rightarrow> outcome" where
  "pac_command J P json cfg port =
     (let pac = generate (loopback_ip cfg) port (tld cfg)
      in \<lparr>stdout = (if json
            then println (disp P (jobj J [(''loopback_ip'', jstr J (show_ipv4 (loopback_ip cfg))),
                   (''port'', ju64 J (ucast port)), (''tld'', jstr J (tld cfg)), (''pac'', jstr J pac)]))
            else str_bytes pac),
          stderr = [], exit = Success\<rparr>)"

definition doctor_outcome :: "'v json_ops \<Rightarrow> 'v printer \<Rightarrow> bool \<Rightarrow> report \<Rightarrow> outcome" where
  "doctor_outcome J P json r =
     \<lparr>stdout = (if json then println (disp P (report_json J r)) else str_bytes (report_text r)),
      stderr = [], exit = success_if (report_ok r)\<rparr>"

definition fetch_command ::
  "'v json_ops \<Rightarrow> 'v printer \<Rightarrow> ('v, 'w) cli_ops \<Rightarrow> string \<Rightarrow> string \<Rightarrow> string option \<Rightarrow> bool
     \<Rightarrow> 'w \<Rightarrow> outcome \<times> 'w" where
  "fetch_command J P X target path node json =
     with_config X node (\<lambda>cfg. with_runtime X (\<lambda>w.
       or_fail (show_server_error (bad_path_text X))
         (\<lambda>resp. case resp of None \<Rightarrow> panicked | Some r \<Rightarrow> print_fetch J P r json)
         (fetch_op X cfg target path w)))"

definition doctor_command :: "'v json_ops \<Rightarrow> 'v printer \<Rightarrow> ('v, 'w) cli_ops \<Rightarrow> bool \<Rightarrow> 'w \<Rightarrow> outcome \<times> 'w" where
  "doctor_command J P X json =
     with_config X None (\<lambda>cfg. with_runtime X (\<lambda>w.
       let (report, w) = doctor_op X cfg w in (doctor_outcome J P json report, w)))"

text \<open>\<open>pac\<close>: the port of the flag, or the one the running gateway answers on, or the configured one.\<close>

definition pac_run ::
  "'v json_ops \<Rightarrow> 'v printer \<Rightarrow> ('v, 'w) cli_ops \<Rightarrow> u16 option \<Rightarrow> bool \<Rightarrow> 'w \<Rightarrow> outcome \<times> 'w" where
  "pac_run J P X port json =
     with_config X None (\<lambda>cfg. case port of
         Some p \<Rightarrow> (\<lambda>w. (pac_command J P json cfg p, w))
       | None \<Rightarrow> with_runtime X (\<lambda>w.
           let (p, w) = probe_port_op X (loopback_ip cfg) (http_port cfg) (http_fallback_port cfg) w
           in (pac_command J P json cfg (unwrap_or p (http_port cfg)), w)))"

definition run_service_command :: "('v, 'w) cli_ops \<Rightarrow> 'w \<Rightarrow> outcome \<times> 'w" where
  "run_service_command X =
     (if platform X = Windows then (\<lambda>w. or_fail message ended (win_service X w))
      else serve_command X None)"

text \<open>\<open>install\<close>, and the service commands that need no configuration: \<open>uninstall\<close>, \<open>start\<close> and \<open>stop\<close>.\<close>

definition install_command ::
  "'v printer \<Rightarrow> ('v, 'w) cli_ops \<Rightarrow> string option \<Rightarrow> bool \<Rightarrow> 'w \<Rightarrow> outcome \<times> 'w" where
  "install_command P X node json =
     with_config X node (\<lambda>cfg w. or_fail message (\<lambda>out. print_service_outcome P out json) (install_op X cfg w))"

definition service_command ::
  "'v printer \<Rightarrow> ('w \<Rightarrow> (io_error + 'v service_outcome) \<times> 'w) \<Rightarrow> bool \<Rightarrow> 'w \<Rightarrow> outcome \<times> 'w" where
  "service_command P operation json w = or_fail message (\<lambda>out. print_service_outcome P out json) (operation w)"

definition serving_command ::
  "'v json_ops \<Rightarrow> 'v printer \<Rightarrow> ('v, 'w) cli_ops \<Rightarrow> (config \<Rightarrow> 'w \<Rightarrow> (io_error + 'v service_outcome) \<times> 'w) \<Rightarrow> bool
     \<Rightarrow> 'w \<Rightarrow> outcome \<times> 'w" where
  "serving_command J P X operation json =
     with_config X None (\<lambda>cfg w. or_fail message (serving_outcome J P json) (operation cfg w))"

definition os_command ::
  "'v json_ops \<Rightarrow> 'v printer \<Rightarrow> ('v, 'w) cli_ops \<Rightarrow> (config \<Rightarrow> 'w \<Rightarrow> os_report \<times> 'w) \<Rightarrow> bool \<Rightarrow> 'w \<Rightarrow> outcome \<times> 'w" where
  "os_command J P X operation json =
     with_config X None (\<lambda>cfg w. let (r, w) = operation cfg w in (print_os_config_report J P r json, w))"

definition pure_command ::
  "codec_ops \<Rightarrow> 'v json_ops \<Rightarrow> 'v printer \<Rightarrow> ('v, 'w) cli_ops \<Rightarrow> command \<Rightarrow> 'w \<Rightarrow> outcome \<times> 'w" where
  "pure_command C J P X cmd w =
     (case execute C J P cmd (env X) of
        Inr out \<Rightarrow> \<lparr>stdout = println out, stderr = [], exit = Success\<rparr>
      | Inl msg \<Rightarrow> fail msg, w)"

lemmas command_defs = fetch_command_def doctor_command_def pac_run_def run_service_command_def serve_command_def
  install_command_def service_command_def serving_command_def os_command_def pure_command_def

fun run ::
  "codec_ops \<Rightarrow> 'v json_ops \<Rightarrow> 'v printer \<Rightarrow> ('v, 'w) cli_ops \<Rightarrow> command \<Rightarrow> 'w \<Rightarrow> outcome \<times> 'w" where
  "run C J P X (Serve node) = serve_command X node"
| "run C J P X (Fetch target path node json) = fetch_command J P X target path node json"
| "run C J P X (Doctor json) = doctor_command J P X json"
| "run C J P X (PacCmd port json) = pac_run J P X port json"
| "run C J P X RunService = run_service_command X"
| "run C J P X (Install node json) = install_command P X node json"
| "run C J P X (Uninstall json) = service_command P (uninstall_op X) json"
| "run C J P X (Start json) = service_command P (start_op X) json"
| "run C J P X (Stop json) = service_command P (stop_op X) json"
| "run C J P X (Status json) = serving_command J P X (status_op X) json"
| "run C J P X (Health json) = serving_command J P X (health_op X) json"
| "run C J P X (ConfigureOs browser_policy json) = os_command J P X (\<lambda>cfg. configure_op X cfg browser_policy) json"
| "run C J P X (UnconfigureOs json) = os_command J P X (unconfigure_op X) json"
| "run C J P X (Label how) = pure_command C J P X (Label how)"
| "run C J P X (ConfigCmd json) = pure_command C J P X (ConfigCmd json)"

end
