(* ===== verification/ServiceRun.thy ===== *)
theory ServiceRun
  imports Cli
begin

text \<open>
  \<open>src/service_run.rs\<close>, the contract with the Windows service control manager, and \<open>src/win_service.rs\<close>, its
  adapter: the status reports, the control handler and the body of the service. The crate \<open>windows_service\<close>
  (registering the handler, setting a status, the dispatcher) is a parameter.
\<close>

record 'w reporter =
  report_running :: "'w \<Rightarrow> (io_error + unit) \<times> 'w"
  report_stopped :: "u32 \<Rightarrow> 'w \<Rightarrow> 'w"

definition run_reporting ::
  "'w reporter \<Rightarrow> ('w \<Rightarrow> (io_error + unit) \<times> 'w) \<Rightarrow> 'w \<Rightarrow> (io_error + unit) \<times> 'w" where
  "run_reporting R work w =
     io_bind (report_running R w) (\<lambda>_ w.
     let (result, w) = work w
     in (result, report_stopped R (if is_ok result then 0 else 1) w))"

datatype service_state = Running | Stopped

text \<open>The fields of \<open>ServiceStatus\<close> that vary; \<open>set_service_status\<close> is the status handle.\<close>

record service_status =
  current_state :: service_state
  accepts_stop :: bool
  exit_code :: u32

definition scm_status :: "service_state \<Rightarrow> bool \<Rightarrow> u32 \<Rightarrow> service_status" where
  "scm_status s accept code = \<lparr>current_state = s, accepts_stop = accept, exit_code = code\<rparr>"

definition scm_reporter :: "(service_status \<Rightarrow> 'w \<Rightarrow> (string + unit) \<times> 'w) \<Rightarrow> 'w reporter" where
  "scm_reporter set_service_status =
     \<lparr>report_running = (\<lambda>w. let (r, w) = set_service_status (scm_status Running True 0) w in (map_err io_other r, w)),
      report_stopped = (\<lambda>code w. snd (set_service_status (scm_status Stopped False code) w))\<rparr>"

text \<open>The control handler; the flag is the channel of the shutdown.\<close>

datatype service_control = Interrogate | StopControl | OtherControl
datatype handler_result = NoError | NotImplemented

fun event_handler :: "service_control \<Rightarrow> bool \<Rightarrow> handler_result \<times> bool" where
  "event_handler Interrogate stop_seen = (NoError, stop_seen)"
| "event_handler StopControl stop_seen = (NoError, True)"
| "event_handler OtherControl stop_seen = (NotImplemented, stop_seen)"

text \<open>\<open>run_service\<close>: \<open>register\<close> gives the status handle of the registered handler, \<open>new_runtime\<close> builds the
  \<open>tokio\<close> runtime, \<open>serve\<close> is \<open>serve_with_shutdown\<close> until the handler has seen a stop.\<close>

definition service_body ::
  "(string \<Rightarrow> string option) \<Rightarrow> ('w \<Rightarrow> (io_error + unit) \<times> 'w) \<Rightarrow> (config \<Rightarrow> 'w \<Rightarrow> (server_error + unit) \<times> 'w)
     \<Rightarrow> (string \<Rightarrow> string) \<Rightarrow> 'w \<Rightarrow> (io_error + unit) \<times> 'w" where
  "service_body get new_runtime serve bad_path w =
     (case from_env get of
        Inl e \<Rightarrow> (Err (IoError KInvalidInput (show_config_error e)), w)
      | Inr cfg \<Rightarrow>
          io_bind (new_runtime w) (\<lambda>_ w.
          let (r, w) = serve cfg w in (map_err (\<lambda>e. io_other (show_server_error bad_path e)) r, w)))"

definition scm_service ::
  "('w \<Rightarrow> (string + (service_status \<Rightarrow> 'w \<Rightarrow> (string + unit) \<times> 'w)) \<times> 'w)
     \<Rightarrow> ('w \<Rightarrow> (io_error + unit) \<times> 'w) \<Rightarrow> 'w \<Rightarrow> (io_error + unit) \<times> 'w" where
  "scm_service register work w =
     (case register w of
        (Inl e, w) \<Rightarrow> (Err (io_other e), w)
      | (Inr H, w) \<Rightarrow> run_reporting (scm_reporter H) work w)"

text \<open>\<open>run\<close>: \<open>dispatcher\<close> runs the service main, whose error only goes to a standard error nobody sees.\<close>

definition service_main :: "('w \<Rightarrow> (io_error + unit) \<times> 'w) \<Rightarrow> 'w \<Rightarrow> 'w" where
  "service_main service w = snd (service w)"

definition win_run ::
  "(('w \<Rightarrow> 'w) \<Rightarrow> 'w \<Rightarrow> (string + unit) \<times> 'w) \<Rightarrow> ('w \<Rightarrow> (io_error + unit) \<times> 'w) \<Rightarrow> 'w
     \<Rightarrow> (io_error + unit) \<times> 'w" where
  "win_run dispatcher service w =
     (let (r, w) = dispatcher (service_main service) w in (map_err io_other r, w))"

section \<open>The reports\<close>

text \<open>A world that records every status set, where setting some of them fails.\<close>

definition recording_status ::
  "(service_status \<Rightarrow> bool) \<Rightarrow> service_status \<Rightarrow> service_status list \<times> 'x \<Rightarrow> (string + unit) \<times> service_status list \<times> 'x" where
  "recording_status fails s w = (if fails s then Err ''no status'' else Ok (), (fst w @ [s], snd w))"

text \<open>The body starts after exactly one more report, \<open>Running\<close>, and not at all when that failed; the last report is
  \<open>Stopped\<close> with the code of the result.\<close>

lemma reports_around_body:
  "scm_service (\<lambda>w. (Ok (recording_status fails), w)) work (log, x)
   = (let up = (log @ [scm_status Running True 0], x); (r, w) = work up
      in if fails (scm_status Running True 0) then (Err (io_other ''no status''), up)
         else (r, (fst w @ [scm_status Stopped False (if is_ok r then 0 else 1)], snd w)))"
  by (simp add: scm_service_def run_reporting_def scm_reporter_def recording_status_def Let_def split_beta)

section \<open>Properties\<close>

text \<open>C36. What the service control manager sees: \<open>Running\<close> is reported before the configuration is read or anything else
  is tried, and when that report fails nothing is run. After it, whatever fails (the configuration, the runtime, the
  service itself), the last report is \<open>Stopped\<close>, with code 0 only when the service ran and ended without an
  error, and the error is returned.\<close>

theorem scm_contract:
  "scm_service (\<lambda>w. (Ok (recording_status fails), w)) (service_body get new_runtime serve bad_path) (log, x)
   = (let up = (log @ [scm_status Running True 0], x);
          down = (\<lambda>code w. (fst w @ [scm_status Stopped False code], snd w))
      in if fails (scm_status Running True 0) then (Err (io_other ''no status''), up)
         else case from_env get of
             Inl e \<Rightarrow> (Err (IoError KInvalidInput (show_config_error e)), down 1 up)
           | Inr cfg \<Rightarrow> (case new_runtime up of
                 (Inl e, w) \<Rightarrow> (Err e, down 1 w)
               | (Inr u, w) \<Rightarrow> (case serve cfg w of
                     (Inl e, w) \<Rightarrow> (Err (io_other (show_server_error bad_path e)), down 1 w)
                   | (Inr u, w) \<Rightarrow> (Ok (), down 0 w))))"
proof (cases "from_env get")
  case (Inr cfg)
  obtain rt w where rt: "new_runtime (log @ [scm_status Running True 0], x) = (rt, w)" by (rule prod.exhaust)
  obtain r v where r: "serve cfg w = (r, v)" by (rule prod.exhaust)
  show ?thesis
    unfolding reports_around_body service_body_def Inr rt
    by (cases rt; cases r) (simp_all add: Inr rt r Let_def)
qed (simp add: reports_around_body service_body_def Let_def)

end
