(* ===== verification/ServerSpec.thy ===== *)
theory ServerSpec
  imports Server
begin

text \<open>
  What the service promises: DNS over TCP frames its replies with their length, the three loops of the service
  (gateway, DNS, \<open>dig.local\<close>) run until the one shutdown signal, and the runtime file describes the service while
  it runs.
\<close>

section \<open>Length-prefixed messages\<close>

definition frame :: "bytes \<Rightarrow> bytes" where
  "frame m = to_be16 (of_nat (length m)) @ m"

definition read_frame :: "bytes \<Rightarrow> (bytes \<times> bytes) option" where
  "read_frame inp =
     (if length inp < 2 then None
      else let n = unat (be16 (inp ! 0) (inp ! 1)); rest = drop 2 inp
           in if length rest < n then None else Some (take n rest, drop n rest))"

lemma be16_length: "n < 65536 \<Longrightarrow> unat (of_nat n :: u16) = n"
  by (simp add: unat_of_nat take_bit_nat_eq_self)

lemma read_frame_frame: "length m < 65536 \<Longrightarrow> read_frame (frame m @ rest) = Some (m, rest)"
  by (simp add: read_frame_def frame_def to_be16_def be16_to_be16 be16_length Let_def)

text \<open>What a TCP stream promises: reading consumes exactly what was asked or fails, writing appends.\<close>

locale byte_stream =
  fixes S :: "'w stream_ops" and unread :: "'w \<Rightarrow> bytes" and written :: "'w \<Rightarrow> bytes"
  assumes reads: "n \<le> length (unread w) \<Longrightarrow> \<exists>w'. read_exact S n w = (Ok (take n (unread w)), w')
      \<and> unread w' = drop n (unread w) \<and> written w' = written w"
    and read_short: "length (unread w) < n \<Longrightarrow> \<exists>e w'. read_exact S n w = (Err e, w') \<and> written w' = written w"
    and writes: "\<exists>w'. stream_write S bs w = (Ok (), w') \<and> unread w' = unread w \<and> written w' = written w @ bs"
    and flushes: "\<exists>w'. stream_flush S w = (Ok (), w') \<and> unread w' = unread w \<and> written w' = written w"
begin

lemma query_answered:
  assumes "read_frame (unread w) = Some (msg, rest)"
  shows "\<exists>w'. handle_dns_tcp S ip t ttl w = (Ok (), w') \<and> unread w' = rest
    \<and> written w' = written w @ (case respond msg ip t ttl Tcp of None \<Rightarrow> [] | Some r \<Rightarrow> frame r)"
proof -
  let ?b = "take 2 (unread w)"
  let ?n = "unat (be16 (?b ! 0) (?b ! 1))"
  from assms have two: "2 \<le> length (unread w)" and n: "?n \<le> length (drop 2 (unread w))"
    and msg: "msg = take ?n (drop 2 (unread w))" "rest = drop ?n (drop 2 (unread w))"
    by (auto simp: read_frame_def Let_def split: if_splits)
  from reads [OF two] obtain w1 where
    1: "read_exact S 2 w = (Ok ?b, w1)" "unread w1 = drop 2 (unread w)" "written w1 = written w" by blast
  from reads [of ?n w1] n 1 msg obtain w2 where
    2: "read_exact S ?n w1 = (Ok msg, w2)" "unread w2 = rest" "written w2 = written w" by auto
  show ?thesis
  proof (cases "respond msg ip t ttl Tcp")
    case None
    with 1 2 show ?thesis by (simp add: handle_dns_tcp_def)
  next
    case (Some r)
    let ?l = "to_be16 (of_nat (length r))"
    from writes [of ?l w2] obtain w3 where
      3: "stream_write S ?l w2 = (Ok (), w3)" "unread w3 = rest" "written w3 = written w @ ?l" using 2 by auto
    from writes [of r w3] obtain w4 where
      4: "stream_write S r w3 = (Ok (), w4)" "unread w4 = rest" "written w4 = written w @ frame r"
      using 3 by (auto simp: frame_def)
    from flushes [of w4] 1 2 3 4 Some show ?thesis by (auto simp: handle_dns_tcp_def)
  qed
qed

lemma query_incomplete:
  assumes "read_frame (unread w) = None"
  shows "\<exists>e w'. handle_dns_tcp S ip t ttl w = (Err e, w') \<and> written w' = written w"
proof (cases "length (unread w) < 2")
  case True
  from read_short [OF this] show ?thesis by (auto simp: handle_dns_tcp_def)
next
  case False
  let ?b = "take 2 (unread w)"
  let ?n = "unat (be16 (?b ! 0) (?b ! 1))"
  from False reads [of 2 w] obtain w1 where
    1: "read_exact S 2 w = (Ok ?b, w1)" "unread w1 = drop 2 (unread w)" "written w1 = written w" by auto
  with assms False read_short [of w1 ?n] show ?thesis
    by (auto simp: handle_dns_tcp_def read_frame_def Let_def split: if_splits)
qed

end

interpretation piped: byte_stream pipe fst snd
  by unfold_locales (auto simp: pipe_def)

text \<open>A reply is at most 27 bytes longer than the message: an answer and an \<open>OPT\<close> record.\<close>

lemma reply_length:
  assumes "respond msg ip t ttl tr = Some r"
  shows "length r \<le> length msg + 27"
  using assms
proof (cases rule: respond_cases)
  case (reply q)
  from parse_query_fields [OF reply(2,1)] obtain rest where
    two: "length (q_id q) = 2" and rest: "drop 12 msg = raw_question q @ rest"
    using reply(1) by fastforce
  have "length (raw_question q) + 12 \<le> length msg"
    using arg_cong [OF rest, of length] reply(1) by simp
  moreover have "length r = 12 + length (raw_question q) + length (answer_bytes q ip t ttl tr)
      + length (if edns_udp_size q = None then [] else write_opt)"
    using build_fields(7,8) [OF two, of ip t ttl tr] arg_cong [of _ _ length] reply(3)
    by (metis (no_types, opaque_lifting) add.assoc append_take_drop_id length_append length_take min.absorb2)
  ultimately show ?thesis
    by (auto simp: answer_bytes_def split: if_splits)
next
  case formerr
  then show ?thesis using formerr_fields(3) [of msg] by simp
qed

section \<open>The running service\<close>

text \<open>What \<open>serve_with_shutdown\<close> spawns: the shared flag, the gateway loop, the DNS loop when its sockets were
  bound, and the \<open>dig.local\<close> task.\<close>

record ('c, 'p) service =
  flag :: bool
  gateway :: "'c accept_loop"
  dns :: "('c, 'p) dns_loop option"
  dig_local :: ensure_phase

definition service_start :: "bool \<Rightarrow> ('c, 'p) service" where
  "service_start active =
     \<lparr>flag = False, gateway = \<lparr>running = True, spawned = []\<rparr>,
      dns = (if active then Some \<lparr>dns_running = True, dns_spawned = [], sent = []\<rparr> else None),
      dig_local = Attempting\<rparr>"

inductive service_step ::
  "ipv4 \<Rightarrow> string \<Rightarrow> u32 \<Rightarrow> ('c, 'p) service \<Rightarrow> ('c, 'p) service \<Rightarrow> bool" for ip t ttl where
  signal: "service_step ip t ttl s (s\<lparr>flag := True\<rparr>)"
| gateway: "serve_on_step (flag s) (gateway s) g \<Longrightarrow> service_step ip t ttl s (s\<lparr>gateway := g\<rparr>)"
| dns: "dns s = Some d \<Longrightarrow> serve_dns_step ip t ttl (flag s) d d'
    \<Longrightarrow> service_step ip t ttl s (s\<lparr>dns := Some d'\<rparr>)"
| dig_local: "ensure_step (flag s) (dig_local s) e \<Longrightarrow> service_step ip t ttl s (s\<lparr>dig_local := e\<rparr>)"

inductive service_reaches ::
  "ipv4 \<Rightarrow> string \<Rightarrow> u32 \<Rightarrow> ('c, 'p) service \<Rightarrow> ('c, 'p) service \<Rightarrow> bool" for ip t ttl where
  start: "service_reaches ip t ttl s s"
| step: "service_reaches ip t ttl s s' \<Longrightarrow> service_step ip t ttl s' s'' \<Longrightarrow> service_reaches ip t ttl s s''"

definition all_stopped :: "('c, 'p) service \<Rightarrow> bool" where
  "all_stopped s \<longleftrightarrow> \<not> running (gateway s) \<and> pred_option (\<lambda>d. \<not> dns_running d) (dns s) \<and> dig_local s = Finished"

text \<open>The invariant: a loop has ended only after the signal, and every reply sent is the responder's.\<close>

definition replies_ok :: "ipv4 \<Rightarrow> string \<Rightarrow> u32 \<Rightarrow> ('c, 'p) dns_loop \<Rightarrow> bool" where
  "replies_ok ip t ttl d \<longleftrightarrow>
     list_all (\<lambda>(peer, msg, resp). respond (take 4096 msg) ip t ttl Udp = Some resp) (sent d)"

definition service_ok :: "ipv4 \<Rightarrow> string \<Rightarrow> u32 \<Rightarrow> bool \<Rightarrow> ('c, 'p) service \<Rightarrow> bool" where
  "service_ok ip t ttl active s \<longleftrightarrow>
     (flag s \<or> running (gateway s) \<and> pred_option dns_running (dns s))
   \<and> (dns s \<noteq> None \<longleftrightarrow> active) \<and> pred_option (replies_ok ip t ttl) (dns s)"

lemma service_ok_step:
  "service_step ip t ttl s s' \<Longrightarrow> service_ok ip t ttl active s \<Longrightarrow> service_ok ip t ttl active s'"
  by (induction rule: service_step.induct)
     (auto simp: service_ok_def replies_ok_def UDP_BUFFER_def elim!: serve_on_stepE serve_dns_stepE)

lemma service_ok_reaches:
  "service_reaches ip t ttl (service_start active) s \<Longrightarrow> service_ok ip t ttl active s"
  by (induction "service_start active :: ('a, 'b) service" s rule: service_reaches.induct)
     (auto simp: service_ok_def service_start_def replies_ok_def dest: service_ok_step [unfolded service_ok_def])

text \<open>A loop picks, in each of its rounds, one of the arms of its \<open>select!\<close> that are ready; the arm of the shutdown is
  one that can end the loop. The picks are fair when that arm is not passed over for ever: if it is ready in
  infinitely many rounds, one of these takes it. \<open>waits\<close> says that the loop is at such a \<open>select!\<close>.\<close>

definition picks_fairly ::
  "(bool \<Rightarrow> 's \<Rightarrow> 's \<Rightarrow> bool) \<Rightarrow> ('s \<Rightarrow> bool) \<Rightarrow> ('s \<Rightarrow> bool) \<Rightarrow> (nat \<Rightarrow> bool) \<Rightarrow> (nat \<Rightarrow> 's) \<Rightarrow> bool" where
  "picks_fairly step active waits fl x \<longleftrightarrow>
     (\<forall>k. \<exists>n\<ge>k. waits (x n) \<and> (\<exists>s'. step (fl n) (x n) s' \<and> \<not> active s'))
       \<longrightarrow> (\<exists>n. waits (x n) \<and> \<not> active (x (Suc n)))"

text \<open>The contract of the loops: one that has ended stays ended, and one that waits with the flag up can end. A
  serving loop does not end before.\<close>

locale flagged_loop =
  fixes step :: "bool \<Rightarrow> 's \<Rightarrow> 's \<Rightarrow> bool" and active :: "'s \<Rightarrow> bool" and waits :: "'s \<Rightarrow> bool"
  assumes stays_ended: "step fl s s' \<Longrightarrow> \<not> active s \<Longrightarrow> \<not> active s'"
    and can_end: "waits s \<Longrightarrow> \<exists>s'. step True s s' \<and> \<not> active s'"
begin

lemma ended_for_good:
  assumes "\<And>n. x (Suc n) = x n \<or> step (fl n) (x n) (x (Suc n))" "\<not> active (x m)"
  shows "\<forall>k\<ge>m. \<not> active (x k)"
proof (intro allI impI)
  fix k show "m \<le> k \<Longrightarrow> \<not> active (x k)"
    by (induction k rule: dec_induct) (use assms stays_ended in metis)+
qed

text \<open>Fair picks and a flag that stays up end every loop that comes back to its \<open>select!\<close> again and again.\<close>

lemma fair_loop_ends:
  assumes run: "\<And>n. x (Suc n) = x n \<or> step (fl n) (x n) (x (Suc n))"
    and fair: "picks_fairly step active waits fl x" and up: "\<forall>n\<ge>m. fl n"
    and returns: "\<forall>k. \<exists>n\<ge>k. active (x n) \<longrightarrow> waits (x n)"
  shows "\<exists>m. \<forall>k\<ge>m. \<not> active (x k)"
proof (cases "\<exists>n. \<not> active (x n)")
  case True
  with ended_for_good [of x fl, OF run] show ?thesis by blast
next
  case False
  have "\<exists>n\<ge>k. waits (x n) \<and> (\<exists>s'. step (fl n) (x n) s' \<and> \<not> active s')" for k
  proof -
    from returns obtain n where "max k m \<le> n" "waits (x n)" using False by blast
    with up can_end show ?thesis by (metis max.bounded_iff)
  qed
  with fair False show ?thesis by (auto simp: picks_fairly_def)
qed

end

locale serving_loop = flagged_loop +
  assumes serves: "step False s s' \<Longrightarrow> active s \<Longrightarrow> active s'"
begin

lemma serves_until_flag: "(step False)\<^sup>*\<^sup>* s s' \<Longrightarrow> active s \<Longrightarrow> active s'"
  by (induction rule: rtranclp_induct) (auto dest: serves)

end

interpretation http_loop: serving_loop serve_on_step running running
proof unfold_locales
  show "\<exists>s'. serve_on_step True s s' \<and> \<not> running s'" if "running s" for s :: "'a accept_loop"
    using serve_on_step.stop_loop [of True s] that by (intro exI [of _ "s\<lparr>running := False\<rparr>"]) simp
qed (auto elim!: serve_on_stepE)

interpretation dns_loop: serving_loop "serve_dns_step ip t ttl" dns_running dns_running
proof unfold_locales
  show "\<exists>s'. serve_dns_step ip t ttl True s s' \<and> \<not> dns_running s'" if "dns_running s" for s :: "('a, 'b) dns_loop"
    using serve_dns_step.stop_dns [of True s] that by (intro exI [of _ "s\<lparr>dns_running := False\<rparr>"]) simp
qed (auto elim!: serve_dns_stepE)

text \<open>The \<open>dig.local\<close> task waits while it serves the mapping and between two attempts.\<close>

definition ensure_waits :: "ensure_phase \<Rightarrow> bool" where
  "ensure_waits e \<longleftrightarrow> e = Serving \<or> e = Waiting"

interpretation ensure_loop: flagged_loop ensure_step "\<lambda>e. e \<noteq> Finished" ensure_waits
  by unfold_locales (auto simp: ensure_waits_def elim: ensure_stepE intro: ensure_step.intros)

text \<open>A run of the service: in each moment one of its parts makes a step or nothing happens. It is fair when each of
  its \<open>select!\<close>s is, and no attempt to map \<open>dig.local\<close> lasts for ever (each of its calls has a timeout).\<close>

definition service_run :: "ipv4 \<Rightarrow> string \<Rightarrow> u32 \<Rightarrow> (nat \<Rightarrow> ('c, 'p) service) \<Rightarrow> bool" where
  "service_run ip t ttl \<sigma> \<longleftrightarrow> (\<forall>n. \<sigma> (Suc n) = \<sigma> n \<or> service_step ip t ttl (\<sigma> n) (\<sigma> (Suc n)))"

definition fair_run :: "ipv4 \<Rightarrow> string \<Rightarrow> u32 \<Rightarrow> (nat \<Rightarrow> ('c, 'p) service) \<Rightarrow> bool" where
  "fair_run ip t ttl \<sigma> \<longleftrightarrow>
     picks_fairly serve_on_step running running (\<lambda>n. flag (\<sigma> n)) (\<lambda>n. gateway (\<sigma> n))
   \<and> (dns (\<sigma> 0) \<noteq> None
        \<longrightarrow> picks_fairly (serve_dns_step ip t ttl) dns_running dns_running (\<lambda>n. flag (\<sigma> n)) (\<lambda>n. the (dns (\<sigma> n))))
   \<and> picks_fairly ensure_step (\<lambda>e. e \<noteq> Finished) ensure_waits (\<lambda>n. flag (\<sigma> n)) (\<lambda>n. dig_local (\<sigma> n))
   \<and> (\<forall>k. \<exists>n\<ge>k. dig_local (\<sigma> n) \<noteq> Attempting)"

text \<open>The run of each part.\<close>

lemma service_step_parts:
  assumes "service_step ip t ttl s s'"
  shows "flag s \<Longrightarrow> flag s'" "gateway s' = gateway s \<or> serve_on_step (flag s) (gateway s) (gateway s')"
    "dns s' = None \<longleftrightarrow> dns s = None"
    "dns s \<noteq> None \<Longrightarrow> the (dns s') = the (dns s) \<or> serve_dns_step ip t ttl (flag s) (the (dns s)) (the (dns s'))"
    "dig_local s' = dig_local s \<or> ensure_step (flag s) (dig_local s) (dig_local s')"
  using assms by (cases; simp)+

lemma run_parts:
  assumes "service_run ip t ttl \<sigma>"
  shows "flag (\<sigma> n) \<Longrightarrow> flag (\<sigma> (Suc n))"
    "gateway (\<sigma> (Suc n)) = gateway (\<sigma> n) \<or> serve_on_step (flag (\<sigma> n)) (gateway (\<sigma> n)) (gateway (\<sigma> (Suc n)))"
    "dns (\<sigma> (Suc n)) = None \<longleftrightarrow> dns (\<sigma> n) = None"
    "dns (\<sigma> n) \<noteq> None \<Longrightarrow> the (dns (\<sigma> (Suc n))) = the (dns (\<sigma> n))
       \<or> serve_dns_step ip t ttl (flag (\<sigma> n)) (the (dns (\<sigma> n))) (the (dns (\<sigma> (Suc n))))"
    "dig_local (\<sigma> (Suc n)) = dig_local (\<sigma> n) \<or> ensure_step (flag (\<sigma> n)) (dig_local (\<sigma> n)) (dig_local (\<sigma> (Suc n)))"
  using assms [unfolded service_run_def, rule_format, of n] by (auto dest: service_step_parts)

lemma run_flag:
  assumes "service_run ip t ttl \<sigma>" "flag (\<sigma> m)"
  shows "\<forall>n\<ge>m. flag (\<sigma> n)"
proof (intro allI impI)
  fix n show "m \<le> n \<Longrightarrow> flag (\<sigma> n)"
    by (induction n rule: dec_induct) (use assms run_parts(1) in blast)+
qed

lemma run_dns:
  assumes "service_run ip t ttl \<sigma>"
  shows "dns (\<sigma> n) = None \<longleftrightarrow> dns (\<sigma> 0) = None"
  by (induction n) (simp_all add: run_parts(3) [OF assms])

lemma run_reaches:
  assumes "service_run ip t ttl \<sigma>"
  shows "service_reaches ip t ttl (\<sigma> 0) (\<sigma> n)"
proof (induction n)
  case (Suc n)
  with assms [unfolded service_run_def, rule_format, of n] show ?case
    by (auto intro: service_reaches.step)
qed (rule service_reaches.start)

text \<open>The three parts of a fair run end, one after the other by the same argument.\<close>

lemma fair_run_ends:
  assumes run: "service_run ip t ttl \<sigma>" and fair: "fair_run ip t ttl \<sigma>" and up: "flag (\<sigma> m)"
  shows "\<exists>m. \<forall>k\<ge>m. all_stopped (\<sigma> k)"
proof -
  note up = run_flag [OF run up]
  have always: "Ex ((\<le>) k)" for k :: nat by auto
  obtain a where a: "\<forall>k\<ge>a. \<not> running (gateway (\<sigma> k))"
    using http_loop.fair_loop_ends [of "\<lambda>n. gateway (\<sigma> n)" "\<lambda>n. flag (\<sigma> n)" m] run_parts(2) [OF run] fair up
    by (auto simp: fair_run_def always)
  obtain b where b: "\<forall>k\<ge>b. pred_option (\<lambda>d. \<not> dns_running d) (dns (\<sigma> k))"
  proof (cases "dns (\<sigma> 0) = None")
    case True
    with run_dns [OF run] that show ?thesis by (metis option.pred_inject(1))
  next
    case False
    then obtain b where "\<forall>k\<ge>b. \<not> dns_running (the (dns (\<sigma> k)))"
      using dns_loop.fair_loop_ends [of "\<lambda>n. the (dns (\<sigma> n))" ip t ttl "\<lambda>n. flag (\<sigma> n)" m]
        run_parts(4) [OF run] run_dns [OF run] fair up
      by (auto simp: fair_run_def always)
    then have "\<forall>k\<ge>b. pred_option (\<lambda>d. \<not> dns_running d) (dns (\<sigma> k))"
      by (metis option.pred_inject(1) option.pred_inject(2) option.exhaust_sel)
    with that show ?thesis by blast
  qed
  have "\<forall>k. \<exists>n\<ge>k. dig_local (\<sigma> n) \<noteq> Finished \<longrightarrow> ensure_waits (dig_local (\<sigma> n))"
  proof (rule allI)
    fix k
    from fair obtain n where "k \<le> n" "dig_local (\<sigma> n) \<noteq> Attempting" unfolding fair_run_def by blast
    then show "\<exists>n\<ge>k. dig_local (\<sigma> n) \<noteq> Finished \<longrightarrow> ensure_waits (dig_local (\<sigma> n))"
      by (cases "dig_local (\<sigma> n)") (auto simp: ensure_waits_def)
  qed
  then obtain c where c: "\<forall>k\<ge>c. dig_local (\<sigma> k) = Finished"
    using ensure_loop.fair_loop_ends [of "\<lambda>n. dig_local (\<sigma> n)" "\<lambda>n. flag (\<sigma> n)" m] run_parts(5) [OF run] fair up
    by (auto simp: fair_run_def)
  have "\<forall>k\<ge>max a (max b c). all_stopped (\<sigma> k)"
    using a b c by (simp add: all_stopped_def)
  then show ?thesis by blast
qed

lemma all_stopped_step: "service_step ip t ttl s s' \<Longrightarrow> all_stopped s \<Longrightarrow> all_stopped s'"
  by (induction rule: service_step.induct)
     (auto simp: all_stopped_def dest: http_loop.stays_ended dns_loop.stays_ended ensure_loop.stays_ended)

section \<open>The runtime file of a running service\<close>

text \<open>A service that started, over what it resolved and bound: the client, the listener and the DNS sockets.\<close>

definition start_info :: "u32 \<Rightarrow> config \<Rightarrow> u16 \<Rightarrow> bool \<Rightarrow> runtime_info" where
  "start_info process cfg port active =
     \<lparr>pid = process, rt_loopback_ip = show_ipv4 (loopback_ip cfg), rt_http_port = port, rt_dns_active = active\<rparr>"

lemma serve_with_shutdown_cases:
  assumes "serve_with_shutdown J TJ b64 mkr mkc np N dir process tasks cfg h = (r, h')"
  shows "(case r of
      Err e \<Rightarrow> disk h' = disk h
    | Ok _ \<Rightarrow> \<exists>http base m l port fb m' dnsr h1.
        bind_listener N (loopback_ip cfg, http_port cfg) (loopback_ip cfg, http_fallback_port cfg) m
          = (Ok (l, port, fb), m')
      \<and> dnsr = fst (bind_dns N (loopback_ip cfg) (dns_port cfg) m')
      \<and> disk h1 = snd (write_runtime_to J TJ dir (start_info process cfg port (is_ok dnsr)) (disk h))
      \<and> (let h2 = tasks (reqwest_node_client J b64 http base)
           \<lparr>config = cfg, bound_port = port, dns_active = is_ok dnsr, uptime_secs = 0\<rparr> l dnsr h1
         in h' = h2\<lparr>disk := remove_runtime dir (disk h2)\<rparr>))"
proof -
  obtain r1 h1 where e1: "on_procs (resolve mkr mkc np cfg) h = (r1, h1)" by fastforce
  obtain r2 h2 where e2: "on_procs (bind_listener N (loopback_ip cfg, http_port cfg)
      (loopback_ip cfg, http_fallback_port cfg)) h1 = (r2, h2)" by fastforce
  obtain r3 h3 where e3: "on_procs (bind_dns N (loopback_ip cfg) (dns_port cfg)) h2 = (r3, h3)" by fastforce
  note d = disk_on_procs [OF e1] disk_on_procs [OF e2] disk_on_procs [OF e3]
  show ?thesis
  proof (cases r1)
    case (Inl e)
    with assms d e1 show ?thesis by (auto simp: serve_with_shutdown_def)
  next
    case (Inr hb)
    obtain http base where hb: "hb = (http, base)" by (cases hb)
    show ?thesis
    proof (cases r2)
      case (Inl e)
      with assms d e1 e2 Inr hb show ?thesis by (auto simp: serve_with_shutdown_def)
    next
      case r2: (Inr lp)
      obtain l port fb where lp: "lp = (l, port, fb)" by (cases lp)
      obtain m' where b: "bind_listener N (loopback_ip cfg, http_port cfg)
          (loopback_ip cfg, http_fallback_port cfg) (procs h1) = (Ok (l, port, fb), m')" "m' = procs h2"
        using e2 r2 lp by (auto simp: on_procs_def split: prod.splits)
      have dns: "r3 = fst (bind_dns N (loopback_ip cfg) (dns_port cfg) m')"
        using e3 b(2) by (auto simp: on_procs_def split: prod.splits)
      let ?g = "guard_record J TJ dir (start_info process cfg port (is_ok r3))"
      have g: "on_disk ?g h3 = (\<lparr>guard_dir = dir\<rparr>, h3\<lparr>disk := snd (write_runtime_to J TJ dir
          (start_info process cfg port (is_ok r3)) (disk h))\<rparr>)"
        using d by (simp add: on_disk_def guard_record_def)
      let ?h4 = "snd (on_disk ?g h3)"
      let ?h5 = "tasks (reqwest_node_client J b64 http base)
           \<lparr>config = cfg, bound_port = port, dns_active = is_ok r3, uptime_secs = 0\<rparr> l r3 ?h4"
      have "r = Ok ()" "h' = ?h5\<lparr>disk := remove_runtime dir (disk ?h5)\<rparr>"
        using assms
        by (simp_all add: serve_with_shutdown_def e1 e2 e3 Inr hb r2 lp g [unfolded start_info_def] start_info_def
            guard_drop_def remove_runtime_def Let_def)
      moreover have "disk ?h4 = snd (write_runtime_to J TJ dir (start_info process cfg port (is_ok r3)) (disk h))"
        by (simp add: g)
      ultimately show ?thesis using b(1) dns by (simp only: Let_def sum.case) blast
    qed
  qed
qed

section \<open>Properties\<close>

text \<open>C32. The service tells the truth about itself: when it could write its runtime file, what the command line
  reads while the tasks run is its process, its address, the port the gateway is really bound to (the fallback if
  the first was taken) and whether DNS is active, the same values the health endpoint gets; the file is removed at
  the end; and a service that could not resolve its node or bind its gateway has touched no file.\<close>

theorem serving_is_recorded:
  assumes "json_values J" "\<And>v s. to_string_pretty TJ v = Some s \<Longrightarrow> from_slice TJ s = Some v"
    and "serve_with_shutdown J TJ b64 mkr mkc np N dir process tasks cfg h = (r, h')"
  shows "case r of
      Err e \<Rightarrow> disk h' = disk h
    | Ok _ \<Rightarrow> \<exists>client c l fb m m' dnsr h1.
        bind_listener N (loopback_ip cfg, http_port cfg) (loopback_ip cfg, http_fallback_port cfg) m
          = (Ok (l, bound_port c, fb), m')
      \<and> dnsr = fst (bind_dns N (loopback_ip cfg) (dns_port cfg) m')
      \<and> config c = cfg \<and> dns_active c = is_ok dnsr
      \<and> (let info = start_info process cfg (bound_port c) (dns_active c)
         in disk h1 = snd (write_runtime_to J TJ dir info (disk h))
          \<and> (is_ok (fst (write_runtime_to J TJ dir info (disk h)))
               \<longrightarrow> read_runtime_from J TJ dir (disk h1) = Some info))
      \<and> (let h2 = tasks client c l dnsr h1 in h' = h2\<lparr>disk := remove_runtime dir (disk h2)\<rparr>)"
proof (cases r)
  case (Inl e)
  then show ?thesis using serve_with_shutdown_cases [OF assms(3)] by simp
next
  case (Inr u)
  from serve_with_shutdown_cases [OF assms(3)] obtain http base m l port fb m' dnsr h1 where
    b: "bind_listener N (loopback_ip cfg, http_port cfg) (loopback_ip cfg, http_fallback_port cfg) m
          = (Ok (l, port, fb), m')"
    and n: "dnsr = fst (bind_dns N (loopback_ip cfg) (dns_port cfg) m')"
    and w: "disk h1 = snd (write_runtime_to J TJ dir (start_info process cfg port (is_ok dnsr)) (disk h))"
    and t: "let h2 = tasks (reqwest_node_client J b64 http base)
           \<lparr>config = cfg, bound_port = port, dns_active = is_ok dnsr, uptime_secs = 0\<rparr> l dnsr h1
         in h' = h2\<lparr>disk := remove_runtime dir (disk h2)\<rparr>"
    by (simp add: Inr) blast
  have "is_ok (fst (write_runtime_to J TJ dir (start_info process cfg port (is_ok dnsr)) (disk h)))
      \<Longrightarrow> read_runtime_from J TJ dir (disk h1) = Some (start_info process cfg port (is_ok dnsr))"
    by (rule recorded_read [OF assms(1,2)]) (simp_all add: w)
  with b n w t show ?thesis
    unfolding Inr sum.case
    apply (rule_tac x = "reqwest_node_client J b64 http base" in exI)
    apply (rule_tac x = "\<lparr>config = cfg, bound_port = port, dns_active = is_ok dnsr, uptime_secs = 0\<rparr>" in exI)
    apply (rule exI [of _ l], rule exI [of _ fb], rule exI [of _ m], rule exI [of _ m'], rule exI [of _ dnsr],
        rule exI [of _ h1])
    apply (simp add: Let_def)
    done
qed

text \<open>Port 80 is taken and 8053 is free.\<close>

definition busy_net :: "(nat, nat, unit) net_ops" where
  "busy_net = \<lparr>bind_tcp = (\<lambda>(ip, p) w. (if p = 80 then Err (IoError KOther ''in use'') else Ok (unat p), w)),
     local_port = (\<lambda>l. Some (of_nat l)), bind_udp = (\<lambda>(ip, p) w. (Ok 0, w))\<rparr>"

definition busy_run :: "(server_error + unit) \<times> unit host" where
  "busy_run = serve_with_shutdown json_tree demo_text rfc_hex_decode (Ok ()) (\<lambda>_. Ok demo_http) 9778 busy_net [''var'']
     4711 (\<lambda>client c l d h. h) default_config \<lparr>disk = state_root, procs = ()\<rparr>"

theorem serving_is_recorded_witness:
  "disk (snd busy_run) = remove_runtime [''var''] (snd (write_runtime_to json_tree demo_text [''var''] demo_info state_root))
   \<and> read_runtime_from json_tree demo_text [''var'']
     (snd (write_runtime_to json_tree demo_text [''var''] demo_info state_root)) = Some demo_info"
proof -
  have run: "busy_run = (fst busy_run, snd busy_run)" by simp
  have 1: "fst busy_run = Ok ()"
    by (simp add: busy_run_def serve_with_shutdown_def on_procs_def resolve_def build_http_client_def
        with_secure_upstream_def default_config_def candidate_bases_def demo_http_def busy_net_def bind_listener_def
        bind_dns_def Let_def probe_def split_beta)
  have 2: "is_ok (fst (write_runtime_to json_tree demo_text [''var''] demo_info state_root))"
    by (simp add: write_runtime_to_def create_dir_all_def create_dir_def faulty_def state_root_def
        resolve_path_def lookup_def put_entry_def write_file_def open_truncate_def runtime_path_def
        write_all_def demo_text_def numeral_2_eq_2 RUNTIME_FILE_def)
  have 3: "start_info 4711 default_config 8053 True = demo_info" by code_simp
  have tx: "from_slice demo_text s = Some v" if "to_string_pretty demo_text v = Some s" for v s
    using that by (simp add: demo_text_def split: if_splits)
  have bind: "port = 8053 \<and> is_ok (fst (bind_dns busy_net ip (dns_port default_config) m'))"
    if "bind_listener busy_net (loopback_ip default_config, http_port default_config)
      (loopback_ip default_config, http_fallback_port default_config) m = (Ok (l, port, fb), m')"
    for m l port fb m' ip
    using that by (auto simp: bind_listener_def bind_dns_def busy_net_def default_config_def)
  show ?thesis
    using serving_is_recorded [OF tree.json_values_axioms tx run [unfolded busy_run_def]] 1 2
    unfolding busy_run_def [symmetric] by (auto simp: Let_def 3 dest!: bind)
qed

text \<open>C33. A client that sends a query in a frame gets one frame back, which holds exactly the responder's reply, and
  nothing else of the connection is consumed; a connection that closes inside a frame is an error and gets nothing.
  The bound is the one under which a reply fits the 16-bit length (a reply adds at most 27 bytes).\<close>

theorem dns_tcp_framing:
  assumes "length msg \<le> 65508"
  shows "(\<exists>out. handle_dns_tcp pipe ip t ttl (frame msg @ rest, []) = (Ok (), (rest, out))
      \<and> (case respond msg ip t ttl Tcp of None \<Rightarrow> out = [] | Some r \<Rightarrow> read_frame out = Some (r, [])))
    \<and> (\<forall>inp out. read_frame inp = None
        \<longrightarrow> (\<exists>e rest. handle_dns_tcp pipe ip t ttl (inp, out) = (Err e, (rest, out))))"
proof -
  have "read_frame (fst (frame msg @ rest, [] :: bytes)) = Some (msg, rest)"
    using read_frame_frame [of msg rest] assms by simp
  note ok = piped.query_answered [OF this, of ip t ttl]
  have "read_frame (frame r) = Some (r, [])" if "respond msg ip t ttl Tcp = Some r" for r
    using read_frame_frame [of r "[]"] reply_length [OF that] assms by simp
  moreover have "\<exists>e rest. handle_dns_tcp pipe ip t ttl (inp, out) = (Err e, (rest, out))"
    if "read_frame inp = None" for inp out
    using piped.query_incomplete [of "(inp, out)" ip t ttl] that by auto
  ultimately show ?thesis
    using ok by (auto split: option.splits)
qed

theorem dns_tcp_framing_witness:
  "\<exists>out. handle_dns_tcp pipe (Ipv4Addr 127 0 0 5) ''dig'' 2 (frame (build_a_query ''a.dig''), []) = (Ok (), ([], out))
     \<and> (case respond (build_a_query ''a.dig'') (Ipv4Addr 127 0 0 5) ''dig'' 2 Tcp of None \<Rightarrow> out = []
        | Some r \<Rightarrow> read_frame out = Some (r, []))"
proof -
  have "length (build_a_query ''a.dig'') \<le> 65508"
    by (simp add: build_a_query_def Let_def str_eval)
  from conjunct1 [OF dns_tcp_framing [OF this, of "Ipv4Addr 127 0 0 5" "''dig''" 2 "[]"]] show ?thesis
    unfolding append_Nil2 .
qed

text \<open>C34. The service ends when it is told to, and not before. In every run: until the shutdown signal no loop has
  ended, whatever a peer does and whichever calls fail; every datagram sent is the responder's answer to the first
  4096 bytes of the datagram it answers, with its id; without DNS sockets there is no DNS loop. And after one
  signal, at whatever moment it comes, the gateway, the DNS responder and the \<open>dig.local\<close> task all end, wherever they
  are (the task may be between two attempts, or in the middle of one that then fails, or serving the mapping), and
  from some moment on nothing runs any more. The assumption is fairness: a \<open>select!\<close> does not pass over its ready
  shutdown arm for ever, and an attempt to map \<open>dig.local\<close> ends.\<close>

theorem service_lifetime:
  assumes "service_run ip t ttl \<sigma>" "\<sigma> 0 = service_start active"
  shows "(\<forall>n. (flag (\<sigma> n) \<or> running (gateway (\<sigma> n)) \<and> pred_option dns_running (dns (\<sigma> n)))
        \<and> (dns (\<sigma> n) = None \<longleftrightarrow> \<not> active)
        \<and> (\<forall>d. dns (\<sigma> n) = Some d \<longrightarrow> (\<forall>(peer, msg, resp) \<in> set (sent d).
             respond (take 4096 msg) ip t ttl Udp = Some resp \<and> take 2 resp = take 2 msg)))
    \<and> (fair_run ip t ttl \<sigma> \<and> (\<exists>n. flag (\<sigma> n)) \<longrightarrow> (\<exists>m. \<forall>k\<ge>m. all_stopped (\<sigma> k)))"
proof -
  have ok: "service_ok ip t ttl active (\<sigma> n)" for n
    using run_reaches [OF assms(1), of n] service_ok_reaches by (simp add: assms(2))
  have "take 2 resp = take 2 msg" if "respond (take 4096 msg) ip t ttl Udp = Some resp" for msg resp
    using dns_reply_header [of "take 4096 msg" ip t ttl Udp] that by (simp add: Let_def min_def)
  then have "(flag (\<sigma> n) \<or> running (gateway (\<sigma> n)) \<and> pred_option dns_running (dns (\<sigma> n)))
      \<and> (dns (\<sigma> n) = None \<longleftrightarrow> \<not> active)
      \<and> (\<forall>d. dns (\<sigma> n) = Some d \<longrightarrow> (\<forall>(peer, msg, resp) \<in> set (sent d).
           respond (take 4096 msg) ip t ttl Udp = Some resp \<and> take 2 resp = take 2 msg))" for n
    using ok [of n] by (fastforce simp: service_ok_def replies_ok_def list_all_iff)
  with fair_run_ends [OF assms(1)] show ?thesis by blast
qed

text \<open>A run in which the signal finds the \<open>dig.local\<close> task between two attempts, the second of which fails too.\<close>

definition stopping_run :: "nat \<Rightarrow> (nat, nat) service" where
  "stopping_run n = \<lparr>flag = (2 \<le> n), gateway = \<lparr>running = (n < 5), spawned = []\<rparr>,
     dns = Some \<lparr>dns_running = (n < 6), dns_spawned = [], sent = []\<rparr>,
     dig_local = (if n = 0 \<or> n = 3 then Attempting else if n < 7 then Waiting else Finished)\<rparr>"

lemma stopping_run: "service_run ip t ttl stopping_run" "fair_run ip t ttl stopping_run"
proof -
  have "stopping_run (Suc n) = stopping_run n \<or> service_step ip t ttl (stopping_run n) (stopping_run (Suc n))" for n
  proof -
    consider "n = 0" | "n = 1" | "n = 2" | "n = 3" | "n = 4" | "n = 5" | "n = 6" | "7 \<le> n" by linarith
    then show ?thesis
    proof cases
      case 1
      have "ensure_step (flag (stopping_run 0)) (dig_local (stopping_run 0)) Waiting"
        using ensure_step.attempt [of False "Unavailable []"] by (simp add: stopping_run_def)
      from service_step.dig_local [OF this, of ip t ttl] 1 show ?thesis by (simp add: stopping_run_def)
    next
      case 2
      then show ?thesis using service_step.signal [of ip t ttl "stopping_run 1"] by (simp add: stopping_run_def)
    next
      case 3
      have "ensure_step (flag (stopping_run 2)) (dig_local (stopping_run 2)) Attempting"
        by (simp add: stopping_run_def ensure_step.intros)
      from service_step.dig_local [OF this, of ip t ttl] 3 show ?thesis by (simp add: stopping_run_def)
    next
      case 4
      have "ensure_step (flag (stopping_run 3)) (dig_local (stopping_run 3)) Waiting"
        using ensure_step.attempt [of True "Unavailable []"] by (simp add: stopping_run_def)
      from service_step.dig_local [OF this, of ip t ttl] 4 show ?thesis by (simp add: stopping_run_def)
    next
      case 5
      have "serve_on_step (flag (stopping_run 4)) (gateway (stopping_run 4)) (gateway (stopping_run 4)\<lparr>running := False\<rparr>)"
        by (rule serve_on_step.stop_loop) (simp_all add: stopping_run_def)
      from service_step.gateway [OF this, of ip t ttl] 5 show ?thesis by (simp add: stopping_run_def)
    next
      case 6
      let ?d = "the (dns (stopping_run 5))"
      have "serve_dns_step ip t ttl (flag (stopping_run 5)) ?d (?d\<lparr>dns_running := False\<rparr>)"
        by (rule serve_dns_step.stop_dns) (simp_all add: stopping_run_def)
      from service_step.dns [OF _ this] 6 show ?thesis by (simp add: stopping_run_def)
    next
      case 7
      have "ensure_step (flag (stopping_run 6)) (dig_local (stopping_run 6)) Finished"
        by (simp add: stopping_run_def ensure_step.intros)
      from service_step.dig_local [OF this, of ip t ttl] 7 show ?thesis by (simp add: stopping_run_def)
    qed (simp add: stopping_run_def)
  qed
  then show "service_run ip t ttl stopping_run" by (simp add: service_run_def)
  have "\<exists>n\<ge>k. dig_local (stopping_run n) \<noteq> Attempting" for k
    by (intro exI [of _ "k + 7"]) (simp add: stopping_run_def)
  moreover have "\<exists>n. running (gateway (stopping_run n)) \<and> \<not> running (gateway (stopping_run (Suc n)))"
    "\<exists>n. dns_running (the (dns (stopping_run n))) \<and> \<not> dns_running (the (dns (stopping_run (Suc n))))"
    "\<exists>n. ensure_waits (dig_local (stopping_run n)) \<and> \<not> dig_local (stopping_run (Suc n)) \<noteq> Finished"
    by (rule exI [of _ 4] exI [of _ 5] exI [of _ 6], simp add: stopping_run_def ensure_waits_def)+
  ultimately show "fair_run ip t ttl stopping_run"
    unfolding fair_run_def picks_fairly_def by blast
qed

theorem service_lifetime_witness:
  "\<exists>m. \<forall>k\<ge>m. all_stopped (stopping_run k)"
proof -
  have "stopping_run 0 = service_start True" "flag (stopping_run 2)"
    by (simp_all add: stopping_run_def service_start_def)
  with service_lifetime [OF stopping_run(1), where active = True and ip = "Ipv4Addr 127 0 0 5" and t = "''dig''" and ttl = 2]
    stopping_run(2) [of "Ipv4Addr 127 0 0 5" "''dig''" 2] show ?thesis by blast
qed

end
