(* ===== verification/OsConfigSpec.thy ===== *)
theory OsConfigSpec
  imports OsConfig
begin

text \<open>
  What \<open>configure-os\<close> and \<open>unconfigure-os\<close> promise about files: a specification on the set of artifacts that
  carry the mark of the tool, and the proof that the plans and their execution refine it.
\<close>

section \<open>Artifacts in a file system\<close>

text \<open>The usual shape of an artifact path: no links on the way or at the path, and what is there is reachable. A Linux
  has it; a macOS has not, since its \<open>/etc\<close> is a link, so what is proved under it says nothing about that system.\<close>

definition artifact_ok :: "(path \<Rightarrow> fentry option) \<Rightarrow> path \<Rightarrow> bool" where
  "artifact_ok t p \<longleftrightarrow> p \<noteq> [] \<and> linkfree t p \<and> \<not> is_link_at t p \<and> (t p = None \<or> real_path t p)"

text \<open>Writing \<open>p\<close> does not come near \<open>q\<close>.\<close>

definition apart :: "nat \<Rightarrow> path \<Rightarrow> path \<Rightarrow> bool" where
  "apart n p q \<longleftrightarrow> \<not> prefix q p \<and> \<not> prefix p q \<and> \<not> prefix (temp_path n p) q"

text \<open>Reading an artifact depends only on the entry at its path.\<close>

lemma artifact_read:
  assumes "artifact_ok (lookup w) p"
  shows "read_to_string w p = Ok c \<longleftrightarrow> (\<exists>e. lookup w p = Some e \<and> fnode e = File c)"
proof
  assume c: "read_to_string w p = Ok c"
  then obtain e q where "resolve_path w True p = Ok q" "lookup w q = Some e" "fnode e = File c"
    by (cases "resolve_path w True p"; cases "lookup w (the (res_ok (resolve_path w True p)))")
       (auto simp: read_to_string_def metadata_def entry_at_def split: fnode.splits)
  with resolve_linkfree [of w True p q] assms show "\<exists>e. lookup w p = Some e \<and> fnode e = File c"
    by (auto simp: artifact_ok_def)
next
  assume "\<exists>e. lookup w p = Some e \<and> fnode e = File c"
  then show "read_to_string w p = Ok c"
    using read_real_file [of w p] assms by (auto simp: artifact_ok_def)
qed

lemma artifact_owned:
  assumes "artifact_ok (lookup w) p"
  shows "file_is_ours w p ip \<longleftrightarrow>
    (\<exists>e c. lookup w p = Some e \<and> fnode e = File c \<and> content_is_ours c ip)"
proof -
  have "file_is_ours w p ip \<longleftrightarrow> (\<exists>c. read_to_string w p = Ok c \<and> content_is_ours c ip)"
    by (auto simp: file_is_ours_def split: sum.splits)
  then show ?thesis by (auto simp: artifact_read [OF assms])
qed

lemma artifact_transfer:
  assumes "artifact_ok t q" "dirs_added p t t1" "\<not> prefix q p" "\<And>r. prefix r q \<Longrightarrow> t' r = t1 r"
  shows "artifact_ok t' q \<and> t' q = t q"
proof -
  have q: "t1 q = t q" using assms(2,3) by (auto simp: dirs_added_def)
  have tk: "t' (take n q) = t1 (take n q)" for n by (rule assms(4)) (rule take_is_prefix)
  have "real_path t1 q" if "real_path t q"
    using that dirs_added_dir [OF assms(2)] by (auto simp: real_path_iff)
  then have "real_path t' q" if "real_path t q" using that tk real_path_cong [of q t' t1] by simp
  moreover have "linkfree t' q"
    using dirs_added_linkfree [OF assms(2)] assms(1) tk tk [of 0]
    by (auto simp: artifact_ok_def linkfree_iff is_link_at_def is_dir_at_def)
  moreover have "\<not> is_link_at t' q"
    using assms(1) dirs_added_link [OF assms(2), of q] tk [of "length q"]
    by (simp add: artifact_ok_def is_link_at_def)
  ultimately show ?thesis
    using assms(1) q tk [of "length q"] by (auto simp: artifact_ok_def)
qed

lemma artifact_deleted:
  assumes "artifact_ok t p" "artifact_ok t q" "t p \<noteq> None" "\<not> is_dir_at t p"
  shows "artifact_ok (t(p := None)) q"
proof -
  have "is_dir_at (t(p := None)) r" if "is_dir_at t r" for r
    using that assms(4) by (auto simp: is_dir_at_def)
  moreover have "\<not> is_link_at (t(p := None)) r" if "\<not> is_link_at t r" for r
    using that by (auto simp: is_link_at_def)
  ultimately show ?thesis
    using assms(2) by (auto simp: artifact_ok_def linkfree_iff real_path_iff)
qed

section \<open>The file helpers on artifacts\<close>

lemma write_artifact:
  assumes "write_if_changed n p c w = (x, w')" "artifact_ok (lookup w) p"
  shows "artifact_ok (lookup w') p"
    and "is_ok x \<Longrightarrow> content_is_ours c ip \<Longrightarrow> file_is_ours w' p ip"
    and "\<not> is_ok x \<Longrightarrow> lookup w' p = lookup w p \<and> file_is_ours w' p ip = file_is_ours w p ip"
    and "artifact_ok (lookup w) q \<Longrightarrow> apart n p q
      \<Longrightarrow> artifact_ok (lookup w') q \<and> lookup w' q = lookup w q \<and> file_is_ours w' q ip = file_is_ours w q ip"
proof -
  have p: "p \<noteq> []" "linkfree (lookup w) p" using assms(2) by (simp_all add: artifact_ok_def)
  have tmp: "\<not> prefix (temp_path n p) p"
    using temp_path_props(1,4) [OF p(1), of n] not_equal_is_parallel [of "temp_path n p" p] by auto
  have np: "\<not> prefix p (butlast p)" using prefix_length_le [of p "butlast p"] p(1) by (cases "length p") auto
  have own: "file_is_ours w' r ip = file_is_ours w r ip"
    if "artifact_ok (lookup w) r" "artifact_ok (lookup w') r" "lookup w' r = lookup w r" for r
    using that by (simp add: artifact_owned)
  consider (same) "x = Ok False" "w' = w" "read_to_string w p = Ok c"
    | (new) t e where "x = Ok True" "read_to_string w' p = Ok c" "real_path (lookup w') p"
        "dirs_added (butlast p) (lookup w) t" "lookup w' = t(p \<mapsto> e)" "fnode e = File c"
    | (err) t where "\<not> is_ok x" "dirs_added (butlast p) (lookup w) t"
        "\<forall>q. q \<noteq> temp_path n p \<longrightarrow> lookup w' q = t q"
    using assms(1) write_if_changed_Ok [OF _ p(2,1), of n c _ w'] write_if_changed_Err [OF _ p(2,1), of n c _ w']
    by (cases x) (metis (full_types) is_ok.simps(1))+
  note cases = this
  show "is_ok x \<Longrightarrow> content_is_ours c ip \<Longrightarrow> file_is_ours w' p ip"
    by (rule cases) (auto simp: file_is_ours_def)
  have err_p: "artifact_ok (lookup w') p \<and> lookup w' p = lookup w p"
    if "dirs_added (butlast p) (lookup w) t" "\<forall>q. q \<noteq> temp_path n p \<longrightarrow> lookup w' q = t q" for t
    by (rule artifact_transfer [OF assms(2) that(1) np]) (use that(2) tmp in auto)
  show ok: "artifact_ok (lookup w') p"
  proof (rule cases)
    fix t e
    assume *: "real_path (lookup w') p" "dirs_added (butlast p) (lookup w) t" "lookup w' = t(p \<mapsto> e)" "fnode e = File c"
    have "linkfree t p" using dirs_added_linkfree [OF *(2) p(2)] .
    then have "linkfree (lookup w') p"
      using p(1) unfolding *(3) by (auto simp: linkfree_iff is_link_at_def is_dir_at_def dest: arg_cong [where f = length])
    with * p(1) show ?thesis by (simp add: artifact_ok_def is_link_at_Some)
  qed (use err_p assms(2) in auto)
  show "\<not> is_ok x \<Longrightarrow> lookup w' p = lookup w p \<and> file_is_ours w' p ip = file_is_ours w p ip"
    by (rule cases) (use err_p own [OF assms(2) ok] in auto)
  assume q: "artifact_ok (lookup w) q" and a: "apart n p q"
  then have nq: "\<not> prefix q (butlast p)"
    using prefix_order.trans [OF _ prefixeq_butlast] by (auto simp: apart_def)
  have "artifact_ok (lookup w') q \<and> lookup w' q = lookup w q"
  proof (rule cases)
    fix t e
    assume *: "dirs_added (butlast p) (lookup w) t" "lookup w' = t(p \<mapsto> e)"
    show ?thesis
      by (rule artifact_transfer [OF q *(1) nq]) (use *(2) a in \<open>auto simp: apart_def\<close>)
  next
    fix t
    assume *: "dirs_added (butlast p) (lookup w) t" "\<forall>q. q \<noteq> temp_path n p \<longrightarrow> lookup w' q = t q"
    show ?thesis
      by (rule artifact_transfer [OF q *(1) nq]) (use *(2) a in \<open>auto simp: apart_def\<close>)
  qed (use q in simp)
  with own q show "artifact_ok (lookup w') q \<and> lookup w' q = lookup w q \<and> file_is_ours w' q ip = file_is_ours w q ip" by blast
qed

lemma remove_file_artifact:
  assumes "remove_file p w = (x, w')" "linkfree (lookup w) p"
  shows "lookup w' = (if is_ok x then (lookup w)(p := None) else lookup w)"
    and "is_ok x \<Longrightarrow> lookup w p \<noteq> None \<and> \<not> is_dir_at (lookup w) p"
proof -
  have "lookup w' = (lookup w)(p := None) \<and> lookup w p \<noteq> None \<and> \<not> is_dir_at (lookup w) p" if ok: "is_ok x"
  proof -
    obtain u where u: "remove_file p w = (Ok u, w')" using assms(1) ok by (auto simp: is_ok_iff)
    then obtain fs q where q: "resolve_path w False p = Ok q" "lookup w q \<noteq> None"
      "\<not> is_dir_at (lookup w) q" "lookup w' = (lookup w)(q := None)"
      by (auto simp: remove_file_def is_dir_at_Some dest!: faulty_Ok split: sum.splits option.splits if_splits)
    with resolve_linkfree [OF q(1) assms(2)] show ?thesis by auto
  qed
  then show "is_ok x \<Longrightarrow> lookup w p \<noteq> None \<and> \<not> is_dir_at (lookup w) p"
    and "lookup w' = (if is_ok x then (lookup w)(p := None) else lookup w)"
    using assms(1) remove_file_Err by (cases x; auto)+
qed

lemma remove_artifact:
  assumes "remove_if_ours p ip w = (x, w')" "artifact_ok (lookup w) p"
  shows "(x = Ok True \<and> file_is_ours w p ip \<and> \<not> is_dir_at (lookup w) p \<and> lookup w p \<noteq> None
            \<and> lookup w' = (lookup w)(p := None))
    \<or> (x \<noteq> Ok True \<and> lookup w' = lookup w \<and> (faults w = [] \<longrightarrow> \<not> file_is_ours w p ip))"
proof (cases "file_is_ours w p ip")
  case True
  with assms(2) obtain e c where e: "lookup w p = Some e" "fnode e = File c"
    by (auto simp: artifact_owned)
  then have real: "real_path (lookup w) p" using assms(2) by (auto simp: artifact_ok_def)
  have "is_ok (fst (remove_file p w))" if "faults w = []"
    using that e real by (simp add: remove_file_def faulty_def resolve_real)
  with True remove_if_ours_cases [OF assms(1)] assms e show ?thesis
    by (cases "remove_file p w"; cases "fst (remove_file p w)")
       (auto simp: remove_if_ours_def artifact_ok_def is_dir_at_Some)
qed (use assms(1) in \<open>auto simp: remove_if_ours_def\<close>)

lemma deleted_artifacts:
  assumes "artifact_ok (lookup w) p" "artifact_ok (lookup w) q" "lookup w p \<noteq> None" "\<not> is_dir_at (lookup w) p"
    and "lookup w' = (lookup w)(p := None)"
  shows "artifact_ok (lookup w') q \<and> (file_is_ours w' q ip \<longleftrightarrow> q \<noteq> p \<and> file_is_ours w q ip)"
proof -
  have "artifact_ok (lookup w') q" using artifact_deleted [OF assms(1-4)] assms(5) by simp
  with assms(2,5) show ?thesis by (auto simp: artifact_owned)
qed

section \<open>The specification\<close>

text \<open>The files the tool may touch, and those of them that carry its mark.\<close>

definition artifacts :: "string \<Rightarrow> string \<Rightarrow> path set" where
  "artifacts os t =
     (if os = ''linux'' then {path_of LINUX_RESOLVED_DROPIN, path_of LINUX_NM_DNSMASQ_CONF,
          path_of LINUX_CHROME_POLICY, path_of LINUX_CHROMIUM_POLICY}
      else if os = ''macos'' then {path_of MACOS_LO0_PLIST, path_of (macos_resolver_path t), path_of MACOS_CHROME_PLIST}
      else {})"

definition marked :: "string \<Rightarrow> string \<Rightarrow> path set" where
  "marked os t =
     (if os = ''linux'' then {path_of LINUX_RESOLVED_DROPIN, path_of LINUX_NM_DNSMASQ_CONF}
      else artifacts os t)"

text \<open>The abstract state: the marked artifacts that are present and ours.\<close>

definition wiring :: "path set \<Rightarrow> ipv4 \<Rightarrow> fsys \<Rightarrow> path set" where
  "wiring A ip w = {p \<in> A. file_is_ours w p ip}"

definition os_wiring :: "'m machine \<Rightarrow> config \<Rightarrow> fsys \<Rightarrow> path set" where
  "os_wiring M cfg w = wiring (marked (os_const M) (tld cfg)) (loopback_ip cfg) w"

definition tidy :: "path set \<Rightarrow> fsys \<Rightarrow> bool" where
  "tidy B w \<longleftrightarrow> (\<forall>p\<in>B. artifact_ok (lookup w) p)"

definition separated :: "nat \<Rightarrow> path set \<Rightarrow> bool" where
  "separated n B \<longleftrightarrow> (\<forall>p\<in>B. \<forall>q\<in>B. p \<noteq> q \<longrightarrow> apart n p q)"

text \<open>Configuring adds the labels \<open>ls\<close> it reports, unconfiguring removes them and deletes nothing else.\<close>

definition adds :: "path set \<Rightarrow> path set \<Rightarrow> ipv4 \<Rightarrow> string list \<Rightarrow> fsys \<Rightarrow> fsys \<Rightarrow> bool" where
  "adds B A ip ls w w' \<longleftrightarrow> tidy B w' \<and> wiring A ip w' = wiring A ip w \<union> (A \<inter> path_of ` set ls)"

definition drops :: "path set \<Rightarrow> path set \<Rightarrow> ipv4 \<Rightarrow> string list \<Rightarrow> fsys \<Rightarrow> fsys \<Rightarrow> bool" where
  "drops B A ip ls w w' \<longleftrightarrow> tidy B w' \<and> wiring A ip w' = wiring A ip w - path_of ` set ls
     \<and> (\<forall>q. lookup w' q = lookup w q \<or> lookup w' q = None \<and> q \<in> B \<inter> path_of ` set ls
            \<and> (q \<in> A \<longrightarrow> file_is_ours w q ip))
     \<and> (\<forall>q\<in>B \<inter> path_of ` set ls. lookup w' q = None)"

lemma adds_refl: "tidy B w \<Longrightarrow> adds B A ip [] w w"
  by (simp add: adds_def)

lemma adds_trans: "adds B A ip ls w w1 \<Longrightarrow> adds B A ip ls' w1 w2 \<Longrightarrow> adds B A ip (ls @ ls') w w2"
  by (auto simp: adds_def image_Un)

lemma drops_refl: "tidy B w \<Longrightarrow> drops B A ip [] w w"
  by (simp add: drops_def)

lemma dropsD:
  assumes "drops B A ip ls w w'"
  shows "tidy B w'" "wiring A ip w' = wiring A ip w - path_of ` set ls"
    "lookup w' q = lookup w q \<or> lookup w' q = None \<and> q \<in> B \<inter> path_of ` set ls \<and> (q \<in> A \<longrightarrow> file_is_ours w q ip)"
    "q \<in> B \<Longrightarrow> q \<in> path_of ` set ls \<Longrightarrow> lookup w' q = None"
proof -
  show "tidy B w'" "wiring A ip w' = wiring A ip w - path_of ` set ls" using assms by (simp_all add: drops_def)
  show "lookup w' q = lookup w q \<or> lookup w' q = None \<and> q \<in> B \<inter> path_of ` set ls \<and> (q \<in> A \<longrightarrow> file_is_ours w q ip)"
    using assms unfolding drops_def by (elim conjE) (erule spec)
  show "q \<in> B \<Longrightarrow> q \<in> path_of ` set ls \<Longrightarrow> lookup w' q = None"
    using assms unfolding drops_def by (elim conjE) (erule bspec, rule IntI)
qed

lemma drops_trans:
  assumes "drops B A ip ls w w1" "drops B A ip ls' w1 w2"
  shows "drops B A ip (ls @ ls') w w2"
proof -
  note first = dropsD [OF assms(1)] and second = dropsD [OF assms(2)]
  have own: "q \<in> A \<longrightarrow> file_is_ours w q ip" if "q \<in> A \<longrightarrow> file_is_ours w1 q ip" for q
    using first(2) that unfolding wiring_def by blast
  have gone: "lookup w2 q = None" if "q \<in> B \<inter> path_of ` set (ls @ ls')" for q
    using first(4) [of q] second(3,4) [of q] that by auto
  have frame: "lookup w2 q = lookup w q \<or> lookup w2 q = None \<and> q \<in> B \<inter> path_of ` set (ls @ ls')
      \<and> (q \<in> A \<longrightarrow> file_is_ours w q ip)" for q
    using first(3) [of q] second(3) [of q] own [of q] unfolding set_append image_Un by (elim disjE) simp_all
  have "wiring A ip w2 = wiring A ip w - path_of ` set (ls @ ls')"
    unfolding second(2) first(2) by auto
  then show ?thesis unfolding drops_def by (intro conjI allI ballI second(1) frame gone)
qed

section \<open>Plans refine the specification\<close>

lemma tool_disk:
  "disk (snd (run M c as h)) = disk h" "disk (snd (run_ps M c h)) = disk h"
  "disk (snd (reg M as h)) = disk h" "disk (snd (reg_present M as h)) = disk h"
  by (auto simp: run_def run_ps_def reg_def reg_present_def on_procs_def split_beta Let_def
      split: sum.splits prod.splits if_splits)

lemma labels_simps [simp]:
  "applied (push_applied l r) = applied r @ [l]" "removed (push_applied l r) = removed r"
  "applied (push_removed l r) = applied r" "removed (push_removed l r) = removed r @ [l]"
  "applied (add_note m r) = applied r" "removed (add_note m r) = removed r"
  "needs_elevation (push_applied l r) = needs_elevation r" "needs_elevation (push_removed l r) = needs_elevation r"
  "needs_elevation (add_note m r) = needs_elevation r"
  by (simp_all add: push_applied_def push_removed_def add_note_def)

lemma write_adds:
  assumes "write_if_changed n (path_of p) c w = (x, w')" "tidy B w" "separated n B" "A \<subseteq> B" "path_of p \<in> B"
    and "path_of p \<in> A \<Longrightarrow> content_is_ours c ip"
  shows "adds B A ip (if is_ok x then [p] else []) w w'"
proof -
  have p: "artifact_ok (lookup w) (path_of p)" using assms(2,5) by (simp add: tidy_def)
  note wa = write_artifact [OF assms(1) p]
  have other: "artifact_ok (lookup w') q \<and> lookup w' q = lookup w q \<and> file_is_ours w' q ip = file_is_ours w q ip"
    if "q \<in> B" "q \<noteq> path_of p" for q
    by (rule wa(4)) (use that assms(2,3,5) in \<open>auto simp: tidy_def separated_def\<close>)
  then have "tidy B w'" using wa(1) unfolding tidy_def by blast
  moreover have "wiring A ip w' = wiring A ip w \<union> (A \<inter> path_of ` set (if is_ok x then [p] else []))"
  proof (cases "is_ok x")
    case True
    have "file_is_ours w' (path_of p) ip" if "path_of p \<in> A" using wa(2) True assms(6) that by blast
    with True other assms(4) show ?thesis unfolding wiring_def by fastforce
  next
    case False
    with other wa(3) assms(4) show ?thesis unfolding wiring_def by fastforce
  qed
  ultimately show ?thesis by (simp add: adds_def)
qed

lemma remove_drops:
  assumes "remove_if_ours (path_of p) ip w = (x, w')" "tidy B w" "A \<subseteq> B" "path_of p \<in> B"
  shows "drops B A ip (if x = Ok True then [p] else []) w w'"
proof -
  have p: "artifact_ok (lookup w) (path_of p)" using assms(2,4) by (simp add: tidy_def)
  from remove_artifact [OF assms(1) p] show ?thesis
  proof (elim disjE conjE)
    assume *: "x = Ok True" "file_is_ours w (path_of p) ip" "\<not> is_dir_at (lookup w) (path_of p)"
      "lookup w (path_of p) \<noteq> None" "lookup w' = (lookup w)(path_of p := None)"
    have "artifact_ok (lookup w') q \<and> (file_is_ours w' q ip \<longleftrightarrow> q \<noteq> path_of p \<and> file_is_ours w q ip)"
      if "q \<in> B" for q
      by (rule deleted_artifacts [OF p _ *(4,3,5)]) (use that assms(2) in \<open>simp add: tidy_def\<close>)
    with assms(3,4) * show ?thesis by (auto simp: drops_def tidy_def wiring_def)
  next
    assume "x \<noteq> Ok True" "lookup w' = lookup w"
    moreover from this assms(2,3) have "wiring A ip w' = wiring A ip w"
      by (auto simp: wiring_def tidy_def artifact_owned)
    ultimately show ?thesis using assms(2) by (auto simp: drops_def tidy_def)
  qed
qed

fun adding_step :: "path set \<Rightarrow> path set \<Rightarrow> ipv4 \<Rightarrow> step \<Rightarrow> bool" where
  "adding_step B A ip (Write p c) \<longleftrightarrow> path_of p \<in> B \<and> (path_of p \<in> A \<longrightarrow> content_is_ours c ip)"
| "adding_step B A ip (RemoveOurs p) \<longleftrightarrow> False"
| "adding_step B A ip (Ps c l b) \<longleftrightarrow> A = {}"
| "adding_step B A ip st \<longleftrightarrow> True"

fun dropping_step :: "path set \<Rightarrow> step \<Rightarrow> bool" where
  "dropping_step B (Write p c) \<longleftrightarrow> False"
| "dropping_step B (RemoveOurs p) \<longleftrightarrow> path_of p \<in> B"
| "dropping_step B (Ps c l b) \<longleftrightarrow> B = {}"
| "dropping_step B st \<longleftrightarrow> True"

lemma ps_disk: "run_ps M c h = (x, h1) \<Longrightarrow> disk h1 = disk h"
  using tool_disk(2) [of M c h] by simp

lemma execute_step_adds:
  assumes "execute_step M ip st (r, h) = (r', h')" "tidy B (disk h)" "separated (process_id M) B" "A \<subseteq> B"
    and "adding_step B A ip st"
  shows "\<exists>ls. applied r' = applied r @ ls \<and> adds B A ip ls (disk h) (disk h')"
proof (cases st)
  case (Write p c)
  obtain x d where w: "write_if_changed (process_id M) (path_of p) c (disk h) = (x, d)" by fastforce
  have "adds B A ip (if is_ok x then [p] else []) (disk h) d"
    by (rule write_adds [OF w assms(2-4)]) (use assms(5) Write in auto)
  with w Write assms(1) show ?thesis by (cases x) (auto simp: on_disk_def)
next
  case (Ps c l b)
  obtain x h1 where "run_ps M c h = (x, h1)" by fastforce
  with Ps assms ps_disk [OF this] show ?thesis
    by (cases x; cases b) (auto simp: adds_def wiring_def)
qed (use assms in \<open>auto simp: adds_refl tool_disk\<close>)

lemma execute_step_drops:
  assumes "execute_step M ip st (r, h) = (r', h')" "tidy B (disk h)" "A \<subseteq> B" "dropping_step B st"
  shows "\<exists>ls. removed r' = removed r @ ls \<and> drops B A ip ls (disk h) (disk h')"
proof (cases st)
  case (RemoveOurs p)
  obtain x d where w: "remove_if_ours (path_of p) ip (disk h) = (x, d)" by fastforce
  have "drops B A ip (if x = Ok True then [p] else []) (disk h) d"
    by (rule remove_drops [OF w assms(2,3)]) (use assms(4) RemoveOurs in auto)
  with w RemoveOurs assms(1) show ?thesis
    by (cases x; cases "x = Ok True") (auto simp: on_disk_def split: bool.splits)
next
  case (Ps c l b)
  obtain x h1 where "run_ps M c h = (x, h1)" by fastforce
  with Ps assms ps_disk [OF this] show ?thesis
    by (cases x; cases b) (auto simp: drops_def wiring_def tidy_def)
qed (use assms in \<open>auto simp: drops_refl tool_disk\<close>)

lemma steps_add:
  assumes "foldl (\<lambda>s st. execute_step M ip st s) (r, h) sts = (r', h')" "tidy B (disk h)"
    and "separated (process_id M) B" "A \<subseteq> B" "\<forall>st\<in>set sts. adding_step B A ip st"
  shows "\<exists>ls. applied r' = applied r @ ls \<and> adds B A ip ls (disk h) (disk h')"
  using assms
proof (induction sts arbitrary: r h)
  case Nil
  then show ?case by (auto simp: adds_refl)
next
  case (Cons st sts)
  obtain r1 h1 where s: "execute_step M ip st (r, h) = (r1, h1)" by fastforce
  from execute_step_adds [OF s Cons.prems(2-4)] Cons.prems(5) obtain ls
    where ls: "applied r1 = applied r @ ls" "adds B A ip ls (disk h) (disk h1)" by auto
  with Cons.IH [of r1 h1] Cons.prems s adds_trans show ?case by (fastforce simp: adds_def)
qed

lemma steps_drop:
  assumes "foldl (\<lambda>s st. execute_step M ip st s) (r, h) sts = (r', h')" "tidy B (disk h)" "A \<subseteq> B"
    and "\<forall>st\<in>set sts. dropping_step B st"
  shows "\<exists>ls. removed r' = removed r @ ls \<and> drops B A ip ls (disk h) (disk h')"
  using assms
proof (induction sts arbitrary: r h)
  case Nil
  then show ?case by (auto simp: drops_refl)
next
  case (Cons st sts)
  obtain r1 h1 where s: "execute_step M ip st (r, h) = (r1, h1)" by fastforce
  from execute_step_drops [OF s Cons.prems(2-3)] Cons.prems(4) obtain ls
    where ls: "removed r1 = removed r @ ls" "drops B A ip ls (disk h) (disk h1)" by auto
  then have "tidy B (disk h1)" by (simp add: drops_def)
  with Cons.IH [of r1 h1] Cons.prems s obtain ls'
    where "removed r' = removed r1 @ ls'" "drops B A ip ls' (disk h1) (disk h')" by auto
  with ls drops_trans show ?case by fastforce
qed

section \<open>The plans of the tool\<close>

lemma contains_str_head: "contains_str (p @ b) p"
  by (auto simp: contains_str_iff)

lemma contains_str_tail: "contains_str b p \<Longrightarrow> contains_str (a @ b) p"
  unfolding contains_str_iff by (metis append_assoc)

lemma contents_ours:
  "content_is_ours (systemd_resolved_dropin ip t) ip'" "content_is_ours (networkmanager_dnsmasq_conf ip t) ip'"
  "content_is_ours (launchd_lo0_alias_plist ip) ip'" "content_is_ours (resolver_file_content ip) ip'"
  "content_is_ours chrome_managed_plist ip'"
  unfolding content_is_ours_def systemd_resolved_dropin_def networkmanager_dnsmasq_conf_def
    resolver_file_content_def launchd_lo0_alias_plist_def chrome_managed_plist_def PLIST_HEAD_def append_assoc
  by (rule disjI1, (rule contains_str_head | rule contains_str_tail)+)+

lemma artifact_paths:
  "path_of LINUX_RESOLVED_DROPIN = [''etc'', ''systemd'', ''resolved.conf.d'', ''dig.conf'']"
  "path_of LINUX_NM_DNSMASQ_CONF = [''etc'', ''NetworkManager'', ''dnsmasq.d'', ''dig.conf'']"
  "path_of LINUX_CHROME_POLICY = [''etc'', ''opt'', ''chrome'', ''policies'', ''managed'', ''dig-dns.json'']"
  "path_of LINUX_CHROMIUM_POLICY = [''etc'', ''chromium'', ''policies'', ''managed'', ''dig-dns.json'']"
  "path_of MACOS_LO0_PLIST = [''Library'', ''LaunchDaemons'', ''net.dignetwork.dig-dns-lo0.plist'']"
  "path_of MACOS_CHROME_PLIST = [''Library'', ''Managed Preferences'', ''com.google.Chrome.plist'']"
  by code_simp+

lemma resolver_path: "path_of (macos_resolver_path t) = ''etc'' # ''resolver'' # path_of t"
  using split_on_append [of "CHR ''/''" "[]" "''etc/resolver/'' @ t"]
    split_on_append [of "CHR ''/''" "''etc''" "''resolver/'' @ t"]
    split_on_append [of "CHR ''/''" "''resolver''" t]
  by (simp add: path_of_def macos_resolver_path_def)

lemma temp_path_Cons: "temp_path n (a # b # p) = a # temp_path n (b # p)"
  by (simp add: temp_path_def)

lemma artifacts_separated: "separated n (artifacts os t)"
  by (auto simp: separated_def artifacts_def apart_def artifact_paths resolver_path temp_path_Cons
      split: if_splits)

lemma marked_subset: "marked os t \<subseteq> artifacts os t"
  by (auto simp: marked_def artifacts_def)

lemma configure_plan:
  "\<forall>st\<in>set (configure_resolver_steps os owner ip t). adding_step (artifacts os t) (marked os t) ip' st"
  by (cases "os = ''linux''"; cases "os = ''macos''"; cases "os = ''windows''"; cases owner)
     (simp_all add: configure_resolver_steps_def artifacts_def marked_def contents_ours)

lemma unconfigure_plan:
  "\<forall>st\<in>set (unconfigure_resolver_steps os ip t). dropping_step (artifacts os t) st"
  by (simp add: unconfigure_resolver_steps_def artifacts_def, auto)

text \<open>The plan of \<open>unconfigure\<close> tries to remove every marked artifact.\<close>

lemma is_elevated_disk: "is_elevated M h = (b, h') \<Longrightarrow> disk h' = disk h"
  by (cases "os_const M = ''windows''") (auto simp: is_elevated_def Let_def split_beta on_procs_def)

lemma windows_disk:
  "apply_windows_browser_policy M key h = (x, h') \<Longrightarrow> disk h' = disk h"
  "remove_windows_browser_policy M key h = (y, h') \<Longrightarrow> disk h' = disk h"
proof -
  have ra: "disk (snd (reg_all M cmds h)) = disk h" for cmds h
  proof (induction cmds arbitrary: h)
    case (Cons cmd cmds)
    then show ?case
      using tool_disk(3) [of M cmd h] by (cases "reg M cmd h"; cases "fst (reg M cmd h)") auto
  qed simp
  have wp: "disk (snd (windows_policy_ours M key h)) = disk h" for h
    by (auto simp: windows_policy_ours_def tool_disk split_beta Let_def)
  have fd: "disk (foldl (\<lambda>h v. snd (reg M (f v) h)) h vs) = disk h" for f vs h
    by (induction vs arbitrary: h) (auto simp: tool_disk)
  show "remove_windows_browser_policy M key h = (y, h') \<Longrightarrow> disk h' = disk h"
    using wp [of h] fd [of "reg_delete_value_args key"]
    by (auto simp: remove_windows_browser_policy_def split_beta Let_def tool_disk split: if_splits)
  obtain b1 h1 where q: "reg_present M (reg_query_key_args key) h = (b1, h1)" by fastforce
  obtain b2 h2 where o: "windows_policy_ours M key h1 = (b2, h2)" by fastforce
  obtain r3 h3 where g: "reg_all M (reg_add_policy_args key) h2 = (r3, h3)" by fastforce
  have "disk h1 = disk h" "disk h2 = disk h1" "disk h3 = disk h2"
    using tool_disk(4) [of M "reg_query_key_args key" h] wp [of h1] ra [of "reg_add_policy_args key" h2] q o g
    by simp_all
  with q o g show "apply_windows_browser_policy M key h = (x, h') \<Longrightarrow> disk h' = disk h"
    by (cases r3) (auto simp: apply_windows_browser_policy_def split: if_splits)
qed

text \<open>The browser policies.\<close>

lemma foldl_extends:
  assumes "\<And>s x. x \<in> set xs \<Longrightarrow> \<exists>ls. f (g s x) = f s @ ls"
  shows "\<exists>ls. f (foldl g s xs) = f s @ (ls :: 'a list)"
  using assms
proof (induction xs arbitrary: s)
  case (Cons x xs)
  from Cons.IH [of "g s x"] Cons.prems obtain ls where "f (foldl g (g s x) xs) = f (g s x) @ ls" by auto
  with Cons.prems [of x s] show ?case by auto
qed simp

lemma windows_one:
  "\<exists>ls. applied (fst (apply_windows_one M s b)) = applied (fst s) @ ls"
  "\<exists>ls. removed (fst (remove_windows_one M s b)) = removed (fst s) @ ls"
  "disk (snd (remove_windows_one M s b)) = disk (snd s)"
proof -
  obtain r h browser key where s: "s = (r, h)" "b = (browser, key)" by fastforce
  obtain x h1 where a: "apply_windows_browser_policy M key h = (x, h1)" by fastforce
  obtain y h2 where d: "remove_windows_browser_policy M key h = (y, h2)" by fastforce
  show "\<exists>ls. applied (fst (apply_windows_one M s b)) = applied (fst s) @ ls"
    using s a by (cases x; cases "x = Ok True") (simp_all split: bool.split)
  show "\<exists>ls. removed (fst (remove_windows_one M s b)) = removed (fst s) @ ls"
    using s d by (cases y; cases "y = Ok True") (simp_all split: bool.split)
  show "disk (snd (remove_windows_one M s b)) = disk (snd s)"
    using s d windows_disk(2) [OF d] by (cases y; cases "y = Ok True") (simp_all split: bool.split)
qed

lemma write_policy_step: "write_policy_file M policy s p = execute_step M ip (Write p policy) s"
  by (cases s) simp

lemma remove_policy_drops:
  assumes "remove_policy_file (r, h) p = (r', h')" "tidy B (disk h)" "A \<subseteq> B" "path_of p \<in> B - A"
  shows "\<exists>ls. removed r' = removed r @ ls \<and> drops B A ip ls (disk h) (disk h')"
proof -
  have ok: "artifact_ok (lookup (disk h)) (path_of p)" using assms(2,4) by (simp add: tidy_def)
  obtain x d where x: "remove_file (path_of p) (disk h) = (x, d)" by fastforce
  note rf = remove_file_artifact [OF x]
  have lf: "linkfree (lookup (disk h)) (path_of p)" using ok by (simp add: artifact_ok_def)
  have "drops B A ip (if is_ok x then [p] else []) (disk h) d"
  proof (cases "is_ok x")
    case True
    then have d: "lookup d = (lookup (disk h))(path_of p := None)" using rf(1) lf by simp
    have "artifact_ok (lookup d) q \<and> (file_is_ours d q ip \<longleftrightarrow> q \<noteq> path_of p \<and> file_is_ours (disk h) q ip)"
      if "q \<in> B" for q
      by (rule deleted_artifacts [OF ok]) (use that assms(2) rf(2) lf True d in \<open>auto simp: tidy_def\<close>)
    with True d assms(3,4) show ?thesis
      by (auto simp: drops_def tidy_def wiring_def)
  next
    case False
    with rf(1) lf have d: "lookup d = lookup (disk h)" by simp
    then have "wiring A ip d = wiring A ip (disk h)"
      using assms(2,3) by (auto simp: wiring_def tidy_def artifact_owned)
    with d False assms(2) show ?thesis by (auto simp: drops_def tidy_def)
  qed
  with assms(1,2) x show ?thesis
    by (cases x) (auto simp: on_disk_def drops_refl split: if_splits)
qed

lemma policy_adds:
  assumes "apply_browser_policy M policy os ip (r, h) = (r', h')" "tidy (artifacts os t) (disk h)"
  shows "\<exists>ls. applied r' = applied r @ ls \<and> adds (artifacts os t) (marked os t) ip ls (disk h) (disk h')"
proof -
  have sep: "separated (process_id M) (artifacts os t)" by (rule artifacts_separated)
  consider "os = ''linux''" | "os = ''macos''" | "os = ''windows''"
    | "os \<noteq> ''linux''" "os \<noteq> ''macos''" "os \<noteq> ''windows''" by blast
  then show ?thesis
  proof cases
    case 1
    let ?sts = "map (\<lambda>p. Write p policy) [LINUX_CHROME_POLICY, LINUX_CHROMIUM_POLICY]"
    have f: "write_policy_file M policy = (\<lambda>s p. execute_step M ip (Write p policy) s)"
      by (intro ext) (rule write_policy_step)
    obtain r1 h1 where fold: "foldl (\<lambda>s st. execute_step M ip st s) (r, h) ?sts = (r1, h1)" by fastforce
    have ok: "\<forall>st\<in>set ?sts. adding_step (artifacts os t) (marked os t) ip st"
      by (simp add: artifacts_def marked_def artifact_paths 1)
    from steps_add [OF fold assms(2) sep marked_subset ok] fold assms(1) show ?thesis
      unfolding apply_browser_policy_def f by (auto simp: 1 foldl_map Let_def)
  next
    case 2
    obtain x d where w: "write_if_changed (process_id M) (path_of MACOS_CHROME_PLIST) chrome_managed_plist (disk h) = (x, d)"
      by fastforce
    have "adds (artifacts os t) (marked os t) ip (if is_ok x then [MACOS_CHROME_PLIST] else []) (disk h) d"
      by (rule write_adds [OF w assms(2) sep marked_subset]) (simp_all add: artifacts_def 2 contents_ours)
    with w assms show ?thesis
      by (cases x) (auto simp: apply_browser_policy_def 2 apply_macos_browser_policy_def on_disk_def adds_refl
          split: if_splits)
  next
    case 3
    have "\<exists>ls. applied (fst (foldl (apply_windows_one M) (r, h) windows_browsers)) = applied (fst (r, h)) @ ls"
      by (rule foldl_extends [where f = "\<lambda>s. applied (fst s)"]) (rule windows_one(1))
    with assms(1) show ?thesis
      by (auto simp: apply_browser_policy_def 3 adds_def tidy_def wiring_def artifacts_def marked_def)
  next
    case 4
    with assms show ?thesis by (auto simp: apply_browser_policy_def adds_refl)
  qed
qed

lemma policy_drops:
  assumes "remove_browser_policy M os ip (r, h) = (r', h')" "tidy (artifacts os t) (disk h)"
  shows "\<exists>ls. removed r' = removed r @ ls \<and> drops (artifacts os t) (marked os t) ip ls (disk h) (disk h')"
proof -
  consider "os = ''linux''" | "os = ''macos''" | "os = ''windows''"
    | "os \<noteq> ''linux''" "os \<noteq> ''macos''" "os \<noteq> ''windows''" by blast
  then show ?thesis
  proof cases
    case 1
    let ?B = "artifacts os t" and ?A = "marked os t"
    obtain r1 h1 where s1: "remove_policy_file (r, h) LINUX_CHROME_POLICY = (r1, h1)" by fastforce
    with assms(1) have s2: "remove_policy_file (r1, h1) LINUX_CHROMIUM_POLICY = (r', h')"
      by (simp add: remove_browser_policy_def 1 del: remove_policy_file.simps)
    have in_B: "path_of LINUX_CHROME_POLICY \<in> ?B - ?A" "path_of LINUX_CHROMIUM_POLICY \<in> ?B - ?A"
      by (simp_all add: artifacts_def marked_def 1 artifact_paths)
    from remove_policy_drops [OF s1 assms(2) marked_subset in_B(1)] obtain ls
      where ls: "removed r1 = removed r @ ls" "drops ?B ?A ip ls (disk h) (disk h1)" by blast
    then have "tidy ?B (disk h1)" by (simp add: drops_def)
    from remove_policy_drops [OF s2 this marked_subset in_B(2)] obtain ls'
      where "removed r' = removed r1 @ ls'" "drops ?B ?A ip ls' (disk h1) (disk h')" by blast
    with ls drops_trans show ?thesis by fastforce
  next
    case 2
    obtain x d where w: "remove_if_ours (path_of MACOS_CHROME_PLIST) ip (disk h) = (x, d)" by fastforce
    have "drops (artifacts os t) (marked os t) ip (if x = Ok True then [MACOS_CHROME_PLIST] else []) (disk h) d"
      by (rule remove_drops [OF w assms(2) marked_subset]) (simp add: artifacts_def 2)
    with w assms(1) show ?thesis
      by (cases x; cases "x = Ok True")
         (auto simp: remove_browser_policy_def 2 on_disk_def split: bool.splits)
  next
    case 3
    have "\<exists>ls. removed (fst (foldl (remove_windows_one M) (r, h) windows_browsers)) = removed (fst (r, h)) @ ls"
      by (rule foldl_extends [where f = "\<lambda>s. removed (fst s)"]) (rule windows_one(2))
    moreover have "disk (snd (foldl (remove_windows_one M) s bs)) = disk (snd s)" for s bs
      by (induction bs arbitrary: s) (simp_all add: windows_one(3))
    from this [of "(r, h)" windows_browsers]
    have "disk h' = disk h" using assms(1) by (simp add: remove_browser_policy_def 3)
    ultimately show ?thesis using assms(1)
      by (auto simp: remove_browser_policy_def 3 drops_def tidy_def wiring_def artifacts_def marked_def)
  next
    case 4
    with assms show ?thesis by (auto simp: remove_browser_policy_def drops_refl)
  qed
qed

section \<open>The commands refine the specification\<close>

lemma applied_started [simp]:
  "applied ((report_started act os)\<lparr>resolver := x\<rparr>) = []" "removed ((report_started act os)\<lparr>resolver := x\<rparr>) = []"
  "applied (not_elevated act os m) = []" "removed (not_elevated act os m) = []"
  "applied (unsupported act os) = []" "removed (unsupported act os) = []"
  by (simp_all add: report_started_def not_elevated_def unsupported_def)

lemma activation_applied [simp]: "applied (apply_activation_result os w a r) = applied r"
  by (simp add: apply_activation_result_def Let_def)

lemma removed_note_if [simp]: "removed (note_if_nothing_removed r) = removed r"
  by (simp add: note_if_nothing_removed_def)

lemma refused:
  assumes "is_elevated M h = (el, h0)" "\<not> (el \<and> is_supported (os_const M))"
  shows "\<exists>r. configure M policy cfg browser h = (r, h0) \<and> applied r = []"
    and "\<exists>r. unconfigure M cfg h = (r, h0) \<and> removed r = []"
  unfolding configure_def unconfigure_def Let_def assms(1) prod.case
  using assms(2) by (cases el; simp)+

lemma configure_parts:
  assumes "configure M policy cfg browser h = (r, h')" "is_elevated M h = (True, h0)" "is_supported (os_const M)"
  obtains res r1 h1 r2 h2 act where
    "foldl (\<lambda>s st. execute_step M (loopback_ip cfg) st s) ((report_started ''configure-os'' (os_const M))\<lparr>resolver := res\<rparr>, h0)
       (configure_resolver_steps (os_const M)
          (if os_const M = ''linux'' then detect_resolv_owner_live (disk h0) else Unknown) (loopback_ip cfg) (tld cfg))
     = (r1, h1)"
    and "(if browser then apply_browser_policy M policy (os_const M) (loopback_ip cfg) (r1, h1) else (r1, h1)) = (r2, h2)"
    and "(if applied r1 \<noteq> [] then verify_os_routing M cfg h2 else (False, h2)) = (act, h')"
    and "disk h' = disk h2"
    and "r = (apply_activation_result (os_const M) (applied r1 \<noteq> []) act r2)\<lparr>os_ok := True\<rparr>"
proof -
  let ?os = "os_const M"
  define owner where "owner = (if ?os = ''linux'' then detect_resolv_owner_live (disk h0) else Unknown)"
  define res where "res = (if ?os = ''linux'' then Some (owner_label owner) else None)"
  obtain r1 h1 where ex: "execute M ''configure-os'' (loopback_ip cfg) res
      (configure_resolver_steps ?os owner (loopback_ip cfg) (tld cfg)) h0 = (r1, h1)" by fastforce
  obtain r2 h2 where pol: "(if browser then apply_browser_policy M policy ?os (loopback_ip cfg) (r1, h1) else (r1, h1)) = (r2, h2)"
    by fastforce
  obtain act h3 where ver: "(if applied r1 \<noteq> [] then verify_os_routing M cfg h2 else (False, h2)) = (act, h3)"
    by fastforce
  have r: "configure M policy cfg browser h
    = ((apply_activation_result ?os (applied r1 \<noteq> []) act r2)\<lparr>os_ok := True\<rparr>, h3)"
    unfolding configure_def Let_def assms(2) prod.case owner_def [symmetric] res_def [symmetric] ex pol ver
    using assms(3) by simp
  have "disk h3 = disk h2"
    using ver disk_on_procs by (auto simp: verify_os_routing_def split: if_splits prod.splits)
  with that [OF ex [unfolded execute_def owner_def] pol] ver r assms(1) show thesis by simp
qed

lemma configure_adds:
  assumes "configure M policy cfg browser h = (r, h')" "tidy (artifacts (os_const M) (tld cfg)) (disk h)"
  shows "adds (artifacts (os_const M) (tld cfg)) (marked (os_const M) (tld cfg)) (loopback_ip cfg) (applied r)
    (disk h) (disk h')"
proof -
  let ?os = "os_const M" and ?t = "tld cfg" and ?ip = "loopback_ip cfg"
  let ?adds = "adds (artifacts ?os ?t) (marked ?os ?t) ?ip"
  obtain el h0 where el: "is_elevated M h = (el, h0)" by fastforce
  have h0: "disk h0 = disk h" using is_elevated_disk [OF el] .
  show ?thesis
  proof (cases "el \<and> is_supported ?os")
    case True
    then have "is_elevated M h = (True, h0)" "is_supported ?os" using el by simp_all
    from configure_parts [OF assms(1) this] obtain res r1 h1 r2 h2 act where
      ex: "foldl (\<lambda>s st. execute_step M ?ip st s) ((report_started ''configure-os'' ?os)\<lparr>resolver := res\<rparr>, h0)
         (configure_resolver_steps ?os (if ?os = ''linux'' then detect_resolv_owner_live (disk h0) else Unknown) ?ip ?t) = (r1, h1)"
      and pol: "(if browser then apply_browser_policy M policy ?os ?ip (r1, h1) else (r1, h1)) = (r2, h2)"
      and d: "disk h' = disk h2"
      and r: "r = (apply_activation_result ?os (applied r1 \<noteq> []) act r2)\<lparr>os_ok := True\<rparr>" by metis
    from steps_add [OF ex _ artifacts_separated marked_subset configure_plan] assms(2) h0
    have a1: "?adds (applied r1) (disk h) (disk h1)" by simp
    then have t1: "tidy (artifacts ?os ?t) (disk h1)" by (simp add: adds_def)
    have "\<exists>ls. applied r2 = applied r1 @ ls \<and> ?adds ls (disk h1) (disk h2)"
      using pol policy_adds [OF _ t1] adds_refl [OF t1] by (cases browser) auto
    then obtain ls where ls: "applied r2 = applied r1 @ ls" "?adds ls (disk h1) (disk h2)" by blast
    have "applied r = applied r1 @ ls" by (simp add: r ls(1))
    then show ?thesis unfolding d using adds_trans [OF a1 ls(2)] by simp
  next
    case False
    from refused(1) [OF el False, of policy cfg browser] assms(1) have "applied r = []" "h' = h0" by auto
    then show ?thesis by (simp only: h0 adds_refl [OF assms(2)])
  qed
qed

lemma unconfigure_parts:
  assumes "unconfigure M cfg h = (r, h')" "is_elevated M h = (True, h0)" "is_supported (os_const M)"
  obtains r1 h1 r2 where
    "foldl (\<lambda>s st. execute_step M (loopback_ip cfg) st s) ((report_started ''unconfigure-os'' (os_const M))\<lparr>resolver := None\<rparr>, h0)
       (unconfigure_resolver_steps (os_const M) (loopback_ip cfg) (tld cfg)) = (r1, h1)"
    and "remove_browser_policy M (os_const M) (loopback_ip cfg) (r1, h1) = (r2, h')"
    and "removed r = removed r2"
proof -
  obtain r1 h1 where ex: "execute M ''unconfigure-os'' (loopback_ip cfg) None
      (unconfigure_resolver_steps (os_const M) (loopback_ip cfg) (tld cfg)) h0 = (r1, h1)" by fastforce
  obtain r2 h2 where pol: "remove_browser_policy M (os_const M) (loopback_ip cfg) (r1, h1) = (r2, h2)" by fastforce
  from assms ex pol have "h' = h2" "removed r = removed r2"
    by (auto simp: unconfigure_def Let_def)
  with that [OF ex [unfolded execute_def]] pol show thesis by blast
qed

lemma unconfigure_drops:
  assumes "unconfigure M cfg h = (r, h')" "tidy (artifacts (os_const M) (tld cfg)) (disk h)"
  shows "drops (artifacts (os_const M) (tld cfg)) (marked (os_const M) (tld cfg)) (loopback_ip cfg) (removed r)
    (disk h) (disk h')"
proof -
  let ?os = "os_const M" and ?t = "tld cfg" and ?ip = "loopback_ip cfg"
  let ?drops = "drops (artifacts ?os ?t) (marked ?os ?t) ?ip"
  obtain el h0 where el: "is_elevated M h = (el, h0)" by fastforce
  have h0: "disk h0 = disk h" using is_elevated_disk [OF el] .
  show ?thesis
  proof (cases "el \<and> is_supported ?os")
    case True
    then have "is_elevated M h = (True, h0)" "is_supported ?os" using el by simp_all
    from unconfigure_parts [OF assms(1) this] obtain r1 h1 r2 where
      ex: "foldl (\<lambda>s st. execute_step M ?ip st s) ((report_started ''unconfigure-os'' ?os)\<lparr>resolver := None\<rparr>, h0)
         (unconfigure_resolver_steps ?os ?ip ?t) = (r1, h1)"
      and pol: "remove_browser_policy M ?os ?ip (r1, h1) = (r2, h')" and r: "removed r = removed r2" by blast
    from steps_drop [OF ex _ marked_subset unconfigure_plan] assms(2) h0
    have a1: "?drops (removed r1) (disk h) (disk h1)" by simp
    then have t1: "tidy (artifacts ?os ?t) (disk h1)" by (simp add: drops_def)
    from policy_drops [OF pol t1] obtain ls where ls: "removed r2 = removed r1 @ ls" "?drops ls (disk h1) (disk h')"
      by blast
    show ?thesis unfolding r ls(1) by (rule drops_trans [OF a1 ls(2)])
  next
    case False
    from refused(2) [OF el False, of cfg] assms(1) have "removed r = []" "h' = h0" by auto
    then show ?thesis by (simp only: h0 drops_refl [OF assms(2)])
  qed
qed

text \<open>Without failing calls, everything marked goes.\<close>

lemma remove_file_faults: "remove_file p w = (x, w') \<Longrightarrow> faults w = [] \<Longrightarrow> faults w' = []"
  by (auto simp: remove_file_def faulty_def del_entry_def split: sum.splits option.splits if_splits)

lemma remove_if_ours_faults: "remove_if_ours p ip w = (x, w') \<Longrightarrow> faults w = [] \<Longrightarrow> faults w' = []"
  using remove_file_faults by (auto simp: remove_if_ours_def split: if_splits prod.splits sum.splits)

lemma remove_if_ours_gone:
  assumes "remove_if_ours p ip w = (x, w')" "artifact_ok (lookup w) p" "faults w = []"
  shows "\<not> file_is_ours w' p ip"
  using remove_artifact [OF assms(1,2)] deleted_artifacts [OF assms(2,2)] assms(2,3)
  by (auto simp: artifact_owned)

lemma dropping_step_gone:
  assumes "execute_step M ip st (r, h) = (r', h')" "dropping_step B st" "tidy B (disk h)" "faults (disk h) = []"
  shows "faults (disk h') = [] \<and> (\<forall>p. st = RemoveOurs p \<longrightarrow> \<not> file_is_ours (disk h') (path_of p) ip)"
proof (cases st)
  case (RemoveOurs p)
  obtain x d where w: "remove_if_ours (path_of p) ip (disk h) = (x, d)" by fastforce
  have "artifact_ok (lookup (disk h)) (path_of p)" using assms(2,3) RemoveOurs by (simp add: tidy_def)
  from remove_if_ours_gone [OF w this assms(4)] remove_if_ours_faults [OF w assms(4)] RemoveOurs assms(1) w
  show ?thesis by (cases x; cases "x = Ok True") (auto simp: on_disk_def split: bool.splits)
next
  case (Ps c l b)
  obtain x h1 where "run_ps M c h = (x, h1)" by fastforce
  with Ps assms ps_disk [OF this] show ?thesis by (cases x; cases b) auto
qed (use assms in \<open>auto simp: tool_disk\<close>)

lemma steps_gone:
  assumes "foldl (\<lambda>s st. execute_step M ip st s) (r, h) sts = (r', h')" "\<forall>st\<in>set sts. dropping_step B st"
    and "tidy B (disk h)" "faults (disk h) = []"
  shows "faults (disk h') = [] \<and> (\<forall>p. RemoveOurs p \<in> set sts \<longrightarrow> \<not> file_is_ours (disk h') (path_of p) ip)"
  using assms
proof (induction sts arbitrary: r h)
  case (Cons st sts)
  obtain r1 h1 where s: "execute_step M ip st (r, h) = (r1, h1)" by fastforce
  with Cons.prems(1) have rest: "foldl (\<lambda>s st. execute_step M ip st s) (r1, h1) sts = (r', h')" by simp
  have g: "faults (disk h1) = []" "st = RemoveOurs p \<Longrightarrow> \<not> file_is_ours (disk h1) (path_of p) ip" for p
    using dropping_step_gone [OF s] Cons.prems by auto
  obtain ls where "drops B B ip ls (disk h) (disk h1)"
    using execute_step_drops [OF s Cons.prems(3) subset_refl] Cons.prems(2) by auto
  then have t1: "tidy B (disk h1)" by (simp add: drops_def)
  from steps_drop [OF rest t1 subset_refl] Cons.prems(2) obtain ls'
    where d: "drops B B ip ls' (disk h1) (disk h')" by auto
  have "\<not> file_is_ours (disk h') (path_of p) ip" if "st = RemoveOurs p" for p
  proof -
    have "path_of p \<in> B" using Cons.prems(2) that by auto
    with g(2) [OF that] d show ?thesis by (auto simp: drops_def wiring_def)
  qed
  with Cons.IH [OF rest _ t1 g(1)] Cons.prems(2) show ?case by auto
qed simp

lemma unconfigure_gone:
  assumes "unconfigure M cfg h = (r, h')" "tidy (artifacts (os_const M) (tld cfg)) (disk h)"
    and "faults (disk h) = []" "fst (is_elevated M h)"
  shows "wiring (marked (os_const M) (tld cfg)) (loopback_ip cfg) (disk h') = {}"
proof (cases "is_supported (os_const M)")
  case True
  let ?os = "os_const M" and ?t = "tld cfg" and ?ip = "loopback_ip cfg"
  obtain h0 where el: "is_elevated M h = (True, h0)" using assms(4) by (cases "is_elevated M h") auto
  have h0: "disk h0 = disk h" using is_elevated_disk [OF el] .
  from unconfigure_parts [OF assms(1) el True] obtain r1 h1 r2 where
    ex: "foldl (\<lambda>s st. execute_step M ?ip st s) ((report_started ''unconfigure-os'' ?os)\<lparr>resolver := None\<rparr>, h0)
       (unconfigure_resolver_steps ?os ?ip ?t) = (r1, h1)"
    and pol: "remove_browser_policy M ?os ?ip (r1, h1) = (r2, h')" .
  note g = steps_gone [OF ex unconfigure_plan] assms(2,3) h0
  from steps_drop [OF ex _ marked_subset unconfigure_plan] assms(2) h0
  have t1: "tidy (artifacts ?os ?t) (disk h1)" by (auto simp: drops_def)
  from policy_drops [OF pol t1] obtain ls where
    d: "drops (artifacts ?os ?t) (marked ?os ?t) ?ip ls (disk h1) (disk h')" by blast
  have "\<not> file_is_ours (disk h') p ?ip" if p: "p \<in> marked ?os ?t" for p
  proof (cases "?os = ''macos'' \<and> p = path_of MACOS_CHROME_PLIST")
    case True
    obtain x d' where w: "remove_if_ours (path_of MACOS_CHROME_PLIST) ?ip (disk h1) = (x, d')" by fastforce
    have "artifact_ok (lookup (disk h1)) (path_of MACOS_CHROME_PLIST)"
      using t1 True by (simp add: tidy_def artifacts_def)
    from remove_if_ours_gone [OF w this] g have "\<not> file_is_ours d' (path_of MACOS_CHROME_PLIST) ?ip" by simp
    moreover have "disk h' = d'"
      using pol w True by (cases x; cases "x = Ok True")
        (auto simp: remove_browser_policy_def on_disk_def split: bool.splits)
    ultimately show ?thesis using True by simp
  next
    case False
    with p True have "\<exists>s. RemoveOurs s \<in> set (unconfigure_resolver_steps ?os ?ip ?t) \<and> path_of s = p"
      by (auto simp: marked_def artifacts_def unconfigure_resolver_steps_def split: if_splits)
    with g have "\<not> file_is_ours (disk h1) p ?ip" by auto
    with p d show ?thesis by (auto simp: drops_def wiring_def)
  qed
  then show ?thesis by (auto simp: wiring_def)
next
  case False
  then have "marked (os_const M) (tld cfg) = {}"
    by (auto simp: is_supported_def marked_def artifacts_def)
  then show ?thesis by (simp add: wiring_def)
qed

text \<open>The two policy files of Linux go too, and nobody looks at what they contain.\<close>

lemma remove_policy_file_gone:
  assumes "remove_policy_file (r, h) p = (r', h')" "artifact_ok (lookup (disk h)) (path_of p)" "faults (disk h) = []"
  shows "faults (disk h') = [] \<and> (\<forall>c. read_to_string (disk h') (path_of p) \<noteq> Ok c)"
proof -
  let ?p = "path_of p"
  obtain x d where x: "remove_file ?p (disk h) = (x, d)" by fastforce
  have lf: "linkfree (lookup (disk h)) ?p" using assms(2) by (simp add: artifact_ok_def)
  note rf = remove_file_artifact [OF x lf]
  have d: "artifact_ok (lookup d) ?p" "lookup d ?p = None \<or> lookup d = lookup (disk h)"
  proof -
    show "artifact_ok (lookup d) ?p"
      using rf assms(2) artifact_deleted [OF assms(2,2)] by (cases "is_ok x") simp_all
    show "lookup d ?p = None \<or> lookup d = lookup (disk h)" using rf(1) by simp
  qed
  have h': "disk h' = (if path_exists (disk h) ?p then d else disk h)"
    using assms(1) x by (cases x) (auto simp: on_disk_def split: if_splits)
  have "fnode e \<noteq> File c" if "lookup (disk h') ?p = Some e" for e c
  proof
    assume c: "fnode e = File c"
    with that h' d(2) have e: "lookup (disk h) ?p = Some e" by (auto split: if_splits)
    then have real: "real_path (lookup (disk h)) ?p" using assms(2) by (auto simp: artifact_ok_def)
    have "is_ok (fst (remove_file ?p (disk h)))"
      using assms(3) e c real by (simp add: remove_file_def faulty_def resolve_real)
    moreover have "path_exists (disk h) ?p"
      using e c real by (simp add: path_exists_def metadata_real is_link_at_Some)
    ultimately show False using rf(1) x h' that by simp
  qed
  moreover have "artifact_ok (lookup (disk h')) ?p" using h' d(1) assms(2) by simp
  ultimately show ?thesis
    using h' assms(3) remove_file_faults [OF x] artifact_read by fastforce
qed

lemma policy_files_gone:
  assumes "unconfigure M cfg h = (r, h')" "tidy (artifacts (os_const M) (tld cfg)) (disk h)"
    and "faults (disk h) = []" "fst (is_elevated M h)" "os_const M = ''linux''"
    and "q \<in> path_of ` {LINUX_CHROME_POLICY, LINUX_CHROMIUM_POLICY}"
  shows "read_to_string (disk h') q \<noteq> Ok c"
proof -
  let ?B = "artifacts ''linux'' (tld cfg)" and ?A = "marked ''linux'' (tld cfg)" and ?ip = "loopback_ip cfg"
  obtain h0 where el: "is_elevated M h = (True, h0)" using assms(4) by (cases "is_elevated M h") auto
  have h0: "disk h0 = disk h" using is_elevated_disk [OF el] .
  have sup: "is_supported (os_const M)" by (simp add: is_supported_def assms(5))
  from unconfigure_parts [OF assms(1) el sup, unfolded assms(5)] obtain r1 h1 r2 where
    ex: "foldl (\<lambda>s st. execute_step M ?ip st s) ((report_started ''unconfigure-os'' ''linux'')\<lparr>resolver := None\<rparr>, h0)
       (unconfigure_resolver_steps ''linux'' ?ip (tld cfg)) = (r1, h1)"
    and pol: "remove_browser_policy M ''linux'' ?ip (r1, h1) = (r2, h')" .
  have t0: "tidy ?B (disk h0)" using assms(2,5) h0 by simp
  from steps_gone [OF ex unconfigure_plan t0] assms(3) h0 have f1: "faults (disk h1) = []" by simp
  from steps_drop [OF ex t0 marked_subset unconfigure_plan] have t1: "tidy ?B (disk h1)" by (auto simp: drops_def)
  obtain ra ha where a: "remove_policy_file (r1, h1) LINUX_CHROME_POLICY = (ra, ha)" by fastforce
  with pol have b: "remove_policy_file (ra, ha) LINUX_CHROMIUM_POLICY = (r2, h')"
    by (simp add: remove_browser_policy_def del: remove_policy_file.simps)
  have in_B: "path_of LINUX_CHROME_POLICY \<in> ?B - ?A" "path_of LINUX_CHROMIUM_POLICY \<in> ?B - ?A"
    by (simp_all add: artifacts_def marked_def artifact_paths)
  note ga = remove_policy_file_gone [OF a _ f1] and t1 = t1 [unfolded tidy_def]
  from remove_policy_drops [OF a _ marked_subset in_B(1), where ip = ?ip] t1 obtain la
    where "drops ?B ?A ?ip la (disk h1) (disk ha)" by (auto simp: tidy_def)
  then have ta: "tidy ?B (disk ha)" by (simp add: drops_def)
  from remove_policy_drops [OF b ta marked_subset in_B(2)] obtain lb
    where db: "drops ?B ?A ?ip lb (disk ha) (disk h')" by blast
  have fa: "faults (disk ha) = []" using ga t1 in_B by blast
  have gb: "read_to_string (disk h') (path_of LINUX_CHROMIUM_POLICY) \<noteq> Ok c"
    using remove_policy_file_gone [OF b _ fa] ta in_B by (auto simp: tidy_def)
  have "read_to_string (disk h') (path_of LINUX_CHROME_POLICY) \<noteq> Ok c"
  proof
    let ?p = "path_of LINUX_CHROME_POLICY"
    assume "read_to_string (disk h') ?p = Ok c"
    moreover have "artifact_ok (lookup (disk h')) ?p" using db in_B by (auto simp: tidy_def drops_def)
    ultimately obtain e where e: "lookup (disk h') ?p = Some e" "fnode e = File c" by (auto simp: artifact_read)
    have "lookup (disk h') ?p = lookup (disk ha) ?p \<or> lookup (disk h') ?p = None"
      using dropsD(3) [OF db, of ?p] by (elim disjE conjE) simp_all
    with e have "lookup (disk ha) ?p = Some e" by simp
    moreover have "artifact_ok (lookup (disk ha)) ?p" using ta in_B by (auto simp: tidy_def)
    ultimately have "read_to_string (disk ha) ?p = Ok c" using e(2) by (auto simp: artifact_read)
    with ga t1 in_B show False by blast
  qed
  with gb assms(6) show ?thesis by auto
qed

section \<open>The outcome of configuring\<close>

text \<open>No step touches the flags of the report.\<close>

definition flags :: "os_report \<Rightarrow> bool \<times> bool \<times> bool" where
  "flags r = (needs_elevation r, activated r, reboot_required r)"

lemma flags_simps [simp]:
  "flags (push_applied l r) = flags r" "flags (push_removed l r) = flags r" "flags (add_note m r) = flags r"
  "flags ((report_started act os)\<lparr>resolver := x\<rparr>) = (False, False, False)"
  by (simp_all add: flags_def push_applied_def push_removed_def add_note_def report_started_def)

lemma execute_step_flags: "flags (fst (execute_step M ip st (r, h))) = flags r"
proof (cases st)
  case (RemoveOurs p)
  obtain x d where "on_disk (remove_if_ours (path_of p) ip) h = (x, d)" by fastforce
  with RemoveOurs show ?thesis by (cases x; cases "x = Ok True") (auto split: bool.splits)
next
  case (Ps c l b)
  obtain x d where "run_ps M c h = (x, d)" by fastforce
  with Ps show ?thesis by (cases x; cases b) auto
next
  case (Write p c)
  obtain x d where "on_disk (write_if_changed (process_id M) (path_of p) c) h = (x, d)" by fastforce
  with Write show ?thesis by (cases x) auto
qed simp_all

lemma foldl_same:
  assumes "\<And>s x. f (g s x) = f s"
  shows "f (foldl g s xs) = f s"
  by (induction xs arbitrary: s) (simp_all add: assms)

lemma execute_flags: "flags (fst (execute M act ip res sts h)) = (False, False, False)"
proof -
  have "flags (fst (foldl (\<lambda>s st. execute_step M ip st s) s sts)) = flags (fst s)" for s
    by (rule foldl_same [where f = "\<lambda>s. flags (fst s)"]) (metis execute_step_flags prod.collapse)
  then show ?thesis by (simp add: execute_def)
qed

lemma policy_flags: "flags (fst (apply_browser_policy M policy os ip (r, h))) = flags r"
proof -
  have w: "flags (fst (apply_windows_one M s b)) = flags (fst s)" for s b
  proof -
    obtain r h browser key where s: "s = (r, h)" "b = (browser, key)" by fastforce
    obtain x h1 where "apply_windows_browser_policy M key h = (x, h1)" by fastforce
    with s show ?thesis by (cases x; cases "x = Ok True") (simp_all split: bool.split)
  qed
  have l: "flags (fst (write_policy_file M policy s p)) = flags (fst s)" for s p
    unfolding write_policy_step [where ip = ip] by (metis execute_step_flags prod.collapse)
  have m: "flags (fst (apply_macos_browser_policy M ip (r, h))) = flags r"
  proof -
    obtain x d where "on_disk (write_if_changed (process_id M) (path_of MACOS_CHROME_PLIST) chrome_managed_plist) h = (x, d)"
      by fastforce
    then show ?thesis by (cases x) (simp_all add: apply_macos_browser_policy_def)
  qed
  have fl: "flags (fst (foldl (write_policy_file M policy) (r, h) ps)) = flags r" for ps
    using foldl_same [where f = "\<lambda>s. flags (fst s)" and g = "write_policy_file M policy", OF l] by simp
  have fw: "flags (fst (foldl (apply_windows_one M) (r, h) bs)) = flags r" for bs
    using foldl_same [where f = "\<lambda>s. flags (fst s)" and g = "apply_windows_one M", OF w] by simp
  show ?thesis
    unfolding apply_browser_policy_def using fl fw m
    by (cases "os = ''linux''"; cases "os = ''macos''"; cases "os = ''windows''")
       (simp_all add: split_beta Let_def del: foldl.simps)
qed

lemma policy_applied_nonempty:
  "applied r \<noteq> [] \<Longrightarrow> tidy (artifacts os t) (disk h)
     \<Longrightarrow> applied (fst (apply_browser_policy M policy os ip (r, h))) \<noteq> []"
  using policy_adds [of M policy os ip r h "fst (apply_browser_policy M policy os ip (r, h))"
      "snd (apply_browser_policy M policy os ip (r, h))" t] by auto

section \<open>Properties\<close>

text \<open>C28. What \<open>unconfigure-os\<close> deletes, exactly. It changes a path only by deleting it and reports every deletion.
  Of the resolver files it deletes only those that carry the mark of the tool or of its old installer, whatever else
  is at the same path stays; the two browser policy files of Linux, which have a name of the tool's own, it deletes
  whatever they contain, without looking for a mark. And, run with the needed rights and without failing calls, it
  leaves none of these. The file system has the usual shape, no links above the artifacts (so not a macOS, whose
  \<open>/etc\<close> is a link).\<close>

theorem unconfigure_deletions:
  assumes "tidy (artifacts (os_const M) (tld cfg)) (disk h)" "unconfigure M cfg h = (r, h')"
  shows "(\<forall>q. lookup (disk h') q \<noteq> lookup (disk h) q \<longrightarrow>
      lookup (disk h') q = None \<and> q \<in> path_of ` set (removed r)
      \<and> (q \<in> marked (os_const M) (tld cfg) \<and> file_is_ours (disk h) q (loopback_ip cfg)
         \<or> os_const M = ''linux'' \<and> q \<in> path_of ` {''/etc/opt/chrome/policies/managed/dig-dns.json'',
             ''/etc/chromium/policies/managed/dig-dns.json''}))
    \<and> (faults (disk h) = [] \<and> fst (is_elevated M h) \<longrightarrow>
        (\<forall>q\<in>marked (os_const M) (tld cfg). \<not> file_is_ours (disk h') q (loopback_ip cfg))
        \<and> (os_const M = ''linux'' \<longrightarrow> (\<forall>q\<in>path_of ` {''/etc/opt/chrome/policies/managed/dig-dns.json'',
             ''/etc/chromium/policies/managed/dig-dns.json''}. \<forall>c. read_to_string (disk h') q \<noteq> Ok c)))"
proof -
  note names = LINUX_CHROME_POLICY_def [symmetric] LINUX_CHROMIUM_POLICY_def [symmetric]
  have "lookup (disk h') q = None \<and> q \<in> path_of ` set (removed r)
      \<and> (q \<in> marked (os_const M) (tld cfg) \<and> file_is_ours (disk h) q (loopback_ip cfg)
         \<or> os_const M = ''linux'' \<and> q \<in> path_of ` {LINUX_CHROME_POLICY, LINUX_CHROMIUM_POLICY})"
    if "lookup (disk h') q \<noteq> lookup (disk h) q" for q
  proof -
    from unconfigure_drops [OF assms(2,1)] that
    have "lookup (disk h') q = None" "q \<in> path_of ` set (removed r)" "q \<in> artifacts (os_const M) (tld cfg)"
      "q \<in> marked (os_const M) (tld cfg) \<longrightarrow> file_is_ours (disk h) q (loopback_ip cfg)"
      unfolding drops_def by blast+
    then show ?thesis by (auto simp: marked_def artifacts_def split: if_splits)
  qed
  moreover have "\<forall>q\<in>marked (os_const M) (tld cfg). \<not> file_is_ours (disk h') q (loopback_ip cfg)"
    if "faults (disk h) = []" "fst (is_elevated M h)"
    using unconfigure_gone [OF assms(2,1) that] by (auto simp: wiring_def)
  ultimately show ?thesis
    unfolding names using policy_files_gone [OF assms(2,1)] by blast
qed

text \<open>C29. What the report of \<open>configure-os\<close> means: it is refused, and does nothing, exactly when the caller is not
  elevated or the platform is not supported; otherwise it is reported ok, even when every write failed; it says
  activated only if the resolver of the system returned the configured loopback address for a probe name, and asks
  for a restart only when something was applied and the probe did not. (The file system has the usual shape, which a
  macOS, whose \<open>/etc\<close> is a link, has not.)\<close>

theorem configure_outcome:
  assumes "configure M policy cfg browser h = (r, h')" "is_elevated M h = (el, h0)"
    and "tidy (artifacts (os_const M) (tld cfg)) (disk h)"
  shows "(os_ok r \<longleftrightarrow> el \<and> is_supported (os_const M)) \<and> (needs_elevation r \<longleftrightarrow> \<not> el)
    \<and> (\<not> os_ok r \<longrightarrow> h' = h0 \<and> applied r = [])
    \<and> (activated r \<longrightarrow> (\<exists>m. V4 (loopback_ip cfg) \<in> set (fst (getaddrinfo M (''configure-probe.'' @ tld cfg @ '':0'') m))))
    \<and> (reboot_required r \<longrightarrow> \<not> activated r \<and> applied r \<noteq> [])"
proof (cases "el \<and> is_supported (os_const M)")
  case True
  let ?os = "os_const M" and ?t = "tld cfg" and ?ip = "loopback_ip cfg"
  from True have "is_elevated M h = (True, h0)" "is_supported ?os" using assms(2) by simp_all
  from configure_parts [OF assms(1) this] obtain res r1 h1 r2 h2 act where
    ex: "foldl (\<lambda>s st. execute_step M ?ip st s) ((report_started ''configure-os'' ?os)\<lparr>resolver := res\<rparr>, h0)
       (configure_resolver_steps ?os (if ?os = ''linux'' then detect_resolv_owner_live (disk h0) else Unknown) ?ip ?t) = (r1, h1)"
    and pol: "(if browser then apply_browser_policy M policy ?os ?ip (r1, h1) else (r1, h1)) = (r2, h2)"
    and ver: "(if applied r1 \<noteq> [] then verify_os_routing M cfg h2 else (False, h2)) = (act, h')"
    and r: "r = (apply_activation_result ?os (applied r1 \<noteq> []) act r2)\<lparr>os_ok := True\<rparr>" by metis
  have h0: "disk h0 = disk h" using is_elevated_disk [OF assms(2)] .
  have t1: "tidy (artifacts ?os ?t) (disk h1)"
    using steps_add [OF ex _ artifacts_separated marked_subset configure_plan] assms(3) h0
    by (auto simp: adds_def)
  have fl: "flags r2 = (False, False, False)"
    using pol execute_flags [of M "''configure-os''" ?ip res _ h0, unfolded execute_def] ex
      policy_flags [of M policy ?os ?ip r1 h1]
    by (cases browser) (metis fst_conv)+
  have ap: "applied r1 \<noteq> [] \<Longrightarrow> applied r2 \<noteq> []"
    using pol policy_applied_nonempty [OF _ t1] by (cases browser) (metis fst_conv)+
  have "V4 ?ip \<in> set (fst (getaddrinfo M (''configure-probe.'' @ ?t @ '':0'') (procs h2)))" if act
    using ver that by (auto simp: verify_os_routing_def on_procs_def split_beta Let_def split: if_splits)
  with r fl ap True show ?thesis
    by (auto simp: apply_activation_result_def Let_def flags_def)
next
  case False
  then show ?thesis
    using assms(1) unfolding configure_def Let_def assms(2) prod.case
    by (cases el) (auto simp: not_elevated_def unsupported_def report_started_def add_note_def)
qed

text \<open>A Linux machine run by root with the drop-in of the old installer and an administrator's own resolver file;
  no owner of \<open>resolv.conf\<close> is detected, and the resolver knows nothing.\<close>

definition wired_machine :: "unit machine" where
  "wired_machine = \<lparr>sys = \<lparr>cmd_status = (\<lambda>c as m. (Ok True, m)), cmd_output = (\<lambda>c as m. (Ok (True, ''0'', []), m))\<rparr>,
     os_const = ''linux'', system32 = [], process_id = 7, getaddrinfo = (\<lambda>n m. ([], m))\<rparr>"

definition wired_dir :: fentry where "wired_dir = \<lparr>fnode = Dir, fuid = 0, fgid = 0, fmode = 0x1ED\<rparr>"
definition wired_file :: "string \<Rightarrow> fentry" where
  "wired_file c = \<lparr>fnode = File c, fuid = 0, fgid = 0, fmode = 0x1A4\<rparr>"

definition wired_host :: "io_error option list \<Rightarrow> unit host" where
  "wired_host fs = \<lparr>disk = \<lparr>tree = [([], wired_dir), ([''etc''], wired_dir), ([''etc'', ''systemd''], wired_dir),
       ([''etc'', ''systemd'', ''resolved.conf.d''], wired_dir),
       ([''etc'', ''systemd'', ''resolved.conf.d'', ''dig.conf''], wired_file LEGACY_INSTALLER_MARKER),
       ([''etc'', ''systemd'', ''resolved.conf.d'', ''own.conf''], wired_file ''nameserver 10.0.0.1'')],
     faults = fs, umask = 0\<rparr>, procs = ()\<rparr>"

lemma wired_tidy: "tidy (artifacts (os_const wired_machine) t) (disk (wired_host fs))"
proof -
  have "list_all (artifact_ok (lookup (disk (wired_host fs))))
     [[''etc'', ''systemd'', ''resolved.conf.d'', ''dig.conf''],
      [''etc'', ''NetworkManager'', ''dnsmasq.d'', ''dig.conf''],
      [''etc'', ''opt'', ''chrome'', ''policies'', ''managed'', ''dig-dns.json''],
      [''etc'', ''chromium'', ''policies'', ''managed'', ''dig-dns.json'']]"
    by code_simp
  then show ?thesis
    by (simp add: tidy_def artifacts_def wired_machine_def artifact_paths)
qed

text \<open>The old installer's drop-in goes, the administrator's own resolver file stays, and a policy file that somebody
  else put under the tool's name goes too.\<close>

definition policy_path :: path where
  "policy_path = [''etc'', ''chromium'', ''policies'', ''managed'', ''dig-dns.json'']"

definition org_host :: "unit host" where
  "org_host = (wired_host [])\<lparr>disk := (disk (wired_host []))\<lparr>tree := tree (disk (wired_host [])) @
     [(take 2 policy_path, wired_dir), (take 3 policy_path, wired_dir), (take 4 policy_path, wired_dir),
      (policy_path, wired_file ''an organisation's policy'')]\<rparr>\<rparr>"

theorem unconfigure_deletions_witness:
  "read_to_string (disk org_host) policy_path = Ok ''an organisation's policy''
   \<and> (\<forall>c. read_to_string (disk (snd (unconfigure wired_machine default_config org_host))) policy_path \<noteq> Ok c)
   \<and> lookup (disk (snd (unconfigure wired_machine default_config org_host)))
       [''etc'', ''systemd'', ''resolved.conf.d'', ''own.conf'']
     = lookup (disk org_host) [''etc'', ''systemd'', ''resolved.conf.d'', ''own.conf'']"
proof -
  let ?u = "unconfigure wired_machine default_config org_host"
  have "list_all (artifact_ok (lookup (disk org_host)))
     [path_of LINUX_RESOLVED_DROPIN, path_of LINUX_NM_DNSMASQ_CONF, path_of LINUX_CHROME_POLICY, path_of LINUX_CHROMIUM_POLICY]"
    by code_simp
  then have t: "tidy (artifacts (os_const wired_machine) (tld default_config)) (disk org_host)"
    by (simp add: tidy_def artifacts_def wired_machine_def)
  have u: "unconfigure wired_machine default_config org_host = (fst ?u, snd ?u)" by simp
  have "faults (disk org_host) = [] \<and> fst (is_elevated wired_machine org_host)"
    "read_to_string (disk org_host) policy_path = Ok ''an organisation's policy''"
    "os_const wired_machine = ''linux''" "policy_path = path_of ''/etc/chromium/policies/managed/dig-dns.json''"
    by code_simp+
  moreover have "[''etc'', ''systemd'', ''resolved.conf.d'', ''own.conf''] \<notin> marked ''linux'' (tld default_config)"
    "[''etc'', ''systemd'', ''resolved.conf.d'', ''own.conf''] \<notin> path_of ` {''/etc/opt/chrome/policies/managed/dig-dns.json'',
             ''/etc/chromium/policies/managed/dig-dns.json''}"
    using artifact_paths by (simp_all add: marked_def LINUX_CHROME_POLICY_def LINUX_CHROMIUM_POLICY_def)
  ultimately show ?thesis using unconfigure_deletions [OF t u] by auto
qed

text \<open>Every write fails (the disk is full), and still the report is ok.\<close>

theorem configure_outcome_witness:
  "os_ok (fst (configure wired_machine [] default_config True
     (wired_host (replicate 20 (Some (io_other ''No space left on device''))))))"
proof -
  let ?h = "wired_host (replicate 20 (Some (io_other ''No space left on device'')))"
  let ?c = "configure wired_machine [] default_config True ?h"
  have c: "configure wired_machine [] default_config True ?h = (fst ?c, snd ?c)" by simp
  have e: "is_elevated wired_machine ?h = (True, ?h)" by code_simp
  have "is_supported (os_const wired_machine)" by code_simp
  with configure_outcome [OF c e wired_tidy] show ?thesis by blast
qed

end
