(* ===== verification/System.thy ===== *)
theory System
  imports ServiceRun ServerSpec OsConfigSpec
begin

text \<open>
  The program as a whole: the commands of \<open>src/cli.rs\<close> with the models of the components behind them, on one
  machine (\<open>'m host\<close>), and the properties of the command line.
\<close>

section \<open>The components behind the commands\<close>

text \<open>What comes from outside the sources, gathered: the machine, the crates, the process.\<close>

record ('v, 'm, 'b, 'p, 'k, 'l, 'u, 'r, 'c) outside =
  the_machine :: "'m machine"
  host_tools :: "'m host sys_ops"
  codec :: codec_ops
  jsons :: "'v json_ops"
  json_io :: "'v json_text_ops"
  json_parse :: "string \<Rightarrow> 'v option"
  json_print :: "'v \<Rightarrow> string"
  digstore :: "('b, 'p, 'k) digstore_ops"
  base64 :: "string \<Rightarrow> bytes option"
  new_resolver :: "string + unit"
  new_client :: "bool \<Rightarrow> string + ('m, 'v) http_ops"
  dig_node_port :: u16
  net :: "('l, 'u, 'm) net_ops"
  probes :: "('v, 'm) probe_ops"
  upstream :: "(io_error, 'r, 'm) dns_ops"
  tcp :: "('c, 'm host) tcp_ops"
  manager :: "'m host manager_ops"
  current_exe :: "io_error + string"
  sleeps :: "nat \<Rightarrow> 'm \<Rightarrow> 'm"
  environ :: "string \<Rightarrow> string option"
  work_dir :: path
  chrome_policy :: string
  uri_parser :: "string \<Rightarrow> uri option"
  status_client :: "(string \<Rightarrow> 'm \<Rightarrow> u16 option \<times> 'm) option"
  tokio_runtime :: "'m host \<Rightarrow> (io_error + unit) \<times> 'm host"
  dispatcher :: "('m host \<Rightarrow> 'm host) \<Rightarrow> 'm host \<Rightarrow> (string + unit) \<times> 'm host"
  register_handler :: "'m host \<Rightarrow> (string + (service_status \<Rightarrow> 'm host \<Rightarrow> (string + unit) \<times> 'm host)) \<times> 'm host"
  serve_tasks :: "'m node_client \<Rightarrow> ctx \<Rightarrow> 'l \<Rightarrow> (io_error + 'u \<times> 'l) \<Rightarrow> 'm host \<Rightarrow> 'm host"
  uri_error :: "string \<Rightarrow> string"

definition the_os :: "('v, 'm, 'b, 'p, 'k, 'l, 'u, 'r, 'c) outside \<Rightarrow> os" where
  "the_os E = platform_of (os_const (the_machine E))"

text \<open>The service manager of the platform: systemd on Linux, the crate \<open>service_manager\<close> elsewhere. Its tools, and
  the services they start and stop, work on the whole machine (\<open>host_tools\<close>).\<close>

definition service_platform :: "('v, 'm, 'b, 'p, 'k, 'l, 'u, 'r, 'c) outside \<Rightarrow> 'm host platform_ops" where
  "service_platform E =
     (let M = the_machine E
      in if the_os E = Linux
         then linux_platform (sys M) (host_tools E) (process_id M) (map_res path_of (current_exe E)) (sleeps E)
         else managed_platform (the_os E) (host_tools E) (system32 M) (tool M) (manager E) (current_exe E)
                (\<lambda>ms h. h\<lparr>procs := sleeps E ms (procs h)\<rparr>))"

definition serve_op ::
  "('v, 'm, 'b, 'p, 'k, 'l, 'u, 'r, 'c) outside \<Rightarrow> config \<Rightarrow> 'm host \<Rightarrow> (server_error + unit) \<times> 'm host" where
  "serve_op E = serve_with_shutdown (jsons E) (json_io E) (base64 E) (new_resolver E) (new_client E) (dig_node_port E)
     (net E) (state_dir (the_os E) (environ E) (work_dir E)) (of_nat (process_id (the_machine E))) (serve_tasks E)"

definition system_ops ::
  "('v, 'm, 'b, 'p, 'k, 'l, 'u, 'r, 'c) outside \<Rightarrow> ('v, 'm host) cli_ops" where
  "system_ops E =
     \<lparr>platform = the_os E,
      env = environ E,
      runtime = tokio_runtime E,
      run_service = serve_op E,
      win_service = win_run (dispatcher E)
        (scm_service (register_handler E) (service_body (environ E) (tokio_runtime E) (serve_op E) (uri_error E))),
      fetch_op = (\<lambda>cfg target path. on_procs (fetch_resource (codec E) (jsons E) (digstore E) (base64 E)
        (new_resolver E) (new_client E) (dig_node_port E) (uri_parser E) cfg target path)),
      doctor_op = run_doctor (the_machine E) (jsons E) (json_parse E) (json_print E) (probes E) (upstream E),
      probe_port_op = (\<lambda>ip primary fallback. on_procs (probe_gateway_port (status_client E) ip primary fallback)),
      install_op = install (the_os E) (jsons E) (service_platform E),
      uninstall_op = uninstall (the_os E) (jsons E) (service_platform E),
      start_op = start_service (jsons E) (service_platform E),
      stop_op = stop_service (jsons E) (service_platform E),
      status_op = ManagedService.status (the_os E) (jsons E) (json_io E) (tcp E) (service_platform E) disk (environ E) (work_dir E),
      health_op = (\<lambda>cfg w. let (out, w) = health (jsons E) (json_parse E) (tcp E) cfg w in (Ok out, w)),
      configure_op = configure (the_machine E) (chrome_policy E),
      unconfigure_op = unconfigure (the_machine E),
      bad_path_text = uri_error E\<rparr>"

definition dig_dns ::
  "('v, 'm, 'b, 'p, 'k, 'l, 'u, 'r, 'c) outside \<Rightarrow> 'v printer \<Rightarrow> command \<Rightarrow> 'm host \<Rightarrow> outcome \<times> 'm host" where
  "dig_dns E P = run (codec E) (jsons E) P (system_ops E)"

section \<open>What the commands need\<close>

text \<open>The configuration a command loads, by its node flag; the other commands load none in \<open>run\<close>.\<close>

fun config_flag :: "bool \<Rightarrow> command \<Rightarrow> string option option" where
  "config_flag windows (Serve node) = Some node"
| "config_flag windows (Install node json) = Some node"
| "config_flag windows (Fetch target p node json) = Some node"
| "config_flag windows RunService = (if windows then None else Some None)"
| "config_flag windows (Status json) = Some None"
| "config_flag windows (Health json) = Some None"
| "config_flag windows (Doctor json) = Some None"
| "config_flag windows (ConfigureOs browser_policy json) = Some None"
| "config_flag windows (UnconfigureOs json) = Some None"
| "config_flag windows (PacCmd port json) = Some None"
| "config_flag windows _ = None"

definition with_flag :: "string option \<Rightarrow> config \<Rightarrow> config" where
  "with_flag node_flag cfg =
     (case opt_filter (\<lambda>s. s \<noteq> []) (map_option trim node_flag) of
        Some url \<Rightarrow> cfg\<lparr>node_url := Some url\<rparr>
      | None \<Rightarrow> cfg)"

lemma map_err_Ok_iff: "map_err f r = Ok a \<longleftrightarrow> r = Ok a"
  by (cases r) auto

lemma with_flag_simps:
  "with_flag None c = c"
  "with_flag (Some u) c = (if trim u \<noteq> [] then c\<lparr>node_url := Some (trim u)\<rparr> else c)"
  by (simp_all add: with_flag_def opt_filter_def)

lemma load_config_Ok_iff:
  "load_config get nflag = Ok cfg \<longleftrightarrow> (\<exists>c. from_env get = Ok c \<and> cfg = with_flag nflag c \<and> config_ok cfg)"
proof -
  have "(case nflag of Some url \<Rightarrow> if trim url \<noteq> [] then c\<lparr>node_url := Some (trim url)\<rparr> else c | None \<Rightarrow> c)
      = with_flag nflag c" for c
    by (cases nflag) (simp_all add: with_flag_simps)
  then show ?thesis
    unfolding load_config_def Let_def by (auto simp: rbind_Ok_iff map_err_Ok_iff validate_Ok_iff)
qed

lemma from_env_iff_spec: "from_env get = Ok cfg \<longleftrightarrow> env_spec get cfg \<and> config_ok cfg"
  using from_env_sound from_env_complete by blast

lemma run_without_config:
  assumes "config_flag (platform X = Windows) cmd = Some nflag" "load_config (env X) nflag = Err e"
  shows "run C J P X cmd w = (fail e, w)"
  using assms by (cases cmd) (auto simp: command_defs with_config_def split: if_splits)

lemma from_env_empty: "from_env (\<lambda>k. None) = Ok default_config"
proof (rule from_env_complete)
  show "env_spec (\<lambda>k. None) default_config"
    by (simp add: env_spec_def env_value_def default_config_def)
qed (rule default_config_ok)

lemma load_config_empty: "load_config (\<lambda>k. None) None = Ok default_config"
  by (simp add: load_config_Ok_iff from_env_empty with_flag_def default_config_ok)

section \<open>What a status object says\<close>

lemma json_serving:
  assumes "json_values J" "jget J obj ''serving'' = Some (jbool J b)" "k \<noteq> ''serving''"
  shows "jget J (jset J obj k x) ''serving'' = Some (jbool J b)"
  using json_values.set_get [OF assms(1), of obj "''serving''" k x] assms(2,3) by simp

lemma status_serving:
  assumes "json_values J"
  shows "\<exists>out w'. ManagedService.status pf J TJ T P dk get cwd cfg w = (Ok out, w')
    \<and> Option.bind (jget J (snd out) ''serving'') (as_bool J) = Some (fst (probe_serving T cfg w))"
proof -
  have obj: "jget J (jobj J [(''serving'', jbool J b), (''registered'', r), (''label'', l), (''addr'', a),
      (''state_dir'', d)]) ''serving'' = Some (jbool J b)" for b r l a d
    by (subst json_values.get_obj [OF assms]) simp_all
  note laws = json_values.bool_bool [OF assms]
  show ?thesis
    by (simp add: ManagedService.status_def Let_def split_beta laws obj json_serving [OF assms] split: option.split)
qed

section \<open>Properties\<close>

text \<open>What a command does with a configuration, told apart from what it prints: the exit code, and the machine
  afterwards.\<close>

fun settled :: "('a \<Rightarrow> exit_code) \<Rightarrow> ('e + 'a) \<times> 'w \<Rightarrow> exit_code \<times> 'w" where
  "settled code (Inl e, w) = (Failure, w)"
| "settled code (Inr a, w) = (code a, w)"

definition says_serving :: "'v json_ops \<Rightarrow> 'v service_outcome \<Rightarrow> exit_code" where
  "says_serving J out = success_if (Option.bind (jget J (snd out) ''serving'') (as_bool J) = Some True)"

definition with_tokio :: "('v, 'm, 'b, 'p, 'k, 'l, 'u, 'r, 'c) outside \<Rightarrow> ('m host \<Rightarrow> exit_code \<times> 'm host) \<Rightarrow> 'm host
    \<Rightarrow> exit_code \<times> 'm host" where
  "with_tokio E k h = (case tokio_runtime E h of (Inl e, h) \<Rightarrow> (Failure, h) | (Inr u, h) \<Rightarrow> k h)"

fun carried_out :: "('v, 'm, 'b, 'p, 'k, 'l, 'u, 'r, 'c) outside \<Rightarrow> config \<Rightarrow> command \<Rightarrow> 'm host
    \<Rightarrow> exit_code \<times> 'm host" where
  "carried_out E cfg (ConfigureOs browser_policy json) h =
     map_prod (\<lambda>r. success_if (os_ok r)) id (configure (the_machine E) (chrome_policy E) cfg browser_policy h)"
| "carried_out E cfg (UnconfigureOs json) h =
     map_prod (\<lambda>r. success_if (os_ok r)) id (unconfigure (the_machine E) cfg h)"
| "carried_out E cfg (Install node json) h =
     settled (\<lambda>out. Success) (install (the_os E) (jsons E) (service_platform E) cfg h)"
| "carried_out E cfg (Status json) h =
     settled (says_serving (jsons E)) (ManagedService.status (the_os E) (jsons E) (json_io E) (tcp E) (service_platform E)
       disk (environ E) (work_dir E) cfg h)"
| "carried_out E cfg (Health json) h =
     map_prod (says_serving (jsons E)) id (health (jsons E) (json_parse E) (tcp E) cfg h)"
| "carried_out E cfg (Doctor json) h = with_tokio E (\<lambda>h. map_prod (\<lambda>r. success_if (report_ok r)) id
     (run_doctor (the_machine E) (jsons E) (json_parse E) (json_print E) (probes E) (upstream E) cfg h)) h"
| "carried_out E cfg (Fetch target resource node json) h = with_tokio E (\<lambda>h.
     settled (\<lambda>resp. case resp of None \<Rightarrow> Panicked | Some r \<Rightarrow> success_if (Gateway.status r < 400))
       (on_procs (fetch_resource (codec E) (jsons E) (digstore E) (base64 E) (new_resolver E) (new_client E)
          (dig_node_port E) (uri_parser E) cfg target resource) h)) h"
| "carried_out E cfg (PacCmd (Some port) json) h = (Success, h)"
| "carried_out E cfg (PacCmd None json) h = with_tokio E (\<lambda>h. (Success, snd (on_procs
     (probe_gateway_port (status_client E) (loopback_ip cfg) (http_port cfg) (http_fallback_port cfg)) h))) h"
| "carried_out E cfg cmd h = with_tokio E (\<lambda>h. settled (\<lambda>u. Success) (serve_op E cfg h)) h"

definition exit_and_machine :: "outcome \<times> 'w \<Rightarrow> exit_code \<times> 'w" where
  "exit_and_machine = map_prod exit id"

lemma exit_and_machine_simps:
  "exit_and_machine (or_fail f k r) = settled (\<lambda>a. exit (k a)) r"
  "exit_and_machine (out, w) = (exit out, w)"
  by (cases "(f, k, r)" rule: or_fail.cases) (simp_all add: exit_and_machine_def fail_def)

lemma exits:
  "exit (print_service_outcome P out json) = Success" "exit (serving_outcome J P json out) = says_serving J out"
  "exit (print_os_config_report J P r json) = success_if (os_ok r)"
  "exit (doctor_outcome J P json d) = success_if (report_ok d)" "exit (pac_command J P json cfg port) = Success"
  "exit (print_fetch J P resp json) = success_if (Gateway.status resp < 400)" "exit (ended u) = Success"
  "exit (fail e) = Failure" "exit panicked = Panicked"
  by (auto simp: print_service_outcome_def serving_outcome_def says_serving_def print_os_config_report_def
      doctor_outcome_def pac_command_def print_fetch_def ended_def fail_def panicked_def Let_def unwrap_or_def
      split: option.split)

lemma with_runtime_exit:
  "(\<And>h. exit_and_machine (k h) = k' h) \<Longrightarrow> exit_and_machine (with_runtime (system_ops E) k h) = with_tokio E k' h"
  by (simp add: with_runtime_def with_tokio_def system_ops_def exit_and_machine_def exits split: sum.split prod.split)

lemma system_fields:
  "platform (system_ops E) = the_os E" "env (system_ops E) = environ E" "run_service (system_ops E) = serve_op E"
  "fetch_op (system_ops E) cfg target resource = on_procs (fetch_resource (codec E) (jsons E) (digstore E) (base64 E)
     (new_resolver E) (new_client E) (dig_node_port E) (uri_parser E) cfg target resource)"
  "doctor_op (system_ops E) =
     run_doctor (the_machine E) (jsons E) (json_parse E) (json_print E) (probes E) (upstream E)"
  "probe_port_op (system_ops E) ip primary fallback =
     on_procs (probe_gateway_port (status_client E) ip primary fallback)"
  "install_op (system_ops E) = install (the_os E) (jsons E) (service_platform E)"
  "status_op (system_ops E) = ManagedService.status (the_os E) (jsons E) (json_io E) (tcp E) (service_platform E) disk
     (environ E) (work_dir E)"
  "health_op (system_ops E) cfg h = (let (out, w) = health (jsons E) (json_parse E) (tcp E) cfg h in (Ok out, w))"
  "configure_op (system_ops E) = configure (the_machine E) (chrome_policy E)"
  "unconfigure_op (system_ops E) = unconfigure (the_machine E)"
  by (simp_all add: system_ops_def)

lemma run_with_config:
  assumes "config_flag (the_os E = Windows) cmd = Some nflag" "load_config (environ E) nflag = Ok cfg"
  shows "exit_and_machine (dig_dns E P cmd h) = carried_out E cfg cmd h"
  using assms
  by (cases "(E, cfg, cmd, h)" rule: carried_out.cases)
    (auto simp: dig_dns_def command_defs with_config_def system_fields exit_and_machine_simps exits fun_eq_iff
      split: if_splits prod.split option.split intro!: with_runtime_exit arg_cong [where f = "\<lambda>k. settled k _"])


text \<open>The commands that load no configuration when they start.\<close>

lemma dig_dns_environ:
  "dig_dns (E\<lparr>environ := get\<rparr>) P (Uninstall json) = dig_dns E P (Uninstall json)"
  "dig_dns (E\<lparr>environ := get\<rparr>) P (Start json) = dig_dns E P (Start json)"
  "dig_dns (E\<lparr>environ := get\<rparr>) P (Stop json) = dig_dns E P (Stop json)"
proof -
  have "service_platform (E\<lparr>environ := get\<rparr>) = service_platform E"
    by (cases "the_os E = Linux") (simp_all add: service_platform_def the_os_def Let_def)
  then show "dig_dns (E\<lparr>environ := get\<rparr>) P (Uninstall json) = dig_dns E P (Uninstall json)"
    "dig_dns (E\<lparr>environ := get\<rparr>) P (Start json) = dig_dns E P (Start json)"
    "dig_dns (E\<lparr>environ := get\<rparr>) P (Stop json) = dig_dns E P (Stop json)"
    by (simp_all add: fun_eq_iff dig_dns_def command_defs system_ops_def the_os_def)
qed

lemma dig_dns_pure:
  "snd (dig_dns E P (Label how) h) = h" "snd (dig_dns E P (ConfigCmd json) h) = h"
  by (simp_all add: dig_dns_def command_defs)

text \<open>C37. Every command that takes a configuration runs with the environment's, and with no other. When some
  reading of the environment is valid, with a non-blank \<open>--node\<close> in the place of its node URL, the exit code and
  the machine afterwards are those of the command's operation applied to exactly that configuration; when none is,
  the command fails and leaves the machine as it was. Of the other commands, \<open>uninstall\<close>, \<open>start\<close> and
  \<open>stop\<close> do not look at the environment, so that a service with a bad configuration can still be removed, and the
  label commands and \<open>config\<close> leave the machine as it was. (On Windows \<open>run-service\<close> is started by the service
  manager and loads its configuration inside the service.)\<close>

theorem commands_use_loaded_config:
  "case config_flag (the_os E = Windows) cmd of
     Some nflag \<Rightarrow>
       (\<forall>c. env_spec (environ E) c \<and> config_ok c \<and> config_ok (with_flag nflag c)
          \<longrightarrow> exit_and_machine (dig_dns E P cmd h) = carried_out E (with_flag nflag c) cmd h)
       \<and> ((\<nexists>c. env_spec (environ E) c \<and> config_ok c \<and> config_ok (with_flag nflag c))
          \<longrightarrow> (\<exists>e. dig_dns E P cmd h = (fail e, h)))
   | None \<Rightarrow>
       if cmd \<in> range Uninstall \<union> range Start \<union> range Stop
       then \<forall>get. dig_dns (E\<lparr>environ := get\<rparr>) P cmd h = dig_dns E P cmd h
       else cmd \<noteq> RunService \<longrightarrow> snd (dig_dns E P cmd h) = h"
proof (cases "config_flag (the_os E = Windows) cmd")
  case None
  then show ?thesis by (cases cmd) (auto simp: dig_dns_environ dig_dns_pure)
next
  case flag: (Some nflag)
  have "exit_and_machine (dig_dns E P cmd h) = carried_out E (with_flag nflag c) cmd h"
    if "env_spec (environ E) c" "config_ok c" "config_ok (with_flag nflag c)" for c
    by (rule run_with_config [OF flag]) (use that in \<open>auto simp: load_config_Ok_iff from_env_iff_spec\<close>)
  moreover have "\<exists>e. dig_dns E P cmd h = (fail e, h)"
    if none: "\<nexists>c. env_spec (environ E) c \<and> config_ok c \<and> config_ok (with_flag nflag c)"
  proof (cases "load_config (environ E) nflag")
    case (Inl e)
    with run_without_config [of "system_ops E" cmd nflag e] flag show ?thesis
      by (auto simp: system_fields dig_dns_def)
  next
    case (Inr cfg)
    with none show ?thesis by (auto simp: load_config_Ok_iff from_env_iff_spec)
  qed
  ultimately show ?thesis by (simp add: flag)
qed

text \<open>\<open>configure-os\<close> under two environments: with the TLD \<open>lab\<close> it configures that TLD; a TLD with a path
  separator stops it before it does anything.\<close>

definition tld_env :: "string \<Rightarrow> string \<Rightarrow> string option" where
  "tld_env t k = (if k = ''DIG_DNS_TLD'' then Some t else None)"

lemma tld_env_spec:
  "env_spec (tld_env ''lab'') (default_config\<lparr>tld := ''lab''\<rparr>)" "config_ok (default_config\<lparr>tld := ''lab''\<rparr>)"
  "env_spec (tld_env ''a/b'') c \<Longrightarrow> \<not> config_ok c"
proof -
  have "normalize_tld ''lab'' = ''lab''" "\<not> is_safe_tld (normalize_tld ''a/b'')" "is_safe_tld ''lab''" by code_simp+
  note facts = this
  show "env_spec (tld_env ''lab'') (default_config\<lparr>tld := ''lab''\<rparr>)" "config_ok (default_config\<lparr>tld := ''lab''\<rparr>)"
    using default_config_ok facts
    by (simp_all add: env_spec_def env_value_def tld_env_def default_config_def config_ok_def env_names)
  assume "env_spec (tld_env ''a/b'') c"
  then have "tld c = normalize_tld ''a/b''" by (simp add: env_spec_def tld_env_def env_names)
  with facts show "\<not> config_ok c" by (simp add: config_ok_def)
qed

theorem commands_use_loaded_config_witness:
  "\<forall>(E :: ('v, 'm, 'b, 'p, 'k, 'l, 'u, 'r, 'c) outside) P h.
     exit_and_machine (dig_dns (E\<lparr>environ := tld_env ''lab''\<rparr>) P (ConfigureOs True False) h)
       = (let (r, h') = configure (the_machine E) (chrome_policy E) (default_config\<lparr>tld := ''lab''\<rparr>) True h
          in (success_if (os_ok r), h'))
   \<and> (\<exists>e. dig_dns (E\<lparr>environ := tld_env ''a/b''\<rparr>) P (ConfigureOs True False) h = (fail e, h))"
proof (intro allI conjI)
  fix E :: "('v, 'm, 'b, 'p, 'k, 'l, 'u, 'r, 'c) outside" and P :: "'v printer" and h :: "'m host"
  show "exit_and_machine (dig_dns (E\<lparr>environ := tld_env ''lab''\<rparr>) P (ConfigureOs True False) h)
       = (let (r, h') = configure (the_machine E) (chrome_policy E) (default_config\<lparr>tld := ''lab''\<rparr>) True h
          in (success_if (os_ok r), h'))"
    using commands_use_loaded_config [where E = "E\<lparr>environ := tld_env ''lab''\<rparr>" and cmd = "ConfigureOs True False" and P = P and h = h] tld_env_spec(1,2)
    by (auto simp: with_flag_simps split_beta map_prod_def)
  show "\<exists>e. dig_dns (E\<lparr>environ := tld_env ''a/b''\<rparr>) P (ConfigureOs True False) h = (fail e, h)"
    using commands_use_loaded_config [where E = "E\<lparr>environ := tld_env ''a/b''\<rparr>" and cmd = "ConfigureOs True False" and P = P and h = h] tld_env_spec(3)
    by (simp add: with_flag_simps)
qed

text \<open>C38. \<open>status\<close> tells scripts the truth: with a valid configuration its exit code is success exactly when the
  gateway answers the resolve probe on the loopback address, on the primary or on the fallback port, whatever the
  service manager and the runtime file say.\<close>

theorem status_exit_code:
  assumes "json_values (jsons E)" "load_config (environ E) None = Ok cfg"
  shows "exit (fst (dig_dns E P (Status as_json) h)) = success_if (fst (probe_serving (tcp E) cfg h))"
proof -
  from status_serving [OF assms(1), of "the_os E" "json_io E" "tcp E" "service_platform E" disk "environ E"
      "work_dir E" cfg h] obtain out h' where
    "ManagedService.status (the_os E) (jsons E) (json_io E) (tcp E) (service_platform E) disk (environ E)
       (work_dir E) cfg h = (Ok out, h')"
    and "Option.bind (jget (jsons E) (snd out) ''serving'') (as_bool (jsons E)) = Some (fst (probe_serving (tcp E) cfg h))"
    by blast
  then show ?thesis
    by (simp add: dig_dns_def command_defs system_ops_def with_config_def assms(2) serving_outcome_def
        print_service_outcome_def)
qed

theorem status_exit_code_witness:
  "\<forall>(E :: (json, 'm, 'b, 'p, 'k, 'l, 'u, 'r, 'c) outside) P h. exit (fst (dig_dns (E\<lparr>jsons := json_tree, environ := (\<lambda>k. None)\<rparr>) P (Status True) h))
     = success_if (fst (probe_serving (tcp E) default_config h))"
proof (intro allI)
  fix E :: "(json, 'm, 'b, 'p, 'k, 'l, 'u, 'r, 'c) outside" and P :: "json printer" and h :: "'m host"
  show "exit (fst (dig_dns (E\<lparr>jsons := json_tree, environ := (\<lambda>k. None)\<rparr>) P (Status True) h))
     = success_if (fst (probe_serving (tcp E) default_config h))"
    using status_exit_code [of "E\<lparr>jsons := json_tree, environ := (\<lambda>k. None)\<rparr>" default_config P True h]
      tree.json_values_axioms load_config_empty by simp
qed

text \<open>The label commands are inverse to each other: decoding the host that \<open>label encode\<close> printed gives the
  store id back in lower case, and encoding that gives the same host, in any environment with the same TLD.\<close>

lemma cli_label_roundtrip:
  assumes "base_codecs C" "execute C J P (Label (Encode store_hex False)) get = Ok host"
  shows "execute C J P (Label (Decode host False)) get' = Ok (to_ascii_lowercase store_hex)
    \<and> execute C J P (Label (Encode (to_ascii_lowercase store_hex) False)) get = Ok host"
proof -
  from assms(2) obtain cfg lbl where cfg: "from_env get = Ok cfg"
    and lbl: "store_hex_to_label C store_hex = Ok lbl" and host: "host = lbl @ ''.'' @ tld cfg"
    by (auto simp: execute_def rbind_Ok_iff map_err_Ok_iff Let_def)
  have dec: "label_to_store_hex C lbl = Ok (to_ascii_lowercase store_hex)"
    by (rule base_codecs.store_hex_roundtrip [OF assms(1) lbl])
  have "CHR ''.'' \<notin> set lbl"
    by (rule base_codecs.label_to_store_hex_no_sep [OF assms(1) dec])
  then have "hd (split_on CHR ''.'' host) = lbl"
    by (simp add: host split_on_append)
  moreover have "store_hex_to_label C (to_ascii_lowercase store_hex) = Ok lbl"
    using lbl by (simp add: base_codecs.store_hex_to_label_Ok_iff [OF assms(1)])
  ultimately show ?thesis
    using dec cfg host by (simp add: execute_def)
qed

end
