(* ===== verification/Site.thy ===== *)
theory Site
  imports Gateway
begin

text \<open>
  What a reader of a published store gets: the contract of a node that serves a site (locale
  \<open>published_site\<close>), the gateway over it as a refinement of the site itself, and the JSON-RPC client of
  \<open>src/transport.rs\<close> as a provider of the contract, whenever the HTTP endpoint serves the sealed resources in
  windows.
\<close>

section \<open>The contract\<close>

text \<open>A site maps resource keys to contents. A reply about a key agrees with it when it opens to the content, or,
  for a key without one, when it is a not-found error or bytes that do not open.\<close>

type_synonym site = "string \<Rightarrow> bytes option"

definition opens_to ::
  "('b, 'p, 'k) digstore_ops \<Rightarrow> string \<Rightarrow> string \<Rightarrow> string \<Rightarrow> fetched_content \<Rightarrow> content_error + bytes \<Rightarrow> bool" where
  "opens_to D store_hex root rkey f r \<longleftrightarrow>
     verify_and_decrypt D store_hex rkey (ciphertext f) (inclusion_proof_b64 f) root (chunk_lens f) = Some r"

definition agrees ::
  "('b, 'p, 'k) digstore_ops \<Rightarrow> string \<Rightarrow> string \<Rightarrow> string \<Rightarrow> bytes option \<Rightarrow> node_error + fetched_content \<Rightarrow> bool" where
  "agrees D store_hex root rkey content r =
     (case r of
        Inl e \<Rightarrow> content = None \<and> is_not_found e
      | Inr f \<Rightarrow> opens_to D store_hex root rkey f (case content of None \<Rightarrow> Err Decrypt | Some bs \<Rightarrow> Ok bs))"

text \<open>In the states \<open>ok\<close>, the node reports the root and answers every read in agreement with the site.\<close>

locale published_site =
  fixes D :: "('b, 'p, 'k) digstore_ops" and N :: "'w node_client" and store_hex root :: string
    and site :: site and ok :: "'w \<Rightarrow> bool"
  assumes anchored: "ok w \<Longrightarrow> \<exists>w'. get_anchored_root N store_hex w = (Ok root, w') \<and> ok w'"
    and keyed: "\<exists>rk. retrieval_key_hex D store_hex rkey = Ok rk"
    and answered: "ok w \<Longrightarrow> retrieval_key_hex D store_hex rkey = Ok rk
      \<Longrightarrow> \<exists>r w'. get_content N store_hex rk (Some root) w = (r, w') \<and> ok w' \<and> agrees D store_hex root rkey (site rkey) r"

section \<open>What the gateway shows of a site\<close>

text \<open>The specification: the resource of the path; for a path without an extension that has none, the page of the
  single-page application; otherwise nothing.\<close>

definition page_of :: "site \<Rightarrow> string \<Rightarrow> string \<Rightarrow> (string \<times> bytes) option" where
  "page_of site rkey path =
     (case site rkey of
        Some bs \<Rightarrow> Some (rkey, bs)
      | None \<Rightarrow> if is_extensionless path then map_option (Pair ''index.html'') (site ''index.html'') else None)"

definition presents :: "gateway_response \<Rightarrow> string \<times> bytes \<Rightarrow> bool \<Rightarrow> bool" where
  "presents r page pinned \<longleftrightarrow>
     status r = 200 \<and> body r = snd page
   \<and> map_of (headers r) ''content-type'' = Some (content_type_for (fst page))
   \<and> map_of (headers r) ''cache-control''
       = Some (if pinned then ''public, max-age=31536000, immutable'' else ''no-cache'')"

lemma ok_body_presents: "\<exists>r. ok_body_response rkey bs None pinned = Some r \<and> presents r (rkey, bs) pinned"
  by (simp add: ok_body_response_def presents_def)

context published_site
begin

lemma fetch_site:
  assumes "ok w"
  obtains w' where "ok w'"
    "fetch_and_decrypt D N store_hex rkey root w
       = (Some (case site rkey of None \<Rightarrow> NotFound | Some bs \<Rightarrow> Fetched bs), w')"
proof -
  obtain rk where rk: "retrieval_key_hex D store_hex rkey = Ok rk"
    using keyed by blast
  from answered [OF assms rk] obtain r w' where
    "get_content N store_hex rk (Some root) w = (r, w')" "ok w'" "agrees D store_hex root rkey (site rkey) r"
    by blast
  with rk that show thesis
    by (cases r; cases "site rkey") (auto simp: fetch_and_decrypt_def agrees_def opens_to_def)
qed

lemma root_site:
  assumes "ok w" "target \<in> {Latest store_hex, Pinned store_hex root}"
  obtains w' where "ok w'" "trusted_root_for N target w = (Ok (root, target = Pinned store_hex root), w')"
  using assms anchored [OF assms(1)] that by (auto simp: trusted_root_for_def)

lemma serve_site:
  assumes "ok w" "target \<in> {Latest store_hex, Pinned store_hex root}" "resource_key_for_path D path = Ok rkey"
  shows "\<exists>r w'. serve_store D N target path None w = (Some r, w') \<and> ok w'
    \<and> (case page_of site rkey path of
          None \<Rightarrow> r = text_response 404 ''not found''
        | Some page \<Rightarrow> presents r page (target = Pinned store_hex root))"
proof -
  let ?pinned = "target = Pinned store_hex root"
  have store: "target_store target = store_hex"
    using assms(2) by auto
  obtain w1 where w1: "ok w1" "trusted_root_for N target w = (Ok (root, ?pinned), w1)"
    using root_site [OF assms(1,2)] .
  obtain w2 where w2: "ok w2" "fetch_and_decrypt D N store_hex rkey root w1
      = (Some (case site rkey of None \<Rightarrow> NotFound | Some bs \<Rightarrow> Fetched bs), w2)"
    using fetch_site [OF w1(1)] .
  obtain w3 where w3: "ok w3" "fetch_and_decrypt D N store_hex ''index.html'' root w2
      = (Some (case site ''index.html'' of None \<Rightarrow> NotFound | Some bs \<Rightarrow> Fetched bs), w3)"
    using fetch_site [OF w2(1)] .
  show ?thesis
  proof (cases "site rkey")
    case (Some bs)
    obtain r where "ok_body_response rkey bs None ?pinned = Some r" "presents r (rkey, bs) ?pinned"
      using ok_body_presents by blast
    with Some w1 w2 store assms(3) show ?thesis
      by (simp add: serve_store_def page_of_def)
  next
    case None
    then have served: "serve_store D N target path None w = spa_or_404 D N store_hex root path ?pinned w2"
      using w1 w2 store assms(3) by (simp add: serve_store_def)
    show ?thesis
    proof (cases "is_extensionless path")
      case ext: True
      show ?thesis
      proof (cases "site ''index.html''")
        case (Some bs)
        obtain r where "ok_body_response ''index.html'' bs None ?pinned = Some r" "presents r (''index.html'', bs) ?pinned"
          using ok_body_presents by blast
        with Some None ext w3 show ?thesis
          by (simp add: served spa_or_404_def page_of_def)
      qed (use None ext w3 in \<open>simp add: served spa_or_404_def page_of_def\<close>)
    qed (use None w2(1) in \<open>simp add: served spa_or_404_def page_of_def\<close>)
  qed
qed

end

section \<open>The JSON-RPC client provides the contract\<close>

text \<open>\<open>rk\<close> is served as the content \<open>c\<close> in the segments \<open>segs\<close>.\<close>

definition serves_windows ::
  "'v json_ops \<Rightarrow> ('w, 'v) http_ops \<Rightarrow> string \<Rightarrow> (bytes \<Rightarrow> string) \<Rightarrow> string \<Rightarrow> string \<Rightarrow> string
     \<Rightarrow> fetched_content \<Rightarrow> bytes list \<Rightarrow> bool" where
  "serves_windows J http base enc store_hex rk root c segs \<longleftrightarrow>
     segs \<noteq> [] \<and> (\<forall>s \<in> set segs. s \<noteq> []) \<and> length (concat segs) < 2 ^ 64 \<and> length segs \<le> MAX_CONTENT_WINDOWS
   \<and> ciphertext c = concat segs
   \<and> (\<forall>i w. i < length segs \<longrightarrow>
        call J http base ''dig.getContent'' (build_content_params J store_hex rk (Some root) (seg_offset segs i)) w
          = (Ok (conforming_window J enc c segs i), w))"

text \<open>The resource was sealed: its chunks open one by one under the key of its name, and the ciphertext is included
  under the root.\<close>

definition sealed ::
  "('b, 'p, 'k) digstore_ops \<Rightarrow> string \<Rightarrow> string \<Rightarrow> string \<Rightarrow> (bytes \<Rightarrow> bytes) \<Rightarrow> bytes list \<Rightarrow> fetched_content \<Rightarrow> bool" where
  "sealed D store_hex root rkey seal chunks c \<longleftrightarrow>
     chunks \<noteq> [] \<and> ciphertext c = concat (map seal chunks) \<and> length (ciphertext c) \<le> USIZE_MAX
   \<and> chunk_lens c = map (\<lambda>p. of_nat (length (seal p))) chunks
   \<and> (\<exists>sid rt. bytes32_from_hex D store_hex = Some sid \<and> bytes32_from_hex D root = Some rt
        \<and> inclusion_ok D (ciphertext c) (inclusion_proof_b64 c) rt
        \<and> (\<forall>p \<in> set chunks. decrypt_chunk D
              (derive_decryption_key D (urn_canonical D (canonical_urn D sid rkey)) None) (seal p) = Some p))"

lemma sealed_opens_to:
  assumes "sealed D store_hex root rkey seal chunks c"
  shows "opens_to D store_hex root rkey c (Ok (concat chunks))"
proof -
  from assms obtain sid rt where "bytes32_from_hex D store_hex = Some sid" "bytes32_from_hex D root = Some rt"
    and "inclusion_ok D (concat (map seal chunks)) (inclusion_proof_b64 c) rt" "chunks \<noteq> []"
    and "length (concat (map seal chunks)) \<le> USIZE_MAX"
    and "\<And>p. p \<in> set chunks \<Longrightarrow> decrypt_chunk D
          (derive_decryption_key D (urn_canonical D (canonical_urn D sid rkey)) None) (seal p) = Some p"
    and c: "ciphertext c = concat (map seal chunks)" "chunk_lens c = map (\<lambda>p. of_nat (length (seal p))) chunks"
    by (auto simp: sealed_def)
  from sealed_opens [OF this(1-6)] c show ?thesis
    by (simp add: opens_to_def)
qed

lemma call_first_fails:
  assumes "call J http base ''dig.getContent'' (build_content_params J store_hex rk root 0) w = (Err e, w')"
  shows "reqwest_get_content J b64 http base store_hex rk root w = (Err e, w')"
  using assms by (simp add: reqwest_get_content_def fetch_windows.simps MAX_CONTENT_WINDOWS_def)

text \<open>An endpoint that names the root, serves every sealed resource of the site and answers any other key with a
  not-found error makes the client a node that publishes the site.\<close>

lemma published_rpc:
  assumes J: "json_values J" and b64: "\<And>bs. b64 (enc bs) = Some bs"
    and keys: "\<And>rkey. \<exists>rk. retrieval_key_hex D store_hex rkey = Ok rk"
    and root: "\<And>w. reqwest_get_anchored_root J http base store_hex w = (Ok root, w)"
    and present: "\<And>rkey bs rk. site rkey = Some bs \<Longrightarrow> retrieval_key_hex D store_hex rkey = Ok rk
      \<Longrightarrow> \<exists>seal chunks c segs. concat chunks = bs \<and> sealed D store_hex root rkey seal chunks c
            \<and> serves_windows J http base enc store_hex rk root c segs"
    and absent: "\<And>rkey rk w. site rkey = None \<Longrightarrow> retrieval_key_hex D store_hex rkey = Ok rk
      \<Longrightarrow> \<exists>e. call J http base ''dig.getContent'' (build_content_params J store_hex rk (Some root) 0) w = (Err e, w)
            \<and> is_not_found e"
  shows "published_site D (reqwest_node_client J b64 http base) store_hex root site (\<lambda>w. True)"
proof
  fix w rkey rk
  assume rk: "retrieval_key_hex D store_hex rkey = Ok rk"
  show "\<exists>r w'. get_content (reqwest_node_client J b64 http base) store_hex rk (Some root) w = (r, w') \<and> True
      \<and> agrees D store_hex root rkey (site rkey) r"
  proof (cases "site rkey")
    case None
    from absent [OF None rk] call_first_fails show ?thesis
      by (fastforce simp: reqwest_node_client_def agrees_def None)
  next
    case (Some bs)
    from present [OF Some rk] obtain seal chunks c segs where bs: "concat chunks = bs"
      and c: "sealed D store_hex root rkey seal chunks c" "serves_windows J http base enc store_hex rk root c segs"
      by blast
    from c(2) have "reqwest_get_content J b64 http base store_hex rk (Some root) w = (Ok c, w)"
      by (intro json_values.conforming_content [OF J _ b64, where segs = segs]) (auto simp: serves_windows_def)
    with sealed_opens_to [OF c(1)] bs Some show ?thesis
      by (simp add: reqwest_node_client_def agrees_def)
  qed
qed (use root keys in \<open>simp_all add: reqwest_node_client_def\<close>)

section \<open>A published site\<close>

text \<open>Two resources, sealed by a leading byte 7 and cut into two chunks each; the empty key is the default view.\<close>

definition site_store :: "(nat, bytes, string) digstore_ops" where
  "site_store = demo_store\<lparr>
     urn_retrieval_key := (\<lambda>u. if resource_key u = Some ''a.txt'' then 1 else if resource_key u = Some ''index.html'' then 2 else 0),
     bytes32_to_hex := show_nat\<rparr>"

definition two_pages :: site where
  "two_pages = [''a.txt'' \<mapsto> [1, 2], ''index.html'' \<mapsto> [3, 4], [] \<mapsto> [3, 4]]"

definition site_content :: "bytes \<Rightarrow> fetched_content" where
  "site_content bs = \<lparr>ciphertext = bs, root_hex = demo_root, inclusion_proof_b64 = ''AAA'', chunk_lens = [2, 2]\<rparr>"

definition site_reply :: "json \<Rightarrow> json" where
  "site_reply rpc =
     (if json_get rpc ''method'' = Some (Str ''dig.getAnchoredRoot'')
      then Object [(''result'', Object [(''root'', Str demo_root)])]
      else let window = (\<lambda>bs. Object [(''result'', conforming_window json_tree rfc_hex_encode (site_content bs) [bs] 0)]);
               key = Option.bind (json_get rpc ''params'') (\<lambda>p. json_get p ''retrieval_key'')
           in if key = Some (Str ''1'') then window [7, 1, 7, 2]
              else if key = Some (Str ''2'') then window [7, 3, 7, 4]
              else Object [(''error'', Object [(''code'', NegInt (- 32004)), (''message'', Str ''no such resource'')])])"

definition site_http :: "(unit, json) http_ops" where
  "site_http = \<lparr>http_post = (\<lambda>url rpc w. (Response True ''200 OK'' (Inr (site_reply rpc)), w)),
     http_probe = (\<lambda>url w. (True, w))\<rparr>"

lemma site_key:
  "retrieval_key_hex site_store demo_hex rkey
    = Ok (if rkey = ''a.txt'' then ''1'' else if rkey = ''index.html'' \<or> rkey = [] then ''2'' else ''0'')"
proof -
  have "show_nat 0 = ''0''" "show_nat 1 = ''1''" "show_nat 2 = ''2''" by code_simp+
  then show ?thesis
    by (simp add: retrieval_key_hex_def site_store_def demo_store_def demo_hex_def canonical_urn_def)
qed

lemma site_call:
  "call json_tree site_http ''http://node'' ''dig.getContent'' (build_content_params json_tree demo_hex rk (Some demo_root) 0) w
    = ((if rk = ''1'' then Ok (conforming_window json_tree rfc_hex_encode (site_content [7, 1, 7, 2]) [[7, 1, 7, 2]] 0)
        else if rk = ''2'' then Ok (conforming_window json_tree rfc_hex_encode (site_content [7, 3, 7, 4]) [[7, 3, 7, 4]] 0)
        else Err (Rpc (- 32004) ''no such resource'' None)), w)"
  by (simp add: call_def site_http_def rpc_body_def build_content_params_def json_tree_def site_reply_def
      parse_rpc_result_def Let_def)

lemma site_root: "reqwest_get_anchored_root json_tree site_http ''http://node'' demo_hex w = (Ok demo_root, w)"
  by (simp add: reqwest_get_anchored_root_def call_def site_http_def rpc_body_def json_tree_def site_reply_def
      parse_rpc_result_def parse_anchored_root_def demo_root_def is_hexdigit_def is_digit_def list_all_iff char_code_def)

lemma site_sealed:
  "sealed site_store demo_hex demo_root rkey (\<lambda>c. 7 # c) [[a], [b]] (site_content [7, a, 7, b])"
proof -
  have "inclusion_ok site_store [7, a, 7, b] ''AAA'' 64"
    using demo_inclusion [of 7 a 7 b] by (simp add: inclusion_ok_def site_store_def)
  then show ?thesis
    by (simp add: sealed_def site_content_def USIZE_MAX_def)
       (simp add: site_store_def demo_store_def demo_hex_def demo_root_def)
qed

lemma site_windows:
  assumes "rk = ''1'' \<and> bs = [7, 1, 7, 2] \<or> rk = ''2'' \<and> bs = [7, 3, 7, 4]"
  shows "serves_windows json_tree site_http ''http://node'' rfc_hex_encode demo_hex rk demo_root (site_content bs) [bs]"
proof -
  have "seg_offset [bs] 0 = 0" by (simp add: seg_offset_def)
  with assms show ?thesis
    by (auto simp: serves_windows_def MAX_CONTENT_WINDOWS_def site_content_def [THEN arg_cong [where f = ciphertext]] site_call)
qed

interpretation two_pages: published_site site_store
  "reqwest_node_client json_tree rfc_hex_decode site_http ''http://node''" demo_hex demo_root two_pages "\<lambda>w. True"
proof (rule published_rpc [OF tree.json_values_axioms rfc_hex_roundtrip])
  show "\<exists>rk. retrieval_key_hex site_store demo_hex rkey = Ok rk" for rkey
    by (simp add: site_key)
  fix rkey bs rk
  assume some: "two_pages rkey = Some bs" and "retrieval_key_hex site_store demo_hex rkey = Ok rk"
  then have "rk = ''1'' \<and> bs = concat [[1], [2]] \<or> rk = ''2'' \<and> bs = concat [[3], [4]]"
    by (auto simp: two_pages_def site_key split: if_splits)
  then show "\<exists>seal chunks c segs. concat chunks = bs \<and> sealed site_store demo_hex demo_root rkey seal chunks c
      \<and> serves_windows json_tree site_http ''http://node'' rfc_hex_encode demo_hex rk demo_root c segs"
    using site_sealed site_windows by blast
next
  fix rkey rk and w :: unit
  assume "two_pages rkey = None" "retrieval_key_hex site_store demo_hex rkey = Ok rk"
  then show "\<exists>e. call json_tree site_http ''http://node'' ''dig.getContent''
      (build_content_params json_tree demo_hex rk (Some demo_root) 0) w = (Err e, w) \<and> is_not_found e"
    by (auto simp: two_pages_def site_key site_call split: if_splits)
qed (rule site_root)

section \<open>Properties\<close>

text \<open>C2. The gateway refines the published site: with a node that publishes it under a root, every request for a
  valid path of the store's host (or of the host pinned to that root) is answered with exactly the resource of the
  path, with its content type; for a path without an extension and without a resource, with the page
  \<open>index.html\<close>; and with 404 for anything else. A pinned answer may be cached for ever, another never.\<close>

theorem gateway_refines_site:
  assumes "published_site D N store_hex root site ok" "ok w" "is_read meth"
    and "classify C u host_header (tld (config c)) = Store target path"
    and "target \<in> {Latest store_hex, Pinned store_hex root}" "resource_key_for_path D path = Ok rkey"
  shows "\<exists>r w'. handle C J D N c meth u host_header None w = (Some r, w') \<and> ok w'
    \<and> (case page_of site rkey path of
          None \<Rightarrow> status r = 404
        | Some page \<Rightarrow> presents r page (target = Pinned store_hex root))"
proof -
  from published_site.serve_site [OF assms(1,2,5,6)] obtain r w' where
    "serve_store D N target path None w = (Some r, w')" "ok w'"
    and "case page_of site rkey path of None \<Rightarrow> r = text_response 404 ''not found''
      | Some page \<Rightarrow> presents r page (target = Pinned store_hex root)"
    by blast
  moreover have "handle C J D N c meth u host_header None w = serve_store D N target path None w"
    using handle_Store [OF _ assms(4,3)] by (metis prod.collapse)
  ultimately show ?thesis by (auto split: option.splits)
qed

theorem gateway_refines_site_witness:
  "\<exists>r. fst (handle rfc_codecs json_tree site_store (reqwest_node_client json_tree rfc_hex_decode site_http ''http://node'')
      demo_ctx ''GET'' demo_uri (Some demo_host) None ()) = Some r \<and> status r = 200 \<and> body r = [1, 2]"
proof -
  have key: "resource_key_for_path site_store ''/a.txt'' = Ok ''a.txt''"
    by (simp add: resource_key_for_path_def strip_prefix_def contains_char_def char_code_def starts_with_def)
  have page: "page_of two_pages ''a.txt'' ''/a.txt'' = Some (''a.txt'', [1, 2])"
    by (simp add: page_of_def two_pages_def)
  from gateway_refines_site [OF two_pages.published_site_axioms TrueI demo_get(1) demo_classify insertI1 key,
      where J = json_tree and w = "()", unfolded page option.case]
  obtain r where "fst (handle rfc_codecs json_tree site_store (reqwest_node_client json_tree rfc_hex_decode
      site_http ''http://node'') demo_ctx ''GET'' demo_uri (Some demo_host) None ()) = Some r"
    and "presents r (''a.txt'', [1, 2]) (Latest demo_hex = Pinned demo_hex demo_root)"
    by (metis fst_conv)
  then show ?thesis by (auto simp: presents_def)
qed

end
