(* ===== verification/EndToEnd.thy ===== *)
theory EndToEnd
  imports System Site
begin

text \<open>
  The components together: what a user of the commands gets. A browser's name leads to the gateway and to the
  store, \<open>fetch\<close> prints what was published, and \<open>install\<close> and \<open>uninstall\<close> on Linux make and undo a service
  that only root can change.
\<close>

section \<open>From a name to the gateway\<close>

text \<open>A name of a store: one or two labels of 52 characters, and the TLD.\<close>

definition store_name :: "string \<Rightarrow> string list \<Rightarrow> string \<Rightarrow> bool" where
  "store_name name ls t \<longleftrightarrow>
     split_on CHR ''.'' name = ls @ [t] \<and> length ls \<in> {1, 2} \<and> (\<forall>l\<in>set ls. length l = 52)"

context base_codecs
begin

lemma label_hex_length: "label_to_store_hex C l = Ok h \<Longrightarrow> length l = 52"
  by (auto simp: label_to_store_hex_def rbind_Ok_iff label_defs split: if_splits)

lemma store_host_name:
  assumes "parse_dig_host C host zone = Ok target" "is_safe_tld zone"
  obtains ls t where "store_name (host_name host) ls t" "eq_ignore_ascii_case t zone"
proof -
  have dot: "CHR ''.'' \<notin> set t" if "eq_ignore_ascii_case t zone" for t
  proof
    assume "CHR ''.'' \<in> set t"
    then have "lower_char CHR ''.'' \<in> set (to_ascii_lowercase t)" by (simp add: to_ascii_lowercase_def)
    with that safe_tld_chars(2,3) [OF assms(2)] show False
      by (simp add: eq_ignore_ascii_case_def lower_char_not_upper is_upper_def char_code_def)
  qed
  show thesis
  proof (cases target)
    case (Latest h)
    with assms(1) obtain l t where "host_name host = l @ ''.'' @ t" "eq_ignore_ascii_case t zone"
      "label_to_store_hex C l = Ok h" by (auto simp: parse_latest_iff)
    with dot label_to_store_hex_no_sep label_hex_length that [of "[l]" t] show thesis
      by (simp add: store_name_def split_on_append split_on_no_sep)
  next
    case (Pinned h g)
    with assms(1) obtain m l t where "host_name host = m @ ''.'' @ l @ ''.'' @ t" "eq_ignore_ascii_case t zone"
      "label_to_store_hex C l = Ok h" "label_to_store_hex C m = Ok g" by (auto simp: parse_pinned_iff)
    with dot label_to_store_hex_no_sep label_hex_length that [of "[m, l]" t] show thesis
      by (simp add: store_name_def split_on_append split_on_no_sep)
  qed
qed

end

lemma probe_labels_name:
  assumes "store_name name ls t" "t \<noteq> []"
  shows "probe_labels name = map str_bytes ls @ [take 63 (str_bytes t)]"
proof -
  have "filter (\<lambda>l. l \<noteq> []) (ls @ [t]) = ls @ [t]" "map (\<lambda>l. take 63 (str_bytes l)) ls = map str_bytes ls"
    using assms by (auto simp: store_name_def intro!: filter_True)
  with assms(1) show ?thesis by (simp add: probe_labels_def store_name_def del: filter_append)
qed

lemma length_query_name:
  assumes "store_name name ls t" "t \<noteq> []"
  shows "length (build_a_query name) \<le> 187"
proof -
  have "ls = [a] \<or> ls = [a, b]" if "a = hd ls" "b = hd (tl ls)" for a b
    using that assms(1) by (cases ls; cases "tl ls") (auto simp: store_name_def)
  then obtain a b where "ls = [a] \<or> ls = [a, b]" by blast
  with assms show ?thesis
    unfolding build_a_query_eq probe_labels_name [OF assms]
    by (auto simp: wire_name_def wire_label_def store_name_def)
qed

section \<open>Properties\<close>

text \<open>C4. A browser that follows a store's name ends up at the store: for every host the gateway accepts as a
  store host, the resolver answers an address query for its name with the loopback address of the service, over
  UDP and TCP, and a read the gateway gets for that host is served from exactly that store. The TLD must fit a
  label of DNS.\<close>

theorem names_lead_to_store:
  assumes "base_codecs C" "is_safe_tld (tld cfg)" "length (tld cfg) \<le> 63"
    and "parse_dig_host C host (tld cfg) = Ok target"
  shows "Option.bind (respond (build_a_query (host_name host)) (loopback_ip cfg) (tld cfg) ttl tr) parse_first_a_ipv4
      = Some (loopback_ip cfg)
    \<and> (is_read meth \<and> \<not> is_proxy u \<and> control_endpoint_for (uri_path u) = None \<and> config c = cfg
        \<longrightarrow> handle C J D N c meth u (Some host) rng w = serve_store D N target (uri_path u) rng w)"
proof
  obtain ls t where n: "store_name (host_name host) ls t" "eq_ignore_ascii_case t (tld cfg)"
    using base_codecs.store_host_name [OF assms(1,4,2)] .
  have len: "length t = length (tld cfg)"
    using n(2) by (rule eq_ignore_ascii_case_length)
  then have t: "t \<noteq> []" "take 63 (str_bytes t) = str_bytes t"
    using assms(2,3) by (auto simp: is_safe_tld_def)
  then have "under_tld (probe_labels (host_name host)) (tld cfg)"
    using n by (simp add: under_tld_def probe_labels_name str_bytes_eq_ignore_case)
  with probe_answered [of tr "host_name host" "loopback_ip cfg" "tld cfg" ttl] length_query_name [OF n(1) t(1)]
  show "Option.bind (respond (build_a_query (host_name host)) (loopback_ip cfg) (tld cfg) ttl tr) parse_first_a_ipv4
      = Some (loopback_ip cfg)" by simp
  show "is_read meth \<and> \<not> is_proxy u \<and> control_endpoint_for (uri_path u) = None \<and> config c = cfg
        \<longrightarrow> handle C J D N c meth u (Some host) rng w = serve_store D N target (uri_path u) rng w"
  proof
    assume a: "is_read meth \<and> \<not> is_proxy u \<and> control_endpoint_for (uri_path u) = None \<and> config c = cfg"
    with assms(4) have "classify C u (Some host) (tld (config c)) = Store target (uri_path u)"
      by (simp add: classify_def)
    with a handle_Store show "handle C J D N c meth u (Some host) rng w = serve_store D N target (uri_path u) rng w"
      by (metis prod.collapse)
  qed
qed

theorem names_lead_to_store_witness:
  "Option.bind (respond (build_a_query (host_name Gateway.demo_host)) (Ipv4Addr 127 0 0 5) ''dig'' 2 Udp) parse_first_a_ipv4
    = Some (Ipv4Addr 127 0 0 5)"
proof -
  have cfg: "tld default_config = ''dig''" "loopback_ip default_config = Ipv4Addr 127 0 0 5"
    by (simp_all add: default_config_def)
  have safe: "is_safe_tld ''dig''" using default_config_ok cfg by (simp add: config_ok_def)
  show ?thesis
    by (rule names_lead_to_store [of rfc_codecs default_config, unfolded cfg, OF rfc.base_codecs_axioms safe _
          demo_host_parse, THEN conjunct1]) simp
qed

section \<open>Reading a published site with fetch\<close>

text \<open>C3. \<open>fetch\<close> prints what was published: when the node the ladder chose publishes a site under a root, and the
  target names its store (with the pinned root or without), then \<open>fetch\<close> writes exactly the bytes of the page of
  the path to the standard output and exits with success; for a path the site does not have it says 404 on the
  standard error and fails. The disk is not touched.\<close>

theorem fetch_prints_site:
  assumes "load_config (environ E) node = Ok cfg" "tokio_runtime E h = (Ok (), h1)"
    and "resolve (new_resolver E) (new_client E) (dig_node_port E) cfg (procs h1) = (Ok (http, base), m)"
    and "published_site (digstore E) (reqwest_node_client (jsons E) (base64 E) http base) store_hex root site ok" "ok m"
    and "split_target (uri_parser E) target path = (host, res_path)" "uri_parser E res_path = Some u"
    and "\<not> is_proxy u" "control_endpoint_for (uri_path u) = None"
    and "parse_dig_host (codec E) host (tld cfg) = Ok tgt" "tgt \<in> {Latest store_hex, Pinned store_hex root}"
    and "resource_key_for_path (digstore E) (uri_path u) = Ok rkey"
  shows "disk (snd (dig_dns E P (Fetch target path node False) h)) = disk h1
    \<and> fst (dig_dns E P (Fetch target path node False) h)
      = (case page_of site rkey (uri_path u) of
           Some page \<Rightarrow> \<lparr>stdout = snd page, stderr = [], exit = Success\<rparr>
         | None \<Rightarrow> \<lparr>stdout = str_bytes ''not found'', stderr = NL @ ''error: status 404'' @ NL, exit = Failure\<rparr>)"
proof -
  let ?N = "reqwest_node_client (jsons E) (base64 E) http base"
  let ?c = "\<lparr>config = cfg, bound_port = 0, dns_active = False, uptime_secs = 0\<rparr>"
  have cl: "classify (codec E) u (Some host) (tld (config ?c)) = Store tgt (uri_path u)"
    using assms(8-10) by (simp add: classify_def)
  obtain r m' where serve: "serve_store (digstore E) ?N tgt (uri_path u) None m = (Some r, m')"
    and page: "case page_of site rkey (uri_path u) of None \<Rightarrow> r = text_response 404 ''not found''
      | Some page \<Rightarrow> presents r page (tgt = Pinned store_hex root)"
    using published_site.serve_site [OF assms(4,5,11,12)] by blast
  have "handle (codec E) (jsons E) (digstore E) ?N ?c ''GET'' u (Some host) None m = (Some r, m')"
    using handle_Store [OF _ cl demo_get(1)] serve by (metis prod.collapse)
  with assms(3,6,7) have "fetch_resource (codec E) (jsons E) (digstore E) (base64 E) (new_resolver E) (new_client E)
      (dig_node_port E) (uri_parser E) cfg target path (procs h1) = (Ok (Some r), m')"
    by (simp add: fetch_resource_def)
  then have run: "dig_dns E P (Fetch target path node False) h
      = (print_fetch (jsons E) P r False, h1\<lparr>procs := m'\<rparr>)"
    using assms(1,2)
    by (simp add: dig_dns_def fetch_command_def with_config_def with_runtime_def system_ops_def on_procs_def)
  have "show_word (404 :: u16) = ''404''" by code_simp
  with page show ?thesis
    by (auto simp: run print_fetch_def presents_def success_if_def text_response_def split: option.splits)
qed

definition slash_uri :: "string \<Rightarrow> uri option" where
  "slash_uri s = (if starts_with s ''/'' then Some \<lparr>uri_scheme = None, uri_authority_host = None, uri_path = s\<rparr> else None)"

theorem fetch_prints_site_witness:
  "\<forall>(E :: (json, unit, nat, bytes, string, 'l, 'u, 'r, 'c) outside) P h.
     fst (dig_dns (E\<lparr>codec := rfc_codecs, jsons := json_tree, digstore := site_store, base64 := rfc_hex_decode,
         new_resolver := Ok (), new_client := (\<lambda>_. Ok site_http), environ := (\<lambda>k. None), uri_parser := slash_uri,
         tokio_runtime := (\<lambda>h. (Ok (), h))\<rparr>) P
       (Fetch Gateway.demo_host ''/a.txt'' (Some ''http://node'') False) h)
     = \<lparr>stdout = [1, 2], stderr = [], exit = Success\<rparr>"
proof (intro allI)
  fix E :: "(json, unit, nat, bytes, string, 'l, 'u, 'r, 'c) outside" and P :: "json printer" and h :: "unit host"
  let ?E = "E\<lparr>codec := rfc_codecs, jsons := json_tree, digstore := site_store, base64 := rfc_hex_decode,
         new_resolver := Ok (), new_client := (\<lambda>_. Ok site_http), environ := (\<lambda>k. None), uri_parser := slash_uri,
         tokio_runtime := (\<lambda>h. (Ok (), h))\<rparr>"
  let ?cfg = "default_config\<lparr>node_url := Some ''http://node''\<rparr>" and ?u = "\<lparr>uri_scheme = None, uri_authority_host = None, uri_path = ''/a.txt''\<rparr>"
  have t: "trim ''http://node'' = ''http://node''" "trim_end_matches CHR ''/'' ''http://node'' = ''http://node''"
    by code_simp+
  have cfg: "load_config (environ ?E) (Some ''http://node'') = Ok ?cfg"
    using default_config_ok t
    by (simp add: load_config_Ok_iff from_env_empty with_flag_simps config_ok_def is_safe_node_url_def char_code_def)
  have res: "resolve (new_resolver ?E) (new_client ?E) (dig_node_port ?E) ?cfg (procs h) = (Ok (site_http, ''http://node''), procs h)"
    by (simp add: resolve_def build_http_client_def with_secure_upstream_def candidate_bases_def t)
  have split: "split_target (uri_parser ?E) Gateway.demo_host ''/a.txt'' = (Gateway.demo_host, ''/a.txt'')"
    by (simp, code_simp)
  have host: "parse_dig_host (codec ?E) Gateway.demo_host (tld ?cfg) = Ok (Latest demo_hex)"
    using demo_host_parse by (simp add: default_config_def)
  have key: "resource_key_for_path (digstore ?E) (uri_path ?u) = Ok ''a.txt''"
    by (simp add: resource_key_for_path_def strip_prefix_def contains_char_def char_code_def starts_with_def)
  have site: "published_site (digstore ?E) (reqwest_node_client (jsons ?E) (base64 ?E) site_http ''http://node'')
      demo_hex demo_root two_pages (\<lambda>w. True)"
    using two_pages.published_site_axioms by simp
  have page: "page_of two_pages ''a.txt'' (uri_path ?u) = Some (''a.txt'', [1, 2])"
    by (simp add: page_of_def two_pages_def)
  have u: "uri_parser ?E ''/a.txt'' = Some ?u" "\<not> is_proxy ?u" "control_endpoint_for (uri_path ?u) = None"
    by (simp_all add: slash_uri_def starts_with_def is_proxy_def control_endpoint_for_def)
  have m: "(\<lambda>w. True) (procs h)" by simp
  show "fst (dig_dns ?E P (Fetch Gateway.demo_host ''/a.txt'' (Some ''http://node'') False) h)
     = \<lparr>stdout = [1, 2], stderr = [], exit = Success\<rparr>"
    using fetch_prints_site [OF cfg _ res site m split u host insertI1 key, of h P] page by simp
qed

text \<open>C19. \<open>install\<close> on Linux, end to end: for every disk with a real unit directory and every pattern of failing
  calls, with a \<open>systemctl\<close> that may change any places \<open>A\<close> but the unit, its directories and the staged program
  (\<open>enable\<close> makes links, a started service writes its runtime file), if the command exits with success then it ran as root with a valid configuration, the unit on disk is
  exactly the unit of that configuration for the staged program, and, whatever unprivileged users do from then on,
  the program that unit names remains the same regular file of root under directories.\<close>

theorem install_command_safe:
  assumes "systemd_tools (host_tools E) A" "\<And>q. prefix q linux_program_dest \<Longrightarrow> q \<notin> A"
    and "the_os E = Linux" "current_exe E = Ok exe" "wf_tree (disk h)" "unit_dir_real h"
    and "dig_dns E P (Install node json) h = (out, h')" "exit out = Success"
    and "user_step\<^sup>*\<^sup>* (lookup (disk h')) t"
  shows "\<exists>cfg e d. load_config (environ E) node = Ok cfg \<and> config_ok cfg
    \<and> fst (elevation_linux (sys (the_machine E)) h)
    \<and> unit_registered (build_plan Linux cfg (show_path linux_program_dest)) h'
    \<and> t linux_program_dest = Some e \<and> lookup (disk h') linux_program_dest = Some e \<and> fnode e = File d \<and> fuid e = 0
    \<and> (\<forall>n<length linux_program_dest. is_dir_at t (take n linux_program_dest))"
proof -
  from assms(7,8) obtain cfg where cfg: "load_config (environ E) node = Ok cfg"
    by (cases "load_config (environ E) node")
       (auto simp: dig_dns_def install_command_def with_config_def system_ops_def fail_def)
  let ?r = "install Linux (jsons E) (linux_platform (sys (the_machine E)) (host_tools E) (process_id (the_machine E)) (Ok (path_of exe))
      (sleeps E)) cfg h"
  have "(out, h') = or_fail message (\<lambda>x. print_service_outcome P x json) ?r"
    using assms(3,4,7) cfg
    by (simp add: dig_dns_def install_command_def with_config_def system_ops_def service_platform_def Let_def)
  with assms(8) obtain res where "?r = (Ok res, h')"
    by (cases ?r; cases "fst ?r") (auto simp: fail_def)
  from linux_install [OF assms(1,2,5,6) this assms(9)] cfg load_config_Ok_iff show ?thesis by blast
qed

definition linux_box :: "unit machine" where
  "linux_box = \<lparr>sys = demo_tools, os_const = ''linux'', system32 = [], process_id = 9, getaddrinfo = (\<lambda>n m. ([], m))\<rparr>"

abbreviation on_linux_box ::
  "(json, unit, 'b, 'p, 'k, 'l, 'u, 'r, 'c) outside \<Rightarrow> (json, unit, 'b, 'p, 'k, 'l, 'u, 'r, 'c) outside" where
  "on_linux_box E \<equiv> E\<lparr>the_machine := linux_box, host_tools := process_tools demo_tools, jsons := json_tree, current_exe := Ok ''/home/u/x'', sleeps := (\<lambda>_ m. m),
     environ := (\<lambda>k. None)\<rparr>"

lemma on_linux_box: "the_os (on_linux_box E) = Linux" "service_platform (on_linux_box E) = demo_platform"
proof -
  show os: "the_os (on_linux_box E) = Linux" by (simp add: the_os_def linux_box_def platform_of_def)
  have "path_of ''/home/u/x'' = [''home'', ''u'', ''x'']" by code_simp
  with os show "service_platform (on_linux_box E) = demo_platform"
    by (simp add: service_platform_def linux_box_def)
qed

theorem install_command_safe_witness:
  "\<forall>(E :: (json, unit, 'b, 'p, 'k, 'l, 'u, 'r, 'c) outside) P.
     unit_registered (build_plan Linux default_config (show_path linux_program_dest))
       (snd (dig_dns (on_linux_box E) P (Install None True) LinuxService.demo_host))"
proof (intro allI)
  fix E :: "(json, unit, 'b, 'p, 'k, 'l, 'u, 'r, 'c) outside" and P
  let ?E = "on_linux_box E"
  obtain out h' where i: "install Linux json_tree demo_platform default_config LinuxService.demo_host = (Ok out, h')"
    using demo_install by blast
  have run: "dig_dns ?E P (Install None True) LinuxService.demo_host = (print_service_outcome P out True, h')"
    using i load_config_empty on_linux_box [of E]
    by (simp add: dig_dns_def install_command_def with_config_def system_ops_def)
  have "wf_tree (disk LinuxService.demo_host)" "unit_dir_real LinuxService.demo_host" by code_simp+
  from install_command_safe [OF _ _ on_linux_box(1) _ this run _ rtranclp.rtrancl_refl, of "{}" "''/home/u/x''"]
    diskless.systemd_tools_axioms [of demo_tools]
  have "unit_registered (build_plan Linux default_config (show_path linux_program_dest)) h'"
    using load_config_empty by (auto simp: print_service_outcome_def)
  then show "unit_registered (build_plan Linux default_config (show_path linux_program_dest))
       (snd (dig_dns ?E P (Install None True) LinuxService.demo_host))"
    unfolding run snd_conv .
qed

text \<open>C20. \<open>uninstall\<close> on Linux. With a \<open>systemctl\<close> that may change any places \<open>A\<close> but the unit and its directories
  (\<open>disable\<close> drops the links of the \<open>[Install]\<close> section; a stopped service removes its runtime file): when it exits
  with success the caller was root and the unit is gone; and whether it does or not, the unit is as before or gone,
  and everywhere outside \<open>A\<close> the disk is as before.\<close>

theorem uninstall_command_clean:
  assumes "systemd_tools (host_tools E) A" "the_os E = Linux" "unit_dir_real h"
    and "dig_dns E P (Uninstall json) h = (out, h')"
  shows "(exit out = Success \<longrightarrow> fst (elevation_linux (sys (the_machine E)) h) \<and> \<not> unit_installed h')
    \<and> lookup (disk h') linux_unit_file_path \<in> {lookup (disk h) linux_unit_file_path, None}
    \<and> (\<forall>q. q \<noteq> linux_unit_file_path \<and> q \<notin> A \<longrightarrow> lookup (disk h') q = lookup (disk h) q)"
proof -
  let ?S = "sys (the_machine E)" and ?B = "linux_backend (host_tools E) (process_id (the_machine E))"
  let ?p = linux_unit_file_path
  let ?r = "uninstall Linux (jsons E) (linux_platform ?S (host_tools E) (process_id (the_machine E))
      (map_res path_of (current_exe E)) (sleeps E)) h"
  have run: "(out, h') = or_fail message (\<lambda>x. print_service_outcome P x json) ?r"
    using assms(2,4) by (simp add: dig_dns_def service_command_def system_ops_def service_platform_def Let_def)
  obtain root h1 where el: "elevation_linux ?S h = (root, h1)" by fastforce
  have h1: "disk h1 = disk h"
    using arg_cong [OF el, of snd] by (auto simp: elevation_linux_def on_procs_def split_beta Let_def)
  show ?thesis
  proof (cases root)
    case False
    with run el have "h' = h1" "exit out = Failure"
      by (simp_all add: uninstall_def elevation_missing_def INSTALL_REQUIRES_ELEVATION_def linux_platform_def fail_def)
    with h1 show ?thesis by simp
  next
    case True
    obtain s h2 where st: "stop ?B h1 = (s, h2)" by fastforce
    obtain r h3 where d: "delete ?B h2 = (r, h3)" by fastforce
    have "h' = h3" "exit out = Success \<longleftrightarrow> is_ok r"
      using run el True st d
      by (cases r; simp add: uninstall_def elevation_missing_def INSTALL_REQUIRES_ELEVATION_def linux_platform_def
          fail_def print_service_outcome_def Let_def)+
    moreover obtain as where sc: "systemctl (host_tools E) as h1 = (s, h2)"
      using systemd_tools.stop_start(1) [OF assms(1) st] by blast
    note su = systemd_tools.systemctl_unit [OF assms(1) sc] and sl = systemd_tools.systemctl_lookup [OF assms(1) sc]
    have "unit_dir_real h1" using assms(3) h1 by (simp add: unit_dir_real_def)
    with su(2) have "unit_dir_real h2" by simp
    note dd = systemd_tools.delete_disk [OF assms(1) this d]
    have "lookup (disk h3) q = lookup (disk h) q" if "q \<noteq> ?p" "q \<notin> A" for q
      using dd(2) [of q] sl [of q] that h1 by simp
    ultimately show ?thesis using dd(3,4) su(1) h1 el True by simp
  qed
qed

text \<open>An installed service whose link is dropped by \<open>disable\<close>.\<close>

definition installed_host :: "unit host" where
  "installed_host = LinuxService.demo_host\<lparr>disk := (disk LinuxService.demo_host)\<lparr>tree := tree (disk LinuxService.demo_host)
     @ [(linux_unit_file_path, \<lparr>fnode = File ''unit'', fuid = 0, fgid = 0, fmode = 0x1A4\<rparr>),
        (LINUX_UNIT_DIR @ [''multi-user.target.wants''], root_dir),
        (unit_link, \<lparr>fnode = Link ''../net.dignetwork.dig-dns.service'', fuid = 0, fgid = 0, fmode = 0x1FF\<rparr>)]\<rparr>\<rparr>"

theorem uninstall_command_clean_witness:
  "\<forall>(E :: (json, unit, 'b, 'p, 'k, 'l, 'u, 'r, 'c) outside) P.
     let h' = snd (dig_dns ((on_linux_box E)\<lparr>host_tools := link_tools\<rparr>) P (Uninstall True) installed_host)
     in \<not> unit_installed h' \<and> (\<forall>q. q \<noteq> linux_unit_file_path \<and> q \<noteq> unit_link
          \<longrightarrow> lookup (disk h') q = lookup (disk installed_host) q)"
proof (intro allI)
  fix E :: "(json, unit, 'b, 'p, 'k, 'l, 'u, 'r, 'c) outside" and P
  let ?E = "(on_linux_box E)\<lparr>host_tools := link_tools\<rparr>"
  let ?pf = "linux_platform demo_tools link_tools 9 (Ok [''home'', ''u'', ''x'']) (\<lambda>_ m. m)"
  have os: "the_os ?E = Linux" by (simp add: the_os_def linux_box_def platform_of_def)
  have "path_of ''/home/u/x'' = [''home'', ''u'', ''x'']" by code_simp
  with os have pf: "service_platform ?E = ?pf" by (simp add: service_platform_def linux_box_def)
  have "fst (uninstall Linux json_tree ?pf installed_host) = Ok (''dig-dns: uninstalled service '' @ QT @ SERVICE_LABEL @ QT,
         jobj json_tree [(''installed'', jbool json_tree False), (''label'', jstr json_tree SERVICE_LABEL)])"
    by code_simp
  then obtain x h' where "uninstall Linux json_tree ?pf installed_host = (Ok x, h')"
    by (metis prod.collapse)
  then have run: "dig_dns ?E P (Uninstall True) installed_host = (print_service_outcome P x True, h')"
    using os pf by (simp add: dig_dns_def service_command_def system_ops_def)
  have t: "systemd_tools (host_tools ?E) {unit_link}" using linked.systemd_tools_axioms by simp
  have "unit_dir_real installed_host" by code_simp
  from uninstall_command_clean [OF t os this run]
  show "let h' = snd (dig_dns ?E P (Uninstall True) installed_host)
     in \<not> unit_installed h' \<and> (\<forall>q. q \<noteq> linux_unit_file_path \<and> q \<noteq> unit_link
          \<longrightarrow> lookup (disk h') q = lookup (disk installed_host) q)"
    unfolding run snd_conv Let_def by (simp add: print_service_outcome_def)
qed

end
