(* ===== verification/Packaging.thy ===== *)
theory Packaging
  imports Service State LinuxService
begin

text \<open>
  \<open>src/packaging.rs\<close>: the paths of the install packages, the systemd unit of the \<open>.deb\<close> and the launchd plist
  of the \<open>.pkg\<close>, and that they agree with what the program itself uses.
\<close>

definition LINUX_BIN_PATH :: string where "LINUX_BIN_PATH = ''/usr/bin/dig-dns''"
definition MACOS_BIN_PATH :: string where "MACOS_BIN_PATH = ''/usr/local/bin/dig-dns''"
definition LINUX_STATE_DIR :: string where "LINUX_STATE_DIR = ''/var/lib/dig-dns''"
definition MACOS_STATE_DIR :: string where "MACOS_STATE_DIR = ''/Library/Application Support/DigDns''"
definition WINDOWS_STATE_DIR_NAME :: string where "WINDOWS_STATE_DIR_NAME = ''DigDns''"
definition LAUNCHD_PLIST_PATH :: string where
  "LAUNCHD_PLIST_PATH = ''/Library/LaunchDaemons/net.dignetwork.dig-dns.plist''"
definition SYSTEMD_UNIT_PATH :: string where
  "SYSTEMD_UNIT_PATH = ''/lib/systemd/system/net.dignetwork.dig-dns.service''"
definition NET_BIND_CAPABILITY :: string where "NET_BIND_CAPABILITY = ''CAP_NET_BIND_SERVICE''"

text \<open>A text given by its lines.\<close>

definition text_of :: "string list \<Rightarrow> string" where
  "text_of ls = concat (map (\<lambda>l. l @ NL) ls)"

definition systemd_unit_lines :: "string list" where
  "systemd_unit_lines =
     [''[Unit]'',
      ''Description='' @ SERVICE_DISPLAY_NAME @ '' '' @ EM_DASH
        @ '' local *.dig resolver (DNS responder + HTTP gateway)'',
      ''Documentation=https://docs.dig.net'',
      ''After=network-online.target'',
      ''Wants=network-online.target'',
      [],
      ''[Service]'',
      ''Type=simple'',
      ''ExecStart='' @ LINUX_BIN_PATH @ '' serve'',
      ''Restart=on-failure'',
      ''RestartSec=5'',
      ''# dig-dns binds :53 (DNS) + :80 (HTTP gateway) on a loopback IP; CAP_NET_BIND_SERVICE is'',
      ''# the ONLY privilege it needs (SPEC '' @ [CHR 0xC2, CHR 0xA7] @ ''5 loopback-only; it holds no secret).'',
      ''AmbientCapabilities='' @ NET_BIND_CAPABILITY,
      ''CapabilityBoundingSet='' @ NET_BIND_CAPABILITY,
      ''# Machine-wide, identity-independent runtime state (SPEC '' @ [CHR 0xC2, CHR 0xA7] @ ''13.5): systemd creates'',
      ''# '' @ LINUX_STATE_DIR @ '' and the service records runtime.json there.'',
      ''StateDirectory=dig-dns'',
      ''Environment=DIG_DNS_STATE_DIR='' @ LINUX_STATE_DIR,
      ''# Hardening '' @ EM_DASH @ '' loopback-only service, no secret material.'',
      ''NoNewPrivileges=true'',
      ''ProtectSystem=full'',
      ''ProtectHome=true'',
      ''PrivateTmp=true'',
      [],
      ''[Install]'',
      ''WantedBy=multi-user.target'']"

definition systemd_unit :: string where
  "systemd_unit = text_of systemd_unit_lines"

definition tabs :: "nat \<Rightarrow> string" where
  "tabs n = replicate n (CHR 0x09)"

definition launchd_plist_lines :: "string list" where
  "launchd_plist_lines =
     [''<?xml version='' @ QT @ ''1.0'' @ QT @ '' encoding='' @ QT @ ''UTF-8'' @ QT @ ''?>'',
      ''<!DOCTYPE plist PUBLIC '' @ QT @ ''-//Apple//DTD PLIST 1.0//EN'' @ QT @ '' '' @ QT
        @ ''http://www.apple.com/DTDs/PropertyList-1.0.dtd'' @ QT @ ''>'',
      ''<plist version='' @ QT @ ''1.0'' @ QT @ ''>'',
      ''<dict>'',
      tabs 1 @ ''<key>Label</key>'',
      tabs 1 @ ''<string>'' @ SERVICE_LABEL @ ''</string>'',
      tabs 1 @ ''<key>ProgramArguments</key>'',
      tabs 1 @ ''<array>'',
      tabs 2 @ ''<string>'' @ MACOS_BIN_PATH @ ''</string>'',
      tabs 2 @ ''<string>serve</string>'',
      tabs 1 @ ''</array>'',
      tabs 1 @ ''<key>RunAtLoad</key>'',
      tabs 1 @ ''<true/>'',
      tabs 1 @ ''<key>KeepAlive</key>'',
      tabs 1 @ ''<true/>'',
      tabs 1 @ ''<key>EnvironmentVariables</key>'',
      tabs 1 @ ''<dict>'',
      tabs 2 @ ''<key>DIG_DNS_STATE_DIR</key>'',
      tabs 2 @ ''<string>'' @ MACOS_STATE_DIR @ ''</string>'',
      tabs 1 @ ''</dict>'',
      tabs 1 @ ''<key>StandardOutPath</key>'',
      tabs 1 @ ''<string>/Library/Logs/DigDns/dig-dns.log</string>'',
      tabs 1 @ ''<key>StandardErrorPath</key>'',
      tabs 1 @ ''<string>/Library/Logs/DigDns/dig-dns.log</string>'',
      tabs 1 @ ''<key>ProcessType</key>'',
      tabs 1 @ ''<string>Adaptive</string>'',
      ''</dict>'',
      ''</plist>'']"

definition launchd_plist :: string where
  "launchd_plist = text_of launchd_plist_lines"

text \<open>The packaged service uses the state directory the program defaults to, and is registered under the name of
  the manual install.\<close>

lemma packaged_state_dir:
  "default_state_dir Linux get = LINUX_STATE_DIR" "default_state_dir MacOs get = MACOS_STATE_DIR"
  by (simp_all add: LINUX_STATE_DIR_def MACOS_STATE_DIR_def)

lemma packaged_unit_name: "last (path_of SYSTEMD_UNIT_PATH) = LINUX_UNIT_FILE_NAME"
  by code_simp

end
