(* ===== verification/OsConfigTwice.thy ===== *)
theory OsConfigTwice
  imports OsConfigSpec
begin

text \<open>
  What the files of \<open>configure-os\<close> contain: that a run on Linux writes exactly the files meant for the resolver of the
  machine and reports them, that \<open>unconfigure-os\<close> takes back what it reports, and that a second run finds nothing to
  change. Shown step by step over the plan, as \<open>write_if_changed\<close> reads before it writes.
\<close>

section \<open>The files of the tool and their contents\<close>

text \<open>Every file the command may write, with what it writes there; \<open>policy\<close> is the browser policy.\<close>

definition os_files :: "string \<Rightarrow> string \<Rightarrow> ipv4 \<Rightarrow> string \<Rightarrow> (string \<times> string) list" where
  "os_files os policy ip t =
     (if os = ''linux'' then
        [(LINUX_RESOLVED_DROPIN, systemd_resolved_dropin ip t), (LINUX_NM_DNSMASQ_CONF, networkmanager_dnsmasq_conf ip t),
         (LINUX_CHROME_POLICY, policy), (LINUX_CHROMIUM_POLICY, policy)]
      else if os = ''macos'' then
        [(MACOS_LO0_PLIST, launchd_lo0_alias_plist ip), (macos_resolver_path t, resolver_file_content ip),
         (MACOS_CHROME_PLIST, chrome_managed_plist)]
      else [])"

text \<open>The files among \<open>ls\<close> contain what is written there.\<close>

definition holds :: "(string \<times> string) list \<Rightarrow> string list \<Rightarrow> fsys \<Rightarrow> bool" where
  "holds F ls w \<longleftrightarrow> (\<forall>(p, c)\<in>set F. p \<in> set ls \<longrightarrow> read_to_string w (path_of p) = Ok c)"

definition one_content :: "path set \<Rightarrow> (string \<times> string) list \<Rightarrow> bool" where
  "one_content B F \<longleftrightarrow> path_of ` fst ` set F \<subseteq> B
     \<and> (\<forall>(p, c)\<in>set F. \<forall>(p', c')\<in>set F. path_of p = path_of p' \<longrightarrow> p = p' \<and> c = c')"

lemma os_files_one_content: "one_content (artifacts os t) (os_files os policy ip t)"
  by (auto simp: one_content_def os_files_def artifacts_def artifact_paths resolver_path
      dest: arg_cong [where f = path_of] split: if_splits)

text \<open>The step writes only such files.\<close>

fun writes_of :: "(string \<times> string) list \<Rightarrow> step \<Rightarrow> bool" where
  "writes_of F (Write p c) \<longleftrightarrow> (p, c) \<in> set F"
| "writes_of F (RemoveOurs p) \<longleftrightarrow> False"
| "writes_of F (Ps c l b) \<longleftrightarrow> F = []"
| "writes_of F st \<longleftrightarrow> True"

lemma configure_writes: "\<forall>st\<in>set (configure_resolver_steps os owner ip t). writes_of (os_files os policy ip t) st"
  by (cases "os = ''linux''"; cases "os = ''macos''"; cases "os = ''windows''"; cases owner)
     (simp_all add: configure_resolver_steps_def os_files_def)

section \<open>One step\<close>

lemma execute_step_holds:
  assumes "execute_step M ip st (r, h) = (r', h')" "tidy B (disk h)" "separated (process_id M) B"
    and "one_content B F" "writes_of F st" "holds F (applied r) (disk h)"
  shows "tidy B (disk h') \<and> holds F (applied r') (disk h')"
proof (cases st)
  case (Write p c)
  obtain x w' where w: "write_if_changed (process_id M) (path_of p) c (disk h) = (x, w')" by fastforce
  from assms(5) Write have pc: "(p, c) \<in> set F" by simp
  with assms(4) have pB: "path_of p \<in> B" by (force simp: one_content_def)
  have ok: "artifact_ok (lookup (disk h)) q" if "q \<in> B" for q using assms(2) that by (simp add: tidy_def)
  note wa = write_artifact [OF w ok [OF pB]]
  have other: "artifact_ok (lookup w') q \<and> lookup w' q = lookup (disk h) q" if "q \<in> B" "q \<noteq> path_of p" for q
    using wa(4) [OF ok [OF that(1)]] that pB assms(3) by (auto simp: separated_def)
  have t: "tidy B w'" using other wa(1) unfolding tidy_def by blast
  have "read_to_string w' (path_of p) = Ok c" if "is_ok x"
    using write_if_changed_Ok [of _ _ c "disk h" _ w'] w that ok [OF pB]
    by (cases x) (auto simp: artifact_ok_def)
  moreover have "is_ok x" if "p \<in> set (applied r)"
  proof -
    have "read_to_string (disk h) (path_of p) = Ok c" using that assms(6) pc by (auto simp: holds_def)
    with w show ?thesis by (auto simp: write_if_changed_def)
  qed
  moreover have "read_to_string w' (path_of q) = Ok d"
    if "(q, d) \<in> set F" "q \<noteq> p" "q \<in> set (applied r)" for q d
  proof -
    have q: "path_of q \<in> B" "path_of q \<noteq> path_of p" using that(1,2) pc assms(4) by (force simp: one_content_def)+
    have "read_to_string (disk h) (path_of q) = Ok d" using assms(6) that by (auto simp: holds_def)
    with other [OF q] ok [OF q(1)] show ?thesis by (simp add: artifact_read)
  qed
  moreover have "d = c" if "(p, d) \<in> set F" for d using that pc assms(4) by (force simp: one_content_def)
  ultimately have "holds F (applied r @ (if is_ok x then [p] else [])) w'"
    unfolding holds_def by (auto split: if_splits)
  with t w Write assms(1) show ?thesis by (cases x) (auto simp: on_disk_def)
next
  case (Ps c l b)
  obtain x h1 where "run_ps M c h = (x, h1)" by fastforce
  with Ps assms ps_disk [OF this] show ?thesis
    by (cases x; cases b) (auto simp: holds_def)
qed (use assms in \<open>auto simp: tool_disk\<close>)

lemma steps_hold:
  assumes "foldl (\<lambda>s st. execute_step M ip st s) (r, h) sts = (r', h')" "tidy B (disk h)"
    and "separated (process_id M) B" "one_content B F" "\<forall>st\<in>set sts. writes_of F st" "holds F (applied r) (disk h)"
  shows "tidy B (disk h') \<and> holds F (applied r') (disk h')"
  using assms
proof (induction sts arbitrary: r h)
  case (Cons st sts)
  obtain r1 h1 where s: "execute_step M ip st (r, h) = (r1, h1)" by fastforce
  from execute_step_holds [OF s Cons.prems(2-4) _ Cons.prems(6)] Cons.prems(5)
  have "tidy B (disk h1) \<and> holds F (applied r1) (disk h1)" by simp
  with Cons.IH [of r1 h1] Cons.prems s show ?case by simp
qed simp

text \<open>A step whose file is already there leaves the disk alone.\<close>

fun settled_step :: "fsys \<Rightarrow> step \<Rightarrow> bool" where
  "settled_step w (Write p c) \<longleftrightarrow> read_to_string w (path_of p) = Ok c"
| "settled_step w (RemoveOurs p) \<longleftrightarrow> False"
| "settled_step w st \<longleftrightarrow> True"

lemma settled_disk:
  "settled_step (disk h) st \<Longrightarrow> disk (snd (execute_step M ip st (r, h))) = disk h"
proof (cases st)
  case (Ps c l b)
  obtain x h1 where "run_ps M c h = (x, h1)" by fastforce
  with Ps ps_disk [OF this] show ?thesis by (cases x) auto
qed (auto simp: write_if_changed_def on_disk_def tool_disk)

lemma steps_settled:
  "foldl (\<lambda>s st. execute_step M ip st s) (r, h) sts = (r', h') \<Longrightarrow> \<forall>st\<in>set sts. settled_step (disk h) st
     \<Longrightarrow> disk h' = disk h"
proof (induction sts arbitrary: r h)
  case (Cons st sts)
  obtain r1 h1 where s: "execute_step M ip st (r, h) = (r1, h1)" by fastforce
  with settled_disk [of h st M ip r] Cons.prems have "disk h1 = disk h" by simp
  with Cons s show ?case by simp
qed simp

section \<open>The browser policies\<close>

definition policy_files :: "string \<Rightarrow> string list" where
  "policy_files os = (if os = ''linux'' then [LINUX_CHROME_POLICY, LINUX_CHROMIUM_POLICY]
     else if os = ''macos'' then [MACOS_CHROME_PLIST] else [])"

lemma policy_linux:
  "apply_browser_policy M policy ''linux'' ip s =
     (let (r, h) = foldl (\<lambda>s st. execute_step M ip st s) s (map (\<lambda>p. Write p policy) (policy_files ''linux''))
      in (add_note ''Chrome/Chromium managed DoH-off policy applied'' r, h))"
  by (simp add: apply_browser_policy_def policy_files_def foldl_map write_policy_step [where ip = ip])

text \<open>On macOS the policy is one write, unless a policy of somebody else is found.\<close>

lemma policy_macos:
  assumes "apply_browser_policy M policy ''macos'' ip (r, h) = (r', h')"
  shows "disk h' = disk h \<and> applied r' = applied r
    \<or> (\<exists>r1. execute_step M ip (Write MACOS_CHROME_PLIST chrome_managed_plist) (r, h) = (r1, h')
         \<and> applied r' = applied r1)"
proof (cases "existing_chrome_managed_policy (disk h) ip")
  case True
  with assms show ?thesis by (auto simp: apply_browser_policy_def apply_macos_browser_policy_def)
next
  case False
  obtain x h1 where "on_disk (write_if_changed (process_id M) (path_of MACOS_CHROME_PLIST) chrome_managed_plist) h = (x, h1)"
    by fastforce
  with False assms show ?thesis
    by (cases x) (auto simp: apply_browser_policy_def apply_macos_browser_policy_def)
qed

lemma policy_elsewhere:
  assumes "os \<noteq> ''linux''" "os \<noteq> ''macos''"
  shows "disk (snd (apply_browser_policy M policy os ip s)) = disk (snd s)"
proof -
  have "disk (snd (apply_windows_one M s b)) = disk (snd s)" for s b
  proof -
    obtain r h browser key where s: "s = (r, h)" "b = (browser, key)" by fastforce
    obtain x h1 where a: "apply_windows_browser_policy M key h = (x, h1)" by fastforce
    with s windows_disk(1) [OF a] show ?thesis by (cases x; cases "x = Ok True") (simp_all split: bool.split)
  qed
  then have "disk (snd (foldl (apply_windows_one M) s bs)) = disk (snd s)" for bs
    by (rule foldl_same [where f = "\<lambda>s. disk (snd s)"])
  with assms show ?thesis by (simp add: apply_browser_policy_def)
qed

lemma policy_holds:
  assumes "apply_browser_policy M policy os ip (r, h) = (r', h')" "tidy (artifacts os t) (disk h)"
    and "holds (os_files os policy ip t) (applied r) (disk h)"
  shows "holds (os_files os policy ip t) (applied r') (disk h')"
proof -
  note step = artifacts_separated os_files_one_content
  consider "os = ''linux''" | "os = ''macos''" | "os \<noteq> ''linux''" "os \<noteq> ''macos''" by blast
  then show ?thesis
  proof cases
    case 1
    obtain r1 where f: "foldl (\<lambda>s st. execute_step M ip st s) (r, h) (map (\<lambda>p. Write p policy) (policy_files os)) = (r1, h')"
      and r': "applied r' = applied r1"
      using assms(1) unfolding 1 policy_linux by (auto simp: Let_def split: prod.splits)
    from steps_hold [OF f assms(2) step, of policy ip] assms(3) show ?thesis
      unfolding r' by (simp add: policy_files_def os_files_def 1)
  next
    case 2
    from policy_macos [OF assms(1) [unfolded 2]] show ?thesis
    proof (elim disjE exE conjE)
      fix r1
      assume s: "execute_step M ip (Write MACOS_CHROME_PLIST chrome_managed_plist) (r, h) = (r1, h')"
        and r': "applied r' = applied r1"
      from execute_step_holds [OF s assms(2) step, of policy ip] assms(3) show ?thesis
        unfolding r' by (simp add: os_files_def 2)
    qed (use assms(3) in simp)
  next
    case 3
    then show ?thesis by (simp add: os_files_def holds_def)
  qed
qed

lemma policy_settled:
  assumes "apply_browser_policy M policy os ip (r, h) = (r', h')"
    and "\<forall>(p, c)\<in>set (os_files os policy ip t). p \<in> set (policy_files os) \<longrightarrow> read_to_string (disk h) (path_of p) = Ok c"
  shows "disk h' = disk h"
proof -
  consider "os = ''linux''" | "os = ''macos''" | "os \<noteq> ''linux''" "os \<noteq> ''macos''" by blast
  then show ?thesis
  proof cases
    case 1
    obtain r1 where f: "foldl (\<lambda>s st. execute_step M ip st s) (r, h) (map (\<lambda>p. Write p policy) (policy_files os)) = (r1, h')"
      using assms(1) unfolding 1 policy_linux by (auto simp: Let_def split: prod.splits)
    show ?thesis
      by (rule steps_settled [OF f]) (use assms(2) in \<open>simp add: 1 os_files_def policy_files_def\<close>)
  next
    case 2
    have "settled_step (disk h) (Write MACOS_CHROME_PLIST chrome_managed_plist)"
      using assms(2) by (simp add: 2 os_files_def policy_files_def)
    from settled_disk [OF this] policy_macos [OF assms(1) [unfolded 2]] show ?thesis by (metis snd_conv)
  next
    case 3
    from policy_elsewhere [OF 3] assms(1) show ?thesis by (metis snd_conv)
  qed
qed

section \<open>The command\<close>

lemma configure_holds:
  assumes "configure M policy cfg browser h = (r, h')" "tidy (artifacts (os_const M) (tld cfg)) (disk h)"
  shows "holds (os_files (os_const M) policy (loopback_ip cfg) (tld cfg)) (applied r) (disk h')"
proof -
  let ?os = "os_const M" and ?t = "tld cfg" and ?ip = "loopback_ip cfg"
  let ?F = "os_files ?os policy ?ip ?t"
  obtain el h0 where el: "is_elevated M h = (el, h0)" by fastforce
  have h0: "disk h0 = disk h" using is_elevated_disk [OF el] .
  show ?thesis
  proof (cases "el \<and> is_supported ?os")
    case True
    then have "is_elevated M h = (True, h0)" "is_supported ?os" using el by simp_all
    from configure_parts [OF assms(1) this] obtain res r1 h1 r2 h2 act where
      ex: "foldl (\<lambda>s st. execute_step M ?ip st s) ((report_started ''configure-os'' ?os)\<lparr>resolver := res\<rparr>, h0)
         (configure_resolver_steps ?os (if ?os = ''linux'' then detect_resolv_owner_live (disk h0) else Unknown) ?ip ?t) = (r1, h1)"
      and pol: "(if browser then apply_browser_policy M policy ?os ?ip (r1, h1) else (r1, h1)) = (r2, h2)"
      and d: "disk h' = disk h2"
      and r: "r = (apply_activation_result ?os (applied r1 \<noteq> []) act r2)\<lparr>os_ok := True\<rparr>" by metis
    have "tidy (artifacts ?os ?t) (disk h1) \<and> holds ?F (applied r1) (disk h1)"
      using steps_hold [OF ex _ artifacts_separated os_files_one_content configure_writes] assms(2) h0
      by (simp add: holds_def)
    then have "holds ?F (applied r2) (disk h2)"
      using pol policy_holds [of M policy ?os ?ip r1 h1 r2 h2 ?t] by (cases browser) auto
    then show ?thesis by (simp add: r d)
  next
    case False
    from refused(1) [OF el False, of policy cfg browser] assms(1) show ?thesis by (simp add: holds_def)
  qed
qed

text \<open>The files a run on the file system \<open>w\<close> sets out to write.\<close>

definition planned_files :: "'m machine \<Rightarrow> config \<Rightarrow> bool \<Rightarrow> fsys \<Rightarrow> string list" where
  "planned_files M cfg browser w =
     concat (map (\<lambda>st. case st of Write p c \<Rightarrow> [p] | _ \<Rightarrow> [])
       (configure_resolver_steps (os_const M)
          (if os_const M = ''linux'' then detect_resolv_owner_live w else Unknown) (loopback_ip cfg) (tld cfg)))
     @ (if browser then policy_files (os_const M) else [])"

lemma planned_writes:
  assumes "Write p c \<in> set (configure_resolver_steps (os_const M)
      (if os_const M = ''linux'' then detect_resolv_owner_live w else Unknown) (loopback_ip cfg) (tld cfg))"
  shows "p \<in> set (planned_files M cfg browser w)"
  unfolding planned_files_def set_append set_concat set_map
  by (rule UnI1, rule UnionI, rule imageI, rule imageI, rule assms) simp

lemma configure_settled:
  assumes "configure M policy cfg browser h = (r, h')"
    and "holds (os_files (os_const M) policy (loopback_ip cfg) (tld cfg)) ls (disk h)"
    and "set (planned_files M cfg browser (disk h)) \<subseteq> set ls"
  shows "disk h' = disk h"
proof -
  let ?os = "os_const M" and ?t = "tld cfg" and ?ip = "loopback_ip cfg"
  let ?sts = "\<lambda>w. configure_resolver_steps ?os (if ?os = ''linux'' then detect_resolv_owner_live w else Unknown) ?ip ?t"
  obtain el h0 where el: "is_elevated M h = (el, h0)" by fastforce
  have h0: "disk h0 = disk h" using is_elevated_disk [OF el] .
  show ?thesis
  proof (cases "el \<and> is_supported ?os")
    case True
    then have "is_elevated M h = (True, h0)" "is_supported ?os" using el by simp_all
    from configure_parts [OF assms(1) this] obtain res r1 h1 r2 h2 act where
      ex: "foldl (\<lambda>s st. execute_step M ?ip st s) ((report_started ''configure-os'' ?os)\<lparr>resolver := res\<rparr>, h0) (?sts (disk h0)) = (r1, h1)"
      and pol: "(if browser then apply_browser_policy M policy ?os ?ip (r1, h1) else (r1, h1)) = (r2, h2)"
      and d: "disk h' = disk h2" by metis
    have "settled_step (disk h0) st" if "st \<in> set (?sts (disk h0))" for st
    proof (cases st)
      case (Write p c)
      with that assms(3) have "p \<in> set ls" using planned_writes [of p c M] unfolding h0 by blast
      moreover have "(p, c) \<in> set (os_files ?os policy ?ip ?t)"
        using bspec [OF configure_writes that] Write by simp
      ultimately show ?thesis using assms(2) Write by (auto simp: holds_def h0)
    next
      case (RemoveOurs p)
      with bspec [OF configure_writes [of _ _ _ _ policy] that] show ?thesis by simp
    qed simp_all
    with steps_settled [OF ex] h0 have h1: "disk h1 = disk h" by simp
    have "disk h2 = disk h1"
    proof (cases browser)
      case True
      then have "set (policy_files ?os) \<subseteq> set ls" using assms(3) by (simp add: planned_files_def)
      with assms(2) have "\<forall>(p, c)\<in>set (os_files ?os policy ?ip ?t).
          p \<in> set (policy_files ?os) \<longrightarrow> read_to_string (disk h1) (path_of p) = Ok c"
        unfolding holds_def h1 by blast
      with policy_settled [of M policy ?os ?ip r1 h1 r2 h2] pol True show ?thesis by simp
    qed (use pol in simp)
    with d h1 show ?thesis by simp
  next
    case False
    from refused(1) [OF el False, of policy cfg browser] assms(1) h0 show ?thesis by simp
  qed
qed

section \<open>The report against the plan\<close>

text \<open>Steps of Linux: they write files, run tools and leave notes.\<close>

fun plain_step :: "path set \<Rightarrow> step \<Rightarrow> bool" where
  "plain_step B (Write p c) \<longleftrightarrow> path_of p \<in> B"
| "plain_step B (RemoveOurs p) \<longleftrightarrow> False"
| "plain_step B (Ps c l b) \<longleftrightarrow> False"
| "plain_step B st \<longleftrightarrow> True"

text \<open>A file is reported as applied, or its failure is noted; only files of the plan are reported; and an artifact
  that is not reported is as it was.\<close>

definition accounts :: "path set \<Rightarrow> step list \<Rightarrow> os_report \<times> 'm host \<Rightarrow> os_report \<times> 'm host \<Rightarrow> bool" where
  "accounts B sts s s' \<longleftrightarrow>
     (\<forall>p. p \<in> set (applied (fst s)) \<longrightarrow> p \<in> set (applied (fst s')))
   \<and> (\<forall>m. m \<in> set (note_list (fst s)) \<longrightarrow> m \<in> set (note_list (fst s')))
   \<and> (\<forall>p c. Write p c \<in> set sts \<longrightarrow>
        p \<in> set (applied (fst s')) \<or> (\<exists>e. p @ '' not written: '' @ e \<in> set (note_list (fst s'))))
   \<and> (\<forall>p. p \<in> set (applied (fst s')) \<longrightarrow> p \<in> set (applied (fst s)) \<or> (\<exists>c. Write p c \<in> set sts))
   \<and> tidy B (disk (snd s'))
   \<and> (\<forall>q. q \<in> B \<longrightarrow> q \<notin> path_of ` set (applied (fst s')) \<longrightarrow> lookup (disk (snd s')) q = lookup (disk (snd s)) q)"

lemma accountsD:
  assumes "accounts B sts s s'"
  shows "p \<in> set (applied (fst s)) \<Longrightarrow> p \<in> set (applied (fst s'))"
    "m \<in> set (note_list (fst s)) \<Longrightarrow> m \<in> set (note_list (fst s'))"
    "Write p c \<in> set sts \<Longrightarrow> p \<in> set (applied (fst s')) \<or> (\<exists>e. p @ '' not written: '' @ e \<in> set (note_list (fst s')))"
    "p \<in> set (applied (fst s')) \<Longrightarrow> p \<in> set (applied (fst s)) \<or> (\<exists>c. Write p c \<in> set sts)"
    "tidy B (disk (snd s'))"
    "q \<in> B \<Longrightarrow> q \<notin> path_of ` set (applied (fst s')) \<Longrightarrow> lookup (disk (snd s')) q = lookup (disk (snd s)) q"
  using assms unfolding accounts_def by blast+

lemma note_list_simps [simp]:
  "note_list (push_applied l r) = note_list r" "note_list (add_note m r) = note_list r @ [m]"
  "note_list (apply_activation_result os w a r) = note_list r"
  by (simp_all add: push_applied_def add_note_def apply_activation_result_def Let_def)

lemma execute_step_accounts:
  assumes "plain_step B st" "tidy B (disk h)" "separated (process_id M) B"
  shows "accounts B [st] (r, h) (execute_step M ip st (r, h))"
proof (cases st)
  case (Write p c)
  obtain x w' where w: "write_if_changed (process_id M) (path_of p) c (disk h) = (x, w')" by fastforce
  have pB: "path_of p \<in> B" using assms(1) Write by simp
  have ok: "artifact_ok (lookup (disk h)) q" if "q \<in> B" for q using assms(2) that by (simp add: tidy_def)
  note wa = write_artifact [OF w ok [OF pB]]
  have other: "artifact_ok (lookup w') q \<and> lookup w' q = lookup (disk h) q" if "q \<in> B" "q \<noteq> path_of p" for q
    using wa(4) [OF ok [OF that(1)]] that pB assms(3) by (auto simp: separated_def)
  have t: "tidy B w'" using other wa(1) unfolding tidy_def by blast
  have same: "lookup w' q = lookup (disk h) q" if "q \<in> B" "q \<noteq> path_of p \<or> \<not> is_ok x" for q
    using that other wa(3) by (cases "q = path_of p") blast+
  show ?thesis
  proof (cases x)
    case (Inl e)
    with w t same Write show ?thesis by (auto simp: accounts_def on_disk_def)
  next
    case (Inr b)
    with w t same Write show ?thesis by (auto simp: accounts_def on_disk_def)
  qed
qed (use assms in \<open>auto simp: accounts_def tool_disk add_note_def\<close>)

lemma accounts_trans:
  assumes "accounts B as s s1" "accounts B bs s1 s2"
  shows "accounts B (as @ bs) s s2"
proof -
  note a = accountsD [OF assms(1)] and b = accountsD [OF assms(2)]
  have noted: "p \<in> set (applied (fst s2)) \<or> (\<exists>e. p @ '' not written: '' @ e \<in> set (note_list (fst s2)))"
    if "Write p c \<in> set (as @ bs)" for p c
    using that a(3) b(1,2,3) unfolding set_append Un_iff by metis
  have planned: "p \<in> set (applied (fst s)) \<or> (\<exists>c. Write p c \<in> set (as @ bs))" if "p \<in> set (applied (fst s2))" for p
    using that a(4) b(4) unfolding set_append Un_iff by metis
  have frame: "lookup (disk (snd s2)) q = lookup (disk (snd s)) q"
    if "q \<in> B" "q \<notin> path_of ` set (applied (fst s2))" for q
  proof -
    have "q \<notin> path_of ` set (applied (fst s1))" using that(2) b(1) by auto
    with a(6) b(6) that show ?thesis by simp
  qed
  have kept: "p \<in> set (applied (fst s)) \<Longrightarrow> p \<in> set (applied (fst s2))"
    "m \<in> set (note_list (fst s)) \<Longrightarrow> m \<in> set (note_list (fst s2))" for p m
    using a(1,2) b(1,2) by blast+
  show ?thesis
    unfolding accounts_def
    by (intro conjI allI impI) (erule kept noted planned | rule b(5) | erule (1) frame)+
qed

lemma steps_account:
  assumes "\<forall>st\<in>set sts. plain_step B st" "tidy B (disk (snd s))" "separated (process_id M) B"
  shows "accounts B sts s (foldl (\<lambda>s st. execute_step M ip st s) s sts)"
  using assms
proof (induction sts arbitrary: s)
  case Nil
  then show ?case by (simp add: accounts_def)
next
  case (Cons st sts)
  have one: "accounts B [st] s (execute_step M ip st s)"
    using execute_step_accounts [of B st "snd s" M "fst s" ip] Cons.prems by simp
  then have "tidy B (disk (snd (execute_step M ip st s)))" by (simp add: accounts_def)
  with Cons.IH [of "execute_step M ip st s"] Cons.prems accounts_trans [OF one] show ?case by simp
qed

section \<open>What a Linux machine is meant to get\<close>

definition file_lines :: "string list \<Rightarrow> string" where
  "file_lines ls = concat (map (\<lambda>l. l @ NL) ls)"

text \<open>Who owns the resolver, and the files for it: one line for the mark, then the address of the responder for the
  TLD. The browser policy is the same text for both browsers.\<close>

definition linux_owner :: "fsys \<Rightarrow> resolv_owner" where
  "linux_owner w =
     (if case read_link w [''etc'', ''resolv.conf''] of Inr target \<Rightarrow> sublist ''systemd'' target | Inl e \<Rightarrow> False
      then SystemdResolved
      else if is_dir w [''etc'', ''NetworkManager'', ''dnsmasq.d''] then NetworkManagerDnsmasq
      else Unknown)"

definition resolver_files :: "config \<Rightarrow> resolv_owner \<Rightarrow> (string \<times> string) list" where
  "resolver_files cfg owner = (case owner of
       SystemdResolved \<Rightarrow> [(''/etc/systemd/resolved.conf.d/dig.conf'',
         file_lines [''# '' @ MARKER, ''[Resolve]'', ''DNS='' @ show_ipv4 (loopback_ip cfg), ''Domains=~'' @ tld cfg])]
     | NetworkManagerDnsmasq \<Rightarrow> [(''/etc/NetworkManager/dnsmasq.d/dig.conf'',
         file_lines [''# '' @ MARKER, ''server=/'' @ tld cfg @ ''/'' @ show_ipv4 (loopback_ip cfg)])]
     | Unknown \<Rightarrow> [])"

definition linux_files :: "config \<Rightarrow> string \<Rightarrow> bool \<Rightarrow> resolv_owner \<Rightarrow> (string \<times> string) list" where
  "linux_files cfg policy browser owner = resolver_files cfg owner
     @ (if browser then [(''/etc/opt/chrome/policies/managed/dig-dns.json'', policy),
                         (''/etc/chromium/policies/managed/dig-dns.json'', policy)] else [])"

text \<open>The abstract state: the texts at the four places the tool knows.\<close>

definition os_view :: "fsys \<Rightarrow> path \<Rightarrow> string option" where
  "os_view w q = (if q \<in> path_of ` {''/etc/systemd/resolved.conf.d/dig.conf'', ''/etc/NetworkManager/dnsmasq.d/dig.conf'',
       ''/etc/opt/chrome/policies/managed/dig-dns.json'', ''/etc/chromium/policies/managed/dig-dns.json''}
     then res_ok (read_to_string w q) else None)"

lemmas linux_names = LINUX_RESOLVED_DROPIN_def LINUX_NM_DNSMASQ_CONF_def LINUX_CHROME_POLICY_def LINUX_CHROMIUM_POLICY_def

lemma os_view_artifacts: "os_view w q = (if q \<in> artifacts ''linux'' t then res_ok (read_to_string w q) else None)"
  by (simp add: os_view_def artifacts_def linux_names)

lemma linux_owner_live: "detect_resolv_owner_live w = linux_owner w"
proof -
  have "path_of ''/etc/resolv.conf'' = [''etc'', ''resolv.conf'']"
    "path_of ''/etc/NetworkManager/dnsmasq.d'' = [''etc'', ''NetworkManager'', ''dnsmasq.d'']" by code_simp+
  then show ?thesis
    by (cases "read_link w [''etc'', ''resolv.conf'']")
      (auto simp: detect_resolv_owner_live_def detect_resolv_owner_def linux_owner_def contains_str_iff sublist_def)
qed

definition linux_steps :: "string \<Rightarrow> config \<Rightarrow> bool \<Rightarrow> resolv_owner \<Rightarrow> step list" where
  "linux_steps policy cfg browser owner = configure_resolver_steps ''linux'' owner (loopback_ip cfg) (tld cfg)
     @ (if browser then map (\<lambda>p. Write p policy) (policy_files ''linux'') else [])"

lemma linux_plan_writes:
  "Write p c \<in> set (linux_steps policy cfg browser owner) \<longleftrightarrow> (p, c) \<in> set (linux_files cfg policy browser owner)"
  by (cases owner) (auto simp: linux_steps_def configure_resolver_steps_def linux_files_def resolver_files_def
      file_lines_def policy_files_def linux_names systemd_resolved_dropin_def networkmanager_dnsmasq_conf_def)

lemma linux_plan_plain: "\<forall>st\<in>set (linux_steps policy cfg browser owner). plain_step (artifacts ''linux'' t) st"
  by (cases owner) (auto simp: linux_steps_def configure_resolver_steps_def artifacts_def policy_files_def)

lemma linux_files_distinct: "distinct (map (\<lambda>(p, c). path_of p) (linux_files cfg policy browser owner))"
  using artifact_paths(1-4)
  by (cases owner; cases browser) (simp_all add: linux_files_def resolver_files_def linux_names)

lemma linux_files_subset:
  "set (linux_files cfg policy browser owner) \<subseteq> set (os_files ''linux'' policy (loopback_ip cfg) (tld cfg))"
  by (cases owner) (auto simp: linux_files_def resolver_files_def os_files_def file_lines_def linux_names
      systemd_resolved_dropin_def networkmanager_dnsmasq_conf_def)

text \<open>The run on Linux is one fold over the plan and the policy files.\<close>

lemma linux_configure:
  assumes "os_const M = ''linux''" "configure M policy cfg browser h = (r, h')" "is_elevated M h = (True, h0)"
  obtains rep rf h2 where
    "foldl (\<lambda>s st. execute_step M (loopback_ip cfg) st s) (rep, h0)
       (linux_steps policy cfg browser (linux_owner (disk h))) = (rf, h2)"
    "applied rep = []" "applied r = applied rf" "set (note_list rf) \<subseteq> set (note_list r)" "disk h' = disk h2"
proof -
  let ?ip = "loopback_ip cfg" and ?plan = "configure_resolver_steps ''linux'' (linux_owner (disk h)) (loopback_ip cfg) (tld cfg)"
  have h0: "disk h0 = disk h" using is_elevated_disk [OF assms(3)] .
  have sup: "is_supported (os_const M)" by (simp add: is_supported_def assms(1))
  have own: "(if os_const M = ''linux'' then detect_resolv_owner_live (disk h0) else Unknown) = linux_owner (disk h)"
    by (simp add: linux_owner_live h0 assms(1))
  from configure_parts [OF assms(2,3) sup, unfolded own, unfolded assms(1)] obtain res r1 h1 r2 h2 act where
    ex: "foldl (\<lambda>s st. execute_step M ?ip st s) ((report_started ''configure-os'' ''linux'')\<lparr>resolver := res\<rparr>, h0)
       ?plan = (r1, h1)"
    and pol: "(if browser then apply_browser_policy M policy ''linux'' ?ip (r1, h1) else (r1, h1)) = (r2, h2)"
    and "(if applied r1 \<noteq> [] then verify_os_routing M cfg h2 else (False, h2)) = (act, h')"
    and d: "disk h' = disk h2"
    and r: "r = (apply_activation_result ''linux'' (applied r1 \<noteq> []) act r2)\<lparr>os_ok := True\<rparr>" .
  obtain rf where rf: "foldl (\<lambda>s st. execute_step M ?ip st s) (r1, h1)
      (if browser then map (\<lambda>p. Write p policy) (policy_files ''linux'') else []) = (rf, h2)"
    and r2: "applied r2 = applied rf" "set (note_list rf) \<subseteq> set (note_list r2)"
    using pol unfolding policy_linux by (cases browser) (auto simp: Let_def subset_insertI split: prod.splits)
  show thesis
  proof (rule that)
    show "foldl (\<lambda>s st. execute_step M ?ip st s) ((report_started ''configure-os'' ''linux'')\<lparr>resolver := res\<rparr>, h0)
        (linux_steps policy cfg browser (linux_owner (disk h))) = (rf, h2)"
      unfolding linux_steps_def foldl_append ex by (rule rf)
  qed (use r r2 d in simp_all)
qed

lemma linux_accounts:
  assumes "os_const M = ''linux''" "configure M policy cfg browser h = (r, h')" "fst (is_elevated M h)"
    and "tidy (artifacts ''linux'' (tld cfg)) (disk h)"
  shows "accounts (artifacts ''linux'' (tld cfg)) (linux_steps policy cfg browser (linux_owner (disk h)))
    (r\<lparr>applied := [], note_list := []\<rparr>, h) (r, h')"
proof -
  let ?B = "artifacts ''linux'' (tld cfg)"
  obtain h0 where el: "is_elevated M h = (True, h0)" using assms(3) by (cases "is_elevated M h") auto
  from linux_configure [OF assms(1,2) el] obtain rep rf h2 where
    f: "foldl (\<lambda>s st. execute_step M (loopback_ip cfg) st s) (rep, h0)
       (linux_steps policy cfg browser (linux_owner (disk h))) = (rf, h2)"
    and r: "applied rep = []" "applied r = applied rf" "set (note_list rf) \<subseteq> set (note_list r)" "disk h' = disk h2" .
  have "accounts ?B (linux_steps policy cfg browser (linux_owner (disk h))) (rep, h0) (rf, h2)"
    using steps_account [OF linux_plan_plain _ artifacts_separated, where s = "(rep, h0)" and M = M and ip = "loopback_ip cfg"]
      f assms(4) is_elevated_disk [OF el] by (metis snd_conv)
  note a = accountsD [OF this, unfolded fst_conv snd_conv]
  show ?thesis
    unfolding accounts_def using r(1,2) a(3,4) r(3) a(5,6) r(4) is_elevated_disk [OF el] by (simp, blast)
qed

section \<open>A write that nothing hinders\<close>

lemma write_succeeds:
  assumes "p \<noteq> []" "real_path (lookup w) p" "faults w = []"
    and "lookup w (temp_path pid p) = None" "\<not> is_dir_at (lookup w) p"
  shows "is_ok (fst (write_if_changed pid p c w))"
proof (cases "read_to_string w p = Ok c")
  case False
  have "is_dir_at (lookup w) (take n p)" if "n < length p" for n using assms(2) that by (simp add: real_path_iff)
  from this [of "length p - 1"] assms(1) have dir: "is_dir_at (lookup w) (butlast p)" by (simp add: butlast_conv_take)
  have real: "real_path (lookup w) (butlast p)"
    using assms(2) by (auto simp: real_path_iff take_butlast dest: in_set_butlastD)
  have nolink: "\<not> is_link_at (lookup w) (butlast p)" using dir by (auto simp: is_dir_at_Some is_link_at_Some)
  obtain e where e: "lookup w (butlast p) = Some e" "fnode e = Dir" using dir by (auto simp: is_dir_at_Some)
  have c: "create_dir (butlast p) w = (Err (os_error KAlreadyExists), w)"
    using e real by (simp add: create_dir_def faulty_def assms(3) resolve_real)
  have d: "is_dir w (butlast p)" using e by (simp add: is_dir_def metadata_real [OF real nolink])
  have "create_dir_all (butlast p) w = (Ok (), w)"
  proof (cases "length (butlast p)")
    case 0
    then have "butlast p = []" by (simp only: length_0_conv)
    with c d show ?thesis by (simp add: create_dir_all_def)
  next
    case (Suc n)
    have "take (Suc n) (butlast p) = butlast p" using Suc by simp
    with c d Suc show ?thesis by (simp add: create_dir_all_def Let_def)
  qed
  moreover obtain x w' where "atomic_write pid p c w = (x, w')" by fastforce
  ultimately show ?thesis
    using atomic_write_succeeds [OF assms, of c] False assms(1)
    by (cases x) (auto simp: write_if_changed_def path_parent_def)
qed (simp add: write_if_changed_def)

text \<open>The resolver file is the first step of the plan.\<close>

lemma resolver_file_first:
  "(p, c) \<in> set (resolver_files cfg owner) \<Longrightarrow> \<exists>rest. linux_steps policy cfg browser owner = Write p c # rest"
  by (cases owner) (simp_all add: resolver_files_def linux_steps_def configure_resolver_steps_def file_lines_def
      linux_names systemd_resolved_dropin_def networkmanager_dnsmasq_conf_def)

lemma resolver_file_written:
  assumes "os_const M = ''linux''" "configure M policy cfg browser h = (r, h')" "fst (is_elevated M h)"
    and "tidy (artifacts ''linux'' (tld cfg)) (disk h)" "faults (disk h) = []"
    and "(p, c) \<in> set (resolver_files cfg (linux_owner (disk h)))"
    and "real_path (lookup (disk h)) (path_of p)" "\<not> is_dir_at (lookup (disk h)) (path_of p)"
    and "lookup (disk h) (temp_path (process_id M) (path_of p)) = None"
  shows "p \<in> set (applied r)"
proof -
  let ?B = "artifacts ''linux'' (tld cfg)" and ?own = "linux_owner (disk h)" and ?ip = "loopback_ip cfg"
  obtain h0 where el: "is_elevated M h = (True, h0)" using assms(3) by (cases "is_elevated M h") auto
  have h0: "disk h0 = disk h" using is_elevated_disk [OF el] .
  from linux_configure [OF assms(1,2) el] obtain rep rf h2 where
    f: "foldl (\<lambda>s st. execute_step M ?ip st s) (rep, h0) (linux_steps policy cfg browser ?own) = (rf, h2)"
    and r: "applied rep = []" "applied r = applied rf" "set (note_list rf) \<subseteq> set (note_list r)" "disk h' = disk h2" .
  obtain rest where steps: "linux_steps policy cfg browser ?own = Write p c # rest"
    using resolver_file_first [OF assms(6)] by blast
  have plain: "\<forall>st\<in>set (Write p c # rest). plain_step ?B st"
    using linux_plan_plain [of policy cfg browser ?own "tld cfg"] unfolding steps .
  have ne: "path_of p \<noteq> []" using plain assms(4) by (auto simp: tidy_def artifact_ok_def)
  obtain x w where w: "write_if_changed (process_id M) (path_of p) c (disk h0) = (x, w)" by fastforce
  with write_succeeds [OF ne assms(7,5,9,8)] h0 have ok: "is_ok x" by (metis fst_conv)
  obtain ra ha where a: "execute_step M ?ip (Write p c) (rep, h0) = (ra, ha)" by fastforce
  with ok w have "p \<in> set (applied ra)" by (cases x) (auto simp: on_disk_def)
  have "accounts ?B [Write p c] (rep, h0) (ra, ha)"
    using execute_step_accounts [of ?B "Write p c" h0 M rep ?ip] plain assms(4) h0 artifacts_separated a by simp
  from accountsD(5) [OF this] have "tidy ?B (disk ha)" by simp
  with steps_account [of rest ?B "(ra, ha)" M ?ip] plain artifacts_separated f a
  have "accounts ?B rest (ra, ha) (rf, h2)" by (simp add: steps)
  from accountsD(1) [OF this] \<open>p \<in> set (applied ra)\<close> show ?thesis by (simp add: r(2))
qed

section \<open>The view of the files\<close>

lemma os_view_same:
  assumes "artifact_ok (lookup w) q" "artifact_ok (lookup w') q" "lookup w' q = lookup w q"
  shows "os_view w' q = os_view w q"
proof -
  have "read_to_string w' q = Ok c \<longleftrightarrow> read_to_string w q = Ok c" for c
    using assms by (simp add: artifact_read)
  note iff = this
  have "res_ok (read_to_string w' q) = res_ok (read_to_string w q)"
  proof (cases "read_to_string w q")
    case (Inr c)
    with iff [of c] show ?thesis by simp
  next
    case (Inl e)
    with iff [of "the (res_ok (read_to_string w' q))"] obtain e' where "read_to_string w' q = Err e'"
      by (cases "read_to_string w' q") simp_all
    with Inl show ?thesis by simp
  qed
  then show ?thesis by (simp add: os_view_def)
qed

lemma os_view_gone: "artifact_ok (lookup w) q \<Longrightarrow> lookup w q = None \<Longrightarrow> os_view w q = None"
  using artifact_read [of w q] by (cases "read_to_string w q") (auto simp: os_view_def)

definition view_of :: "(string \<times> string) list \<Rightarrow> path \<Rightarrow> string option" where
  "view_of files = map_of (map (\<lambda>(p, c). (path_of p, c)) files)"

lemma view_of_Some:
  assumes "distinct (map (\<lambda>(p, c). path_of p) files)"
  shows "view_of (filter P files) q = Some c \<longleftrightarrow> (\<exists>p. (p, c) \<in> set files \<and> P (p, c) \<and> path_of p = q)"
proof -
  let ?l = "map (\<lambda>(p, c). (path_of p, c)) (filter P files)"
  have l: "map fst ?l = map (\<lambda>(p, c). path_of p) (filter P files)" by (induction files) auto
  have "distinct (map fst ?l)" unfolding l by (rule distinct_map_filter [OF assms])
  from map_of_eq_Some_iff [OF this] show ?thesis by (force simp: view_of_def)
qed

lemma configure_view:
  assumes "os_const M = ''linux''" "tidy (artifacts ''linux'' (tld cfg)) (disk h)"
    and "configure M policy cfg browser h = (r, h')"
  shows "os_view (disk h') = os_view (disk h)
      ++ view_of (filter (\<lambda>(p, c). p \<in> set (applied r)) (linux_files cfg policy browser (linux_owner (disk h))))"
    and "set (applied r) \<subseteq> fst ` set (linux_files cfg policy browser (linux_owner (disk h)))"
proof -
  let ?B = "artifacts ''linux'' (tld cfg)" and ?F = "linux_files cfg policy browser (linux_owner (disk h))"
  have facts: "set (applied r) \<subseteq> fst ` set ?F \<and> tidy ?B (disk h')
      \<and> (\<forall>q\<in>?B. q \<notin> path_of ` set (applied r) \<longrightarrow> lookup (disk h') q = lookup (disk h) q)"
  proof (cases "fst (is_elevated M h)")
    case True
    note a = accountsD [OF linux_accounts [OF assms(1,3) True assms(2)], unfolded fst_conv snd_conv]
    have "p \<in> fst ` set ?F" if "p \<in> set (applied r)" for p
      using a(4) [OF that] by (force simp: linux_plan_writes)
    with a(5,6) show ?thesis by blast
  next
    case False
    obtain el h0 where el: "is_elevated M h = (el, h0)" by fastforce
    with False have "\<not> (el \<and> is_supported (os_const M))" by simp
    from refused(1) [OF el this, of policy cfg browser] assms(3) is_elevated_disk [OF el] assms(2)
    show ?thesis by auto
  qed
  then show "set (applied r) \<subseteq> fst ` set ?F" by blast
  have tidy': "artifact_ok (lookup (disk h')) q" "artifact_ok (lookup (disk h)) q" if "q \<in> ?B" for q
    using facts assms(2) that by (simp_all add: tidy_def)
  have holds: "read_to_string (disk h') (path_of p) = Ok c" if "(p, c) \<in> set ?F" "p \<in> set (applied r)" for p c
  proof -
    have "(p, c) \<in> set (os_files ''linux'' policy (loopback_ip cfg) (tld cfg))"
      using linux_files_subset that(1) by blast
    with configure_holds [OF assms(3), unfolded assms(1), OF assms(2)] that(2) show ?thesis
      unfolding holds_def by blast
  qed
  have in_B: "path_of p \<in> ?B" if "(p, c) \<in> set ?F" for p c
  proof -
    have "(p, c) \<in> set (os_files ''linux'' policy (loopback_ip cfg) (tld cfg))"
      using linux_files_subset that by blast
    then have "path_of p \<in> path_of ` fst ` set (os_files ''linux'' policy (loopback_ip cfg) (tld cfg))" by force
    with os_files_one_content [of "''linux''" "tld cfg" policy "loopback_ip cfg"] show ?thesis
      unfolding one_content_def by blast
  qed
  show "os_view (disk h') = os_view (disk h) ++ view_of (filter (\<lambda>(p, c). p \<in> set (applied r)) ?F)"
  proof
    fix q
    let ?v = "view_of (filter (\<lambda>(p, c). p \<in> set (applied r)) ?F)"
    note vs = view_of_Some [OF linux_files_distinct, of "\<lambda>(p, c). p \<in> set (applied r)" cfg policy browser "linux_owner (disk h)" q]
    show "os_view (disk h') q = (os_view (disk h) ++ ?v) q"
    proof (cases "?v q")
      case (Some c)
      then obtain p where p: "(p, c) \<in> set ?F" "p \<in> set (applied r)" "path_of p = q" using vs by auto
      with holds in_B have "os_view (disk h') q = Some c" by (auto simp: os_view_artifacts [of _ _ "tld cfg"])
      with Some show ?thesis by (simp add: map_add_def)
    next
      case None
      have "os_view (disk h') q = os_view (disk h) q"
      proof (cases "q \<in> ?B")
        case True
        have "q \<notin> path_of ` set (applied r)"
        proof
          assume "q \<in> path_of ` set (applied r)"
          then obtain p where p: "p \<in> set (applied r)" "path_of p = q" by blast
          with facts obtain c where "(p, c) \<in> set ?F" by fastforce
          with p vs [of c] None show False by auto
        qed
        with facts True have "lookup (disk h') q = lookup (disk h) q" by blast
        from os_view_same [OF tidy'(2,1) [OF True] this] show ?thesis .
      qed (simp add: os_view_artifacts [of _ _ "tld cfg"])
      with None show ?thesis by (simp add: map_add_def)
    qed
  qed
qed

lemma unconfigure_view:
  assumes "os_const M = ''linux''" "tidy (artifacts ''linux'' (tld cfg)) (disk h)" "unconfigure M cfg h = (r, h')"
  shows "os_view (disk h') = os_view (disk h) |` (- path_of ` set (removed r))"
proof
  fix q
  let ?B = "artifacts ''linux'' (tld cfg)"
  note d = dropsD [OF unconfigure_drops [OF assms(3), unfolded assms(1), OF assms(2)]]
  show "os_view (disk h') q = (os_view (disk h) |` (- path_of ` set (removed r))) q"
  proof (cases "q \<in> ?B")
    case True
    have ok: "artifact_ok (lookup (disk h)) q" "artifact_ok (lookup (disk h')) q"
      using assms(2) d(1) True by (simp_all add: tidy_def)
    show ?thesis
    proof (cases "q \<in> path_of ` set (removed r)")
      case gone: True
      with os_view_gone [OF ok(2) d(4) [OF True gone]] show ?thesis by (simp add: restrict_map_def)
    next
      case False
      with d(3) [of q] have "lookup (disk h') q = lookup (disk h) q" by simp
      from os_view_same [OF ok this] False show ?thesis by (simp add: restrict_map_def)
    qed
  qed (simp add: os_view_artifacts [of _ _ "tld cfg"] restrict_map_def)
qed

lemma unconfigure_leaves:
  assumes "os_const M = ''linux''" "tidy (artifacts ''linux'' (tld cfg)) (disk h)" "unconfigure M cfg h = (r, h')"
    and "faults (disk h) = []" "fst (is_elevated M h)" "os_view (disk h') q = Some c"
  shows "q \<in> path_of ` {''/etc/systemd/resolved.conf.d/dig.conf'', ''/etc/NetworkManager/dnsmasq.d/dig.conf''}
    \<and> \<not> content_is_ours c (loopback_ip cfg)"
proof -
  have t: "tidy (artifacts (os_const M) (tld cfg)) (disk h)" using assms(1,2) by simp
  have read: "read_to_string (disk h') q = Ok c" and q: "q \<in> artifacts ''linux'' (tld cfg)"
    using assms(6) by (cases "read_to_string (disk h') q"; simp add: os_view_artifacts [of _ _ "tld cfg"] split: if_splits)+
  have "q \<notin> path_of ` {LINUX_CHROME_POLICY, LINUX_CHROMIUM_POLICY}"
    using policy_files_gone [OF assms(3) t assms(4,5,1)] read by blast
  with q have m: "q \<in> marked ''linux'' (tld cfg)" by (auto simp: artifacts_def marked_def)
  have "\<not> file_is_ours (disk h') q (loopback_ip cfg)"
    using unconfigure_gone [OF assms(3) t assms(4,5)] m assms(1) by (auto simp: wiring_def)
  with read m show ?thesis by (simp add: file_is_ours_def marked_def linux_names)
qed

section \<open>Properties\<close>

text \<open>C26. On Linux the two commands implement a map from the tool's places to texts. \<open>configure-os\<close> sets out to
  write exactly the file for the resolver that owns the machine, systemd-resolved, else NetworkManager's dnsmasq,
  else none, with the responder's address for the TLD, and on request the browser policy at its two places. On every
  file system of the usual shape and for every pattern of failing calls and tools, the map afterwards is the map
  before, overridden by the texts of the files its report lists as applied; it lists only such files; run by root it
  notes every file it could not write; and without failing calls, and with nothing in the way, the resolver's file is
  written. \<open>unconfigure-os\<close> afterwards leaves the map without the places its report lists as removed, and, run by
  root without failing calls, leaves no policy and no resolver file that is ours.\<close>

theorem os_config_refines:
  assumes "os_const M = ''linux''" "tidy (artifacts ''linux'' (tld cfg)) (disk h)"
    and "configure M policy cfg browser h = (r1, h1)" "unconfigure M cfg h1 = (r2, h2)"
  shows "os_view (disk h1) = os_view (disk h)
      ++ view_of (filter (\<lambda>(p, c). p \<in> set (applied r1)) (linux_files cfg policy browser (linux_owner (disk h))))
    \<and> set (applied r1) \<subseteq> fst ` set (linux_files cfg policy browser (linux_owner (disk h)))
    \<and> (fst (is_elevated M h) \<longrightarrow> (\<forall>(p, c)\<in>set (linux_files cfg policy browser (linux_owner (disk h))).
         p \<in> set (applied r1) \<or> (\<exists>e. p @ '' not written: '' @ e \<in> set (note_list r1))))
    \<and> (fst (is_elevated M h) \<and> faults (disk h) = [] \<longrightarrow> (\<forall>(p, c)\<in>set (resolver_files cfg (linux_owner (disk h))).
         real_path (lookup (disk h)) (path_of p) \<and> \<not> is_dir_at (lookup (disk h)) (path_of p)
           \<and> lookup (disk h) (temp_path (process_id M) (path_of p)) = None
         \<longrightarrow> p \<in> set (applied r1)))
    \<and> os_view (disk h2) = os_view (disk h1) |` (- path_of ` set (removed r2))
    \<and> (fst (is_elevated M h1) \<and> faults (disk h1) = [] \<longrightarrow> (\<forall>q c. os_view (disk h2) q = Some c \<longrightarrow>
         q \<in> path_of ` {''/etc/systemd/resolved.conf.d/dig.conf'', ''/etc/NetworkManager/dnsmasq.d/dig.conf''}
         \<and> \<not> content_is_ours c (loopback_ip cfg)))"
proof -
  let ?F = "linux_files cfg policy browser (linux_owner (disk h))"
  have t1: "tidy (artifacts ''linux'' (tld cfg)) (disk h1)"
    using configure_adds [OF assms(3), unfolded assms(1), OF assms(2)] by (simp add: adds_def)
  have noted: "p \<in> set (applied r1) \<or> (\<exists>e. p @ '' not written: '' @ e \<in> set (note_list r1))"
    if "fst (is_elevated M h)" "(p, c) \<in> set ?F" for p c
    using accountsD(3) [OF linux_accounts [OF assms(1,3) that(1) assms(2)], of p c] that(2)
    by (simp add: linux_plan_writes)
  note written = resolver_file_written [OF assms(1,3) _ assms(2)]
  show ?thesis
    by (intro conjI configure_view [OF assms(1-3)] unconfigure_view [OF assms(1) t1 assms(4)])
      (use noted written unconfigure_leaves [OF assms(1) t1 assms(4)] in \<open>(clarify, blast)+\<close>)
qed

text \<open>A machine whose \<open>resolv.conf\<close> belongs to NetworkManager.\<close>

definition managed_host :: "unit host" where
  "managed_host = \<lparr>disk = \<lparr>tree = [([], wired_dir), ([''etc''], wired_dir), ([''etc'', ''NetworkManager''], wired_dir),
       ([''etc'', ''NetworkManager'', ''dnsmasq.d''], wired_dir)],
     faults = [], umask = 0\<rparr>, procs = ()\<rparr>"

lemma managed_tidy: "tidy (artifacts ''linux'' t) (disk managed_host)"
proof -
  have "list_all (artifact_ok (lookup (disk managed_host)))
     [path_of LINUX_RESOLVED_DROPIN, path_of LINUX_NM_DNSMASQ_CONF, path_of LINUX_CHROME_POLICY, path_of LINUX_CHROMIUM_POLICY]"
    by code_simp
  then show ?thesis by (simp add: tidy_def artifacts_def)
qed

theorem os_config_refines_witness:
  "let place = [''etc'', ''NetworkManager'', ''dnsmasq.d'', ''dig.conf''];
       h1 = snd (configure wired_machine ''{}'' default_config True managed_host);
       h2 = snd (unconfigure wired_machine default_config h1)
   in os_view (disk managed_host) place = None
    \<and> os_view (disk h1) place = Some (file_lines [''# '' @ MARKER, ''server=/dig/127.0.0.5''])
    \<and> os_view (disk h2) place = None"
proof -
  let ?place = "[''etc'', ''NetworkManager'', ''dnsmasq.d'', ''dig.conf'']"
  let ?conf = "file_lines [''# '' @ MARKER, ''server=/dig/127.0.0.5'']"
  let ?c = "configure wired_machine ''{}'' default_config True managed_host"
  let ?u = "unconfigure wired_machine default_config (snd ?c)"
  let ?F = "linux_files default_config ''{}'' True (linux_owner (disk managed_host))"
  let ?nm = "''/etc/NetworkManager/dnsmasq.d/dig.conf''"
  have c: "configure wired_machine ''{}'' default_config True managed_host = (fst ?c, snd ?c)"
    and u: "unconfigure wired_machine default_config (snd ?c) = (fst ?u, snd ?u)" by simp_all
  have os: "os_const wired_machine = ''linux''" by code_simp
  from os_config_refines [OF os managed_tidy c u]
  have 1: "os_view (disk (snd ?c)) = os_view (disk managed_host) ++ view_of (filter (\<lambda>(p, c). p \<in> set (applied (fst ?c))) ?F)"
    and 2: "os_view (disk (snd ?u)) = os_view (disk (snd ?c)) |` (- path_of ` set (removed (fst ?u)))"
    and 3: "fst (is_elevated wired_machine (snd ?c)) \<and> faults (disk (snd ?c)) = [] \<Longrightarrow>
      os_view (disk (snd ?u)) q = Some t \<Longrightarrow> \<not> content_is_ours t (loopback_ip default_config)" for q t by blast+
  have a: "applied (fst ?c) = [LINUX_NM_DNSMASQ_CONF, LINUX_CHROME_POLICY, LINUX_CHROMIUM_POLICY]"
    and el: "fst (is_elevated wired_machine (snd ?c)) \<and> faults (disk (snd ?c)) = []" by code_simp+
  have F: "(?nm, ?conf) \<in> set ?F" and place: "path_of ?nm = ?place" and nm: "LINUX_NM_DNSMASQ_CONF = ?nm"
    and none: "os_view (disk managed_host) ?place = None"
    and ours: "content_is_ours ?conf (loopback_ip default_config)" by code_simp+
  have "view_of (filter (\<lambda>(p, c). p \<in> set (applied (fst ?c))) ?F) ?place = Some ?conf"
    unfolding view_of_Some [OF linux_files_distinct] a nm
    by (intro exI [of _ ?nm] conjI F place) simp
  then have v: "os_view (disk (snd ?c)) ?place = Some ?conf" unfolding 1 by (simp add: map_add_def)
  have "os_view (disk (snd ?u)) ?place \<noteq> Some ?conf" using 3 [OF el] ours by blast
  with v have "os_view (disk (snd ?u)) ?place = None" unfolding 2 by (simp add: restrict_map_def split: if_splits)
  with none v show ?thesis unfolding Let_def by blast
qed

text \<open>C27. \<open>configure-os\<close> can be run again: after a run, every file its report lists as applied holds exactly the
  text meant for it, and a later run, by any other process of the same platform and with or without the browser
  policy, leaves the file system as it is when all it sets out to write was applied before. (The file system has the
  usual shape, which a macOS, whose \<open>/etc\<close> is a link, has not.)\<close>

theorem configure_again:
  assumes "tidy (artifacts (os_const M) (tld cfg)) (disk h)"
    and "configure M policy cfg b h = (r1, h1)" "configure M' policy cfg b' h1 = (r2, h2)"
    and "os_const M' = os_const M" "set (planned_files M' cfg b' (disk h1)) \<subseteq> set (applied r1)"
  shows "(\<forall>(p, c)\<in>set (os_files (os_const M) policy (loopback_ip cfg) (tld cfg)).
       p \<in> set (applied r1) \<longrightarrow> read_to_string (disk h1) (path_of p) = Ok c)
    \<and> disk h2 = disk h1"
  using configure_holds [OF assms(2,1)] configure_settled [OF assms(3) _ assms(5)] assms(4)
  by (simp add: holds_def)

theorem configure_again_witness:
  "read_to_string (disk (snd (configure wired_machine ''{}'' default_config True managed_host)))
       (path_of LINUX_NM_DNSMASQ_CONF) = Ok (networkmanager_dnsmasq_conf (Ipv4Addr 127 0 0 5) ''dig'')
   \<and> disk (snd (configure (wired_machine\<lparr>process_id := 9\<rparr>) ''{}'' default_config True
         (snd (configure wired_machine ''{}'' default_config True managed_host))))
     = disk (snd (configure wired_machine ''{}'' default_config True managed_host))"
proof -
  let ?M' = "wired_machine\<lparr>process_id := 9\<rparr>"
  let ?c1 = "configure wired_machine ''{}'' default_config True managed_host"
  let ?c2 = "configure ?M' ''{}'' default_config True (snd ?c1)"
  have c: "configure wired_machine ''{}'' default_config True managed_host = (fst ?c1, snd ?c1)"
    "configure ?M' ''{}'' default_config True (snd ?c1) = (fst ?c2, snd ?c2)" by simp_all
  have t: "tidy (artifacts (os_const wired_machine) (tld default_config)) (disk managed_host)"
    using managed_tidy by (simp add: wired_machine_def)
  have a: "applied (fst ?c1) = [LINUX_NM_DNSMASQ_CONF, LINUX_CHROME_POLICY, LINUX_CHROMIUM_POLICY]" by code_simp
  have "planned_files ?M' default_config True (disk (snd ?c1))
    = [LINUX_NM_DNSMASQ_CONF, LINUX_CHROME_POLICY, LINUX_CHROMIUM_POLICY]" by code_simp
  then have p: "set (planned_files ?M' default_config True (disk (snd ?c1))) \<subseteq> set (applied (fst ?c1))"
    unfolding a by simp
  have "os_const ?M' = os_const wired_machine" by simp
  from configure_again [OF t c this p]
  have *: "\<forall>(p, c)\<in>set (os_files (os_const wired_machine) ''{}'' (loopback_ip default_config) (tld default_config)).
      p \<in> set (applied (fst ?c1)) \<longrightarrow> read_to_string (disk (snd ?c1)) (path_of p) = Ok c"
    and d: "disk (snd ?c2) = disk (snd ?c1)" by blast+
  have "(LINUX_NM_DNSMASQ_CONF, networkmanager_dnsmasq_conf (Ipv4Addr 127 0 0 5) ''dig'')
      \<in> set (os_files (os_const wired_machine) ''{}'' (loopback_ip default_config) (tld default_config))" by code_simp
  with * a d show ?thesis by fastforce
qed

end
