(* ===== verification/Spec2Isabelle.thy ===== *)
theory Spec2Isabelle
  imports EndToEnd Packaging OsConfigTwice
begin

text \<open>
  A model of \<open>dig-dns\<close>: the local service that answers DNS for \<open>*.dig\<close> on a loopback address, serves store content
  over HTTP after verifying it, and the commands that install, configure and diagnose it.

  \<^bold>\<open>The program and the theories.\<close> Every definition carries the name of the item it translates where HOL allows it.
  \<^item> Foundations. \<open>Prelude\<close> (results, options, words), \<open>RustStr\<close> (the string functions of the standard library the
    sources use, ASCII case, parsing and printing of numbers and IPv4 addresses), \<open>Io\<close> (errors, lines and words,
    processes), \<open>Json\<close> and \<open>Codec\<close> (the interfaces of \<open>serde_json\<close>, \<open>data-encoding\<close> and \<open>hex\<close> as locales, each
    interpreted on an executable instance), \<open>Fs\<close> (a POSIX file system with links, owners, modes, and a stream of
    injected faults), \<open>Machine\<close> (a file system with the processes of the machine).
  \<^item> The read path. \<open>Label\<close> (\<open>label.rs\<close>), \<open>Host\<close> (\<open>host.rs\<close>), \<open>Config\<close> (\<open>config.rs\<close>), \<open>Content\<close>
    (\<open>content.rs\<close>), \<open>Node\<close> (\<open>node.rs\<close>), \<open>Transport\<close> (\<open>transport.rs\<close>), \<open>Pac\<close> (\<open>pac.rs\<close>), \<open>Gateway\<close>
    (\<open>gateway.rs\<close>). A request is classified, the root is pinned or fetched, the content is paged from the node,
    verified, decrypted and sliced.
  \<^item> DNS. \<open>Dns\<close> (\<open>dns.rs\<close>: the wire format, the policy, the query builder and answer reader of the doctor) and
    \<open>SecureDns\<close> (\<open>secure_dns.rs\<close>: the chain of encrypted resolvers for the program's own lookup).
  \<^item> The running service. \<open>Server\<close> (\<open>server.rs\<close>, \<open>dig_local.rs\<close>): binding, the glue to \<open>hyper\<close>, DNS over TCP,
    the \<open>select!\<close> loops as inductive step relations, the service from start to end, the reverse proxy;
    \<open>ServerSpec\<close> states what they promise. \<open>State\<close> (\<open>state.rs\<close>): the runtime file and its guard.
  \<^item> Installation. \<open>Service\<close> (\<open>service.rs\<close>: plan, clean reinstall, commands, loopback probes), \<open>Staging\<close> (the
    copy of the binary into a root-owned directory), \<open>LinuxService\<close> (unit file and systemctl), \<open>ManagedService\<close>
    (the backend over the crate \<open>service_manager\<close>, \<open>status\<close>), \<open>SystemTool\<close> (\<open>system_tool.rs\<close>), \<open>Packaging\<close>
    (\<open>packaging.rs\<close>), \<open>ServiceRun\<close> (\<open>service_run.rs\<close>, \<open>win_service.rs\<close>).
  \<^item> Machine configuration. \<open>Artifacts\<close> and \<open>OsConfig\<close> (\<open>os_config.rs\<close>: markers, atomic writer, plans,
    execution, browser policies), \<open>OsConfigSpec\<close> (its artifacts and who owns them), \<open>OsConfigTwice\<close> (what the
    files hold, the refinement of a map from places to texts, and a second run), \<open>Doctor\<close> and \<open>DoctorRun\<close> (\<open>doctor.rs\<close>).
  \<^item> The command line. \<open>Cli\<close> (\<open>cli.rs\<close>, the error texts, \<open>lib.rs\<close>) and \<open>System\<close>, which composes all components
    into \<open>dig_dns\<close>, a function from a command and a machine to what is printed, the exit code and the machine after.
  \<^item> The whole. \<open>Site\<close> states what a node that publishes a site promises (locale \<open>published_site\<close>, provided by the
    JSON-RPC client of \<open>Transport\<close>) and proves that the gateway refines the site; \<open>EndToEnd\<close> follows a name, a
    \<open>fetch\<close>, an \<open>install\<close> and an \<open>uninstall\<close> through all components.

  \<^bold>\<open>State and effects.\<close> An operation that changes the outside world takes it and returns it; \<open>?\<close> is \<open>io_bind\<close> and
  \<open>rbind\<close>; an error is \<open>Inl\<close>. Panics are \<open>None\<close>. What the sources do not contain is an argument: the crates
  (\<open>digstore_core\<close>, \<open>base64\<close>, \<open>reqwest\<close>, \<open>hyper\<close>, \<open>hickory-resolver\<close>, \<open>service_manager\<close>, \<open>windows_service\<close>),
  sockets, processes and the clock. The tools of the service manager may change the file system too: the locale
  \<open>systemd_tools\<close> names the places they leave alone, and the properties hold for any other effect of theirs. Runs of
  the service are infinite sequences of states; what must happen is shown under fairness of \<open>select!\<close>, stated
  through the step relations (\<open>fair_run\<close>). Where a property needs a law of one of them, the law is a locale assumption or a
  hypothesis, and a witness instantiates it. Texts are bytes in UTF-8, one \<open>char\<close> per byte; integers have the
  width of the source, with wrap-around.

  \<^bold>\<open>What the lemmas show.\<close> Codecs and parsers: exact characterisations of what they accept and round trips. The
  gateway: only verified plaintext leaves it, it is no open proxy, it always answers. DNS: the policy field by field,
  truncation, framing. Transport: paging succeeds exactly on a bounded, strictly advancing chain. Staging, artifacts
  and OS configuration: for every state of the file system and every pattern of failing calls, what is written is
  safe from other users, what is removed is exactly known, on Linux both commands refine a map from the tool's
  places to texts, and configuring again changes nothing. The service: the invariants of its loops, that one signal
  ends every fair run, and the truth of its runtime file. The command line: every command that takes a configuration
  runs with the one of the environment or not at all (\<open>uninstall\<close>, \<open>start\<close> and \<open>stop\<close> take none), and the exit
  code of \<open>status\<close> is the probe. End to end: a store's name resolves to the gateway,
  which serves that store; over a publishing node \<open>fetch\<close> prints exactly the published bytes; a successful
  \<open>install\<close> leaves a program only root can replace, and \<open>uninstall\<close> removes the unit and, itself, nothing else.

  \<^bold>\<open>Bounds.\<close> All recursions terminate by themselves. The bounds in the model are those of the code: 100000 content
  windows (\<open>MAX_CONTENT_WINDOWS\<close>), 40 polls for the removal of a service (\<open>REMOVAL_POLL_ATTEMPTS\<close>), a UDP buffer of
  4096 bytes. The file system follows at most 40 symbolic links, as Linux does.

  \<^bold>\<open>Not modelled.\<close> The argument parser \<open>clap\<close>, \<open>tokio\<close>'s scheduler beyond the interleaving of the loops, log lines,
  the texts of panics, TLS set-up, timeouts other than as failures of a call, the effect of the remaining external
  tools on files, the registry behind \<open>reg\<close>, what the HTTP client does inside one \<open>send\<close>, concurrent changes of the
  file system by others during a call, \<open>build.rs\<close>, the entry points \<open>main.rs\<close> and \<open>digd.rs\<close>, which only call
  \<open>cli::run\<close>, and the installer and packaging sources, which are no Rust code. The properties about OS configuration
  assume real directories above the artifacts, so they do not speak of a macOS, whose \<open>/etc\<close> is a link.
\<close>

end
